(* ===== verification/Go_Prelude.thy ===== *)
theory Go_Prelude
  imports Main "HOL-Library.Word" "HOL-Library.Monad_Syntax"
begin

text \<open>
  The Go constructs every component of the model uses.

  A Go call either returns or stops with a run-time panic (an index or slice out of
  range, a failed type assertion): it is a value of \<open>'a go\<close>, that is \<open>'a option\<close> with
  \<open>None\<close> for the panic, so \<open>do\<close> blocks thread it. A Go function with result
  \<open>(T, error)\<close> returns the pair of both, \<open>('t \<times> error option) go\<close>. Go's \<open>int\<close> values in
  this code are lengths and offsets, never negative and far below \<open>2 ^ 63\<close>: they are \<open>nat\<close>.
  Bytes and the fixed-width integers are words. A slice is a list; slicing beyond the
  length is modelled as a panic (Go allows it up to the capacity), which makes the
  absence-of-panic theorems stronger than the language needs.

  A \<open>for\<close> loop is \<open>go_loop body s\<close>, where \<open>body\<close> is the guard and the loop body:
  it moves to the next iteration with \<open>Next s'\<close> and leaves the loop (guard false, break or
  return) with \<open>Done r\<close>. The loop is a partial function in the option type, so a run that
  never ends is \<open>None\<close> as well: a proof that a loop is not \<open>None\<close> shows that it terminates
  and that it does not panic. The two locales at the end are the contracts the loops of the
  parsers share: a total-correctness contract and a decoder contract (a loop that undoes a
  writer).
\<close>

unbundle bit_operations_syntax

section \<open>Types\<close>

type_synonym byte = "8 word"
type_synonym u16 = "16 word"
type_synonym u32 = "32 word"
type_synonym bytes = "byte list"
type_synonym 'a go = "'a option"

text \<open>The dynamic type of an interface value: the struct itself or a pointer to it.\<close>

datatype 'a iface = is_Val: Val 'a | Ptr 'a

primrec deref :: "'a iface \<Rightarrow> 'a" where
  "deref (Val x) = x"
| "deref (Ptr x) = x"

named_theorems go_defs \<open>definitions of the Go primitives\<close>
named_theorems word_io \<open>reading back the bytes of a written integer\<close>

section \<open>Slices\<close>

definition idx :: "'a list \<Rightarrow> nat \<Rightarrow> 'a go" where
  "idx xs i = (if i < length xs then Some (xs ! i) else None)"

definition subslice :: "'a list \<Rightarrow> nat \<Rightarrow> nat \<Rightarrow> 'a list go" where
  "subslice xs lo hi = (if lo \<le> hi \<and> hi \<le> length xs then Some (take (hi - lo) (drop lo xs)) else None)"

text \<open>Go's \<open>copy(dst, src)\<close>: as many elements as both have.\<close>

definition go_copy :: "'a list \<Rightarrow> 'a list \<Rightarrow> 'a list" where
  "go_copy dst src = take (length dst) src @ drop (length src) dst"

definition set_idx :: "'a list \<Rightarrow> nat \<Rightarrow> 'a \<Rightarrow> 'a list go" where
  "set_idx xs i v = (if i < length xs then Some (xs[i := v]) else None)"

declare idx_def [go_defs] subslice_def [go_defs] set_idx_def [go_defs]

lemma idx_Some [simp]: "i < length xs \<Longrightarrow> idx xs i = Some (xs ! i)"
  by (simp add: idx_def)

lemma idx_append [simp]: "idx (xs @ ys) (length xs + i) = idx ys i"
  by (simp add: idx_def)

lemma idx_append0 [simp]: "idx (xs @ ys) (length xs) = idx ys 0"
  using idx_append [of xs ys 0] by simp

lemma idx_append_Suc [simp]: "idx (xs @ ys) (Suc (length xs + i)) = idx ys (Suc i)"
  using idx_append [of xs ys "Suc i"] by simp

lemma idx_append_Suc0 [simp]: "idx (xs @ ys) (Suc (length xs)) = idx ys 1"
  using idx_append [of xs ys 1] by simp

lemma idx_Cons_0 [simp]: "idx (x # xs) 0 = Some x"
  by (simp add: idx_def)

lemma idx_Cons_Suc [simp]: "idx (x # xs) (Suc i) = idx xs i"
  by (simp add: idx_def)

lemma idx_Cons_numeral [simp]: "idx (x # xs) (numeral n) = idx xs (numeral n - 1)"
  by (cases "numeral n :: nat") (simp_all add: idx_def)

lemma idx_Cons_one [simp]: "idx (x # xs) 1 = idx xs 0"
  by (simp add: idx_def)

lemma subslice_append [simp]:
  "subslice (xs @ ys) (length xs + lo) (length xs + hi) = subslice ys lo hi"
  by (simp add: subslice_def)

lemma subslice_all [simp]: "subslice xs 0 (length xs) = Some xs"
  by (simp add: subslice_def)

lemma subslice_mid: "subslice (pre @ xs @ post) (length pre) (length pre + length xs) = Some xs"
  by (simp add: subslice_def)

lemma subslice_length: "subslice xs lo hi = Some ys \<Longrightarrow> length ys = hi - lo"
  by (auto simp: subslice_def split: if_splits)

lemma go_copy_length [simp]: "length (go_copy dst src) = length dst"
  by (simp add: go_copy_def min_def)

section \<open>Big-endian integers\<close>

text \<open>
  The code reads integers with shifts (\<open>uint16(b[0])<<8 | uint16(b[1])\<close>) and writes them with
  \<open>binary.Write(w, binary.BigEndian, x)\<close>.
\<close>

definition u16_of :: "byte \<Rightarrow> byte \<Rightarrow> u16" where
  "u16_of b0 b1 = push_bit 8 (ucast b0) OR ucast b1"

definition u32_of :: "byte \<Rightarrow> byte \<Rightarrow> byte \<Rightarrow> byte \<Rightarrow> u32" where
  "u32_of b0 b1 b2 b3 =
     push_bit 24 (ucast b0) OR push_bit 16 (ucast b1) OR push_bit 8 (ucast b2) OR ucast b3"

definition be16 :: "u16 \<Rightarrow> bytes" where
  "be16 w = [ucast (drop_bit 8 w), ucast w]"

definition be32 :: "u32 \<Rightarrow> bytes" where
  "be32 w = [ucast (drop_bit 24 w), ucast (drop_bit 16 w), ucast (drop_bit 8 w), ucast w]"

lemma bit_byte_beyond [simp]: "8 \<le> n \<Longrightarrow> \<not> bit (b :: byte) n"
  using bit_imp_le_length [of b n] by auto

lemma u16_of_be16 [word_io, simp]: "u16_of (ucast (drop_bit 8 w)) (ucast w) = w"
  unfolding u16_of_def by (rule bit_word_eqI) (auto simp: bit_simps)

lemma u32_of_be32 [word_io, simp]:
  "u32_of (ucast (drop_bit 24 w)) (ucast (drop_bit 16 w)) (ucast (drop_bit 8 w)) (ucast w) = w"
proof (rule bit_word_eqI)
  fix n :: nat
  assume "n < LENGTH(32)"
  then consider "n < 8" | "8 \<le> n" "n < 16" | "16 \<le> n" "n < 24" | "24 \<le> n" "n < 32"
    by force
  then show "bit (u32_of (ucast (drop_bit 24 w)) (ucast (drop_bit 16 w)) (ucast (drop_bit 8 w)) (ucast w)) n
      = bit w n"
    by cases (auto simp: u32_of_def bit_simps)
qed

lemma be16_u16_of: "be16 (u16_of b0 b1) = [b0, b1]"
  unfolding be16_def u16_of_def
  by (auto intro!: bit_word_eqI simp: bit_simps)

lemma be32_u32_of: "be32 (u32_of b0 b1 b2 b3) = [b0, b1, b2, b3]"
  unfolding be32_def u32_of_def
  by (auto intro!: bit_word_eqI simp: bit_simps)

lemma length_be16 [simp]: "length (be16 w) = 2"
  by (simp add: be16_def)

lemma length_be32 [simp]: "length (be32 w) = 4"
  by (simp add: be32_def)

lemma unat_of_nat16 [simp]: "n < 65536 \<Longrightarrow> unat (of_nat n :: u16) = n"
  by (simp add: unat_of_nat)

lemma unat_of_nat8 [simp]: "n < 256 \<Longrightarrow> unat (of_nat n :: byte) = n"
  by (simp add: unat_of_nat)

lemma unat_byte_less [simp]: "unat (b :: byte) < 256"
  using unsigned_less [of b, where 'a = nat] by simp

lemma unat_u16_less [simp]: "unat (w :: u16) < 65536"
  using unsigned_less [of w, where 'a = nat] by simp

lemma two_byte_sum:
  "x < 256 \<Longrightarrow> y < 256 \<Longrightarrow>
    (x mod 65536 * 256 mod 65536 + y mod 65536) mod 65536 = 256 * x + (y :: nat)"
  by simp

lemma unat_u16_of: "unat (u16_of b0 b1) = 256 * unat b0 + unat b1"
proof -
  have "u16_of b0 b1 = push_bit 8 (ucast b0) + ucast b1"
    unfolding u16_of_def
    by (rule disjunctive_add_eq_or [symmetric], rule bit_word_eqI) (auto simp: bit_simps)
  then have "unat (u16_of b0 b1) =
      (unat b0 mod 65536 * 256 mod 65536 + unat b1 mod 65536) mod 65536"
    by (simp add: unat_word_ariths push_bit_eq_mult unsigned_ucast_eq take_bit_eq_mod)
  also have "\<dots> = 256 * unat b0 + unat b1"
    by (rule two_byte_sum) simp_all
  finally show ?thesis .
qed

lemma take_subslice: "subslice b i j = Some x \<Longrightarrow> take j b = take i b @ x"
  by (auto simp: subslice_def take_add [symmetric] split: if_splits)

lemma take_Suc_nth: "i < length b \<Longrightarrow> take (Suc i) b = take i b @ [b ! i]"
  by (rule take_Suc_conv_app_nth)

lemma take_be32:
  "i + 4 \<le> length b \<Longrightarrow>
    take (i + 4) b = take i b @ be32 (u32_of (b ! i) (b ! (i + 1)) (b ! (i + 2)) (b ! (i + 3)))"
  by (simp add: be32_u32_of numeral_eq_Suc take_Suc_conv_app_nth)

lemma replicate_numeral: "replicate (numeral k) x = x # replicate (pred_numeral k) x"
  by (simp add: numeral_eq_Suc)

section \<open>Writing a list of items\<close>

primrec mapM_go :: "('a \<Rightarrow> 'b go) \<Rightarrow> 'a list \<Rightarrow> 'b list go" where
  "mapM_go f [] = Some []"
| "mapM_go f (x # xs) = do { y \<leftarrow> f x; ys \<leftarrow> mapM_go f xs; Some (y # ys) }"

text \<open>\<open>for i := range xs { xs[i].Write(w) }\<close>\<close>

definition write_all :: "('a \<Rightarrow> bytes go) \<Rightarrow> 'a list \<Rightarrow> bytes go" where
  "write_all f xs = do { bss \<leftarrow> mapM_go f xs; Some (concat bss) }"

lemma write_all_Nil [simp]: "write_all f [] = Some []"
  by (simp add: write_all_def)

lemma write_all_Cons [simp]:
  "write_all f (x # xs) = do { b \<leftarrow> f x; bs \<leftarrow> write_all f xs; Some (b @ bs) }"
  by (simp add: write_all_def)

lemma write_all_Some: "write_all (\<lambda>x. Some (f x)) xs = Some (concat (map f xs))"
  by (induction xs) simp_all

lemma write_all_returns:
  "(\<And>x. x \<in> set xs \<Longrightarrow> \<exists>b. f x = Some b) \<Longrightarrow> \<exists>bs. write_all f xs = Some bs"
  by (induction xs) (fastforce simp: bind_eq_Some_conv)+

lemma write_all_length:
  "write_all f xs = Some bs \<Longrightarrow> (\<And>x b. x \<in> set xs \<Longrightarrow> f x = Some b \<Longrightarrow> length b = size_of x) \<Longrightarrow>
    length bs = sum_list (map size_of xs)"
  by (induction xs arbitrary: bs) (auto split: Option.bind_splits)

lemma write_all_snoc:
  "write_all f xs = Some bs \<Longrightarrow> f x = Some b \<Longrightarrow> write_all f (xs @ [x]) = Some (bs @ b)"
  by (induction xs arbitrary: bs) (auto split: Option.bind_splits)

lemma mapM_go_length: "mapM_go f xs = Some ys \<Longrightarrow> length ys = length xs"
  by (induction xs arbitrary: ys) (auto split: Option.bind_splits)

lemma mapM_go_total: "(\<And>x. x \<in> set xs \<Longrightarrow> f x = Some (g x)) \<Longrightarrow> mapM_go f xs = Some (map g xs)"
  by (induction xs) auto

section \<open>Loops\<close>

datatype ('s, 'r) ctl = Next 's | Done 'r

partial_function (option) go_loop :: "('s \<Rightarrow> ('s, 'r) ctl go) \<Rightarrow> 's \<Rightarrow> 'r go" where
  "go_loop body s = Option.bind (body s)
     (\<lambda>c. case c of Next s' \<Rightarrow> go_loop body s' | Done r \<Rightarrow> Some r)"

lemma go_loop_Next: "body s = Some (Next s') \<Longrightarrow> go_loop body s = go_loop body s'"
  by (simp add: go_loop.simps)

lemma go_loop_Done: "body s = Some (Done r) \<Longrightarrow> go_loop body s = Some r"
  by (simp add: go_loop.simps)

text \<open>
  The contract of a loop that terminates without panic: an invariant every iteration keeps, a
  measure every iteration decreases, and what holds of the result when the loop is left.
\<close>

locale go_loop_contract =
  fixes body :: "'s \<Rightarrow> ('s, 'r) ctl go"
    and inv :: "'s \<Rightarrow> bool"
    and mea :: "'s \<Rightarrow> nat"
    and post :: "'r \<Rightarrow> bool"
  assumes step: "inv s \<Longrightarrow>
      (\<exists>s'. body s = Some (Next s') \<and> inv s' \<and> mea s' < mea s) \<or>
      (\<exists>r. body s = Some (Done r) \<and> post r)"
begin

lemma loop_returns: "inv s \<Longrightarrow> \<exists>r. go_loop body s = Some r \<and> post r"
proof (induction "mea s" arbitrary: s rule: less_induct)
  case less
  from step [OF less.prems] show ?case
  proof (elim disjE exE conjE)
    fix s' assume s': "body s = Some (Next s')" "inv s'" "mea s' < mea s"
    then have "\<exists>r. go_loop body s' = Some r \<and> post r"
      by (intro less.hyps)
    with s' show ?thesis by (simp add: go_loop_Next)
  next
    fix r assume "body s = Some (Done r)" "post r"
    then show ?thesis by (simp add: go_loop_Done)
  qed
qed

lemma loop_post: "inv s \<Longrightarrow> go_loop body s = Some r \<Longrightarrow> post r"
  using loop_returns [of s] by auto

lemma loop_no_panic: "inv s \<Longrightarrow> go_loop body s \<noteq> None"
  using loop_returns [of s] by auto

end

text \<open>
  The contract of a decoding loop over a buffer: started where a well-formed item was written,
  one iteration consumes exactly the bytes of the item and appends what it decodes to; at the
  limit the loop is left. Then the loop decodes what \<open>write_all\<close> wrote. \<open>limit_ok\<close>
  says which limits the loop's guard stands for (the end of the buffer, or the end of an
  enclosing parameter).
\<close>

locale list_decoder =
  fixes emit :: "'a \<Rightarrow> bytes go"
    and wf :: "'a \<Rightarrow> bool"
    and body :: "nat \<Rightarrow> bytes \<Rightarrow> nat \<times> 'b list \<Rightarrow> (nat \<times> 'b list, 'r) ctl go"
    and limit_ok :: "nat \<Rightarrow> bytes \<Rightarrow> bool"
    and decoded :: "'a \<Rightarrow> 'b"
    and ret :: "nat \<Rightarrow> 'b list \<Rightarrow> 'r"
  assumes step_item: "wf x \<Longrightarrow> emit x = Some bs \<Longrightarrow> length pre + length bs \<le> lim \<Longrightarrow>
      limit_ok lim (pre @ bs @ post) \<Longrightarrow>
      body lim (pre @ bs @ post) (length pre, acc) =
        Some (Next (length pre + length bs, acc @ [decoded x]))"
    and step_limit: "limit_ok lim b \<Longrightarrow> body lim b (lim, acc) = Some (Done (ret lim acc))"
begin

lemma decode_prefix:
  "list_all wf xs \<Longrightarrow> write_all emit xs = Some bs \<Longrightarrow> length pre + length bs \<le> lim \<Longrightarrow>
   limit_ok lim (pre @ bs @ post) \<Longrightarrow>
   go_loop (body lim (pre @ bs @ post)) (length pre, acc) =
     go_loop (body lim (pre @ bs @ post)) (length pre + length bs, acc @ map decoded xs)"
proof (induction xs arbitrary: pre bs acc)
  case Nil
  then show ?case by simp
next
  case (Cons x xs)
  from Cons.prems(2) obtain b bs' where b: "emit x = Some b" "write_all emit xs = Some bs'"
    "bs = b @ bs'"
    by (auto split: Option.bind_splits)
  with Cons.prems have
    "body lim (pre @ bs @ post) (length pre, acc) = Some (Next (length pre + length b, acc @ [decoded x]))"
    using step_item [of x b pre lim "bs' @ post" acc] by simp
  moreover have
    "go_loop (body lim (pre @ bs @ post)) (length pre + length b, acc @ [decoded x]) =
      go_loop (body lim (pre @ bs @ post))
        (length pre + length bs, (acc @ [decoded x]) @ map decoded xs)"
    using Cons.IH [of bs' "pre @ b" "acc @ [decoded x]"] Cons.prems b by (simp add: add.assoc)
  ultimately show ?case by (simp add: go_loop_Next)
qed

lemma decode_all:
  assumes "list_all wf xs" and "write_all emit xs = Some bs"
    and "limit_ok (length pre + length bs) (pre @ bs @ post)"
  shows "go_loop (body (length pre + length bs) (pre @ bs @ post)) (length pre, acc) =
     Some (ret (length pre + length bs) (acc @ map decoded xs))"
  using decode_prefix [OF assms(1,2) _ assms(3)] step_limit [OF assms(3)] by (simp add: go_loop_Done)

end

end
