(* ===== verification/Go_Net.thy ===== *)
theory Go_Net
  imports Go_Prelude
begin

text \<open>
  The functions of Go's standard package \<^verbatim>\<open>net\<close> the code calls: \<^verbatim>\<open>IP.To4\<close>, \<^verbatim>\<open>IP.To16\<close>,
  \<^verbatim>\<open>IP.Equal\<close> and \<^verbatim>\<open>IPMask.Size\<close>, on the byte slices that represent an address or a mask.
  A nil result is \<open>None\<close>. Lemmas: when \<open>To4\<close> returns the address itself, and what
  \<open>IPMask_Size\<close> computes on the masks of a given number of leading one bits.
\<close>

definition v4InV6Prefix :: bytes where
  "v4InV6Prefix = [0, 0, 0, 0, 0, 0, 0, 0, 0, 0, 0xff, 0xff]"

definition To4 :: "bytes \<Rightarrow> bytes option" where
  "To4 ip =
     (if length ip = 4 then Some ip
      else if length ip = 16 \<and> take 12 ip = v4InV6Prefix then Some (drop 12 ip)
      else None)"

definition To16 :: "bytes \<Rightarrow> bytes option" where
  "To16 ip =
     (if length ip = 4 then Some (v4InV6Prefix @ ip)
      else if length ip = 16 then Some ip
      else None)"

definition IP_Equal :: "bytes \<Rightarrow> bytes \<Rightarrow> bool" where
  "IP_Equal ip x =
     (if length ip = length x then ip = x
      else if length ip = 4 \<and> length x = 16 then take 12 x = v4InV6Prefix \<and> ip = drop 12 x
      else if length ip = 16 \<and> length x = 4 then take 12 ip = v4InV6Prefix \<and> drop 12 ip = x
      else False)"

text \<open>A slice value read where nil and the empty slice are the same.\<close>

definition nil_empty :: "bytes option \<Rightarrow> bytes" where
  "nil_empty o' = (case o' of None \<Rightarrow> [] | Some bs \<Rightarrow> bs)"

text \<open>
  \<^verbatim>\<open>for v&0x80 != 0 { n++; v <<= 1 }\<close> on one byte: at most eight iterations, as each
  shifts a zero in.
\<close>

primrec leading_ones :: "nat \<Rightarrow> byte \<Rightarrow> nat \<times> byte" where
  "leading_ones 0 v = (0, v)"
| "leading_ones (Suc k) v =
     (if v AND 0x80 \<noteq> 0 then (case leading_ones k (push_bit 1 v) of (n, v') \<Rightarrow> (Suc n, v'))
      else (0, v))"

lemma leading_ones_numeral [simp]:
  "leading_ones (numeral k) v =
     (if v AND 0x80 \<noteq> 0
      then (case leading_ones (pred_numeral k) (push_bit 1 v) of (n, v') \<Rightarrow> (Suc n, v'))
      else (0, v))"
  by (simp add: numeral_eq_Suc)

primrec simpleMaskLength :: "bytes \<Rightarrow> nat option" where
  "simpleMaskLength [] = Some 0"
| "simpleMaskLength (v # rest) =
     (if v = 0xff then map_option (\<lambda>n. 8 + n) (simpleMaskLength rest)
      else (case leading_ones 8 v of (n, v') \<Rightarrow>
        if v' \<noteq> 0 then None
        else if list_ex (\<lambda>x. x \<noteq> 0) rest then None
        else Some n))"

definition IPMask_Size :: "bytes \<Rightarrow> nat \<times> nat" where
  "IPMask_Size m = (case simpleMaskLength m of None \<Rightarrow> (0, 0) | Some ones \<Rightarrow> (ones, length m * 8))"

lemma To4_length4 [simp]: "length ip = 4 \<Longrightarrow> To4 ip = Some ip"
  by (simp add: To4_def)

lemma To4_result_length: "To4 ip = Some ip' \<Longrightarrow> length ip' = 4"
  by (auto simp: To4_def split: if_splits)

lemma To16_result_length: "To16 ip = Some ip' \<Longrightarrow> length ip' = 16"
  by (auto simp: To16_def v4InV6Prefix_def split: if_splits)

lemma IP_Equal_refl [simp]: "IP_Equal ip ip"
  by (simp add: IP_Equal_def)

lemma IP_Equal_sym: "IP_Equal ip x = IP_Equal x ip"
  by (auto simp: IP_Equal_def)

lemma length_v4InV6Prefix [simp]: "length v4InV6Prefix = 12"
  by (simp add: v4InV6Prefix_def)

lemma v4InV6_split:
  "take 12 z = v4InV6Prefix \<and> y = drop 12 z \<longleftrightarrow> v4InV6Prefix @ y = z"
  by (metis append_eq_conv_conj length_v4InV6Prefix)

lemma IP_Equal_To16:
  assumes "length ip \<in> {4, 16}" and "length x \<in> {4, 16}"
  shows "IP_Equal ip x \<longleftrightarrow> To16 ip = To16 x"
proof -
  consider "length ip = length x" | "length ip = 4" "length x = 16" | "length ip = 16" "length x = 4"
    using assms by auto
  then show ?thesis
  proof cases
    case 1
    with assms show ?thesis by (auto simp: IP_Equal_def To16_def)
  next
    case 2
    then show ?thesis
      using v4InV6_split [of x ip] by (simp add: IP_Equal_def To16_def)
  next
    case 3
    then show ?thesis
      using v4InV6_split [of ip x] by (simp add: IP_Equal_def To16_def eq_commute)
  qed
qed

text \<open>The mask of \<open>ones\<close> leading one bits, in \<open>asize\<close> bytes (\<^verbatim>\<open>net.CIDRMask\<close>).\<close>

definition cidr_byte :: "nat \<Rightarrow> byte" where
  "cidr_byte k = push_bit (8 - k) (mask k)"

definition cidr_mask :: "nat \<Rightarrow> nat \<Rightarrow> bytes" where
  "cidr_mask asize ones =
     map (\<lambda>j. if 8 * (j + 1) \<le> ones then 0xff else cidr_byte (ones - 8 * j)) [0..<asize]"

lemma cidr_mask_0: "cidr_mask 0 ones = []"
  by (simp add: cidr_mask_def)

lemma cidr_mask_Suc:
  "cidr_mask (Suc n) ones =
     (if 8 \<le> ones then 0xff # cidr_mask n (ones - 8) else cidr_byte ones # replicate n 0)"
proof -
  have split: "[0..<Suc n] = 0 # map Suc [0..<n]"
    by (simp add: map_Suc_upt upt_conv_Cons del: upt_Suc)
  show ?thesis
    unfolding cidr_mask_def split
    by (auto simp: comp_def cidr_byte_def map_replicate_const intro!: map_cong)
qed

lemma simpleMaskLength_zeros: "simpleMaskLength (replicate n 0) = Some 0"
  by (cases n) (auto simp: list_ex_iff)

lemma leading_ones_cidr_byte:
  "k < 8 \<Longrightarrow> leading_ones 8 (cidr_byte k) = (k, 0)"
proof -
  assume "k < 8"
  then consider "k = 0" | "k = 1" | "k = 2" | "k = 3" | "k = 4" | "k = 5" | "k = 6" | "k = 7"
    by force
  then show ?thesis
    by cases (simp_all add: cidr_byte_def mask_eq_exp_minus_1)
qed

lemma cidr_byte_neq: "k < 8 \<Longrightarrow> cidr_byte k \<noteq> 0xff"
proof -
  assume "k < 8"
  then consider "k = 0" | "k = 1" | "k = 2" | "k = 3" | "k = 4" | "k = 5" | "k = 6" | "k = 7"
    by force
  then show ?thesis
    by cases (simp_all add: cidr_byte_def mask_eq_exp_minus_1)
qed

lemma simpleMaskLength_cidr_byte:
  "k < 8 \<Longrightarrow> simpleMaskLength (cidr_byte k # replicate n 0) = Some k"
  by (simp add: leading_ones_cidr_byte cidr_byte_neq list_ex_iff del: leading_ones_numeral)

lemma simpleMaskLength_cidr: "ones \<le> 8 * asize \<Longrightarrow> simpleMaskLength (cidr_mask asize ones) = Some ones"
proof (induction asize arbitrary: ones)
  case 0
  then show ?case by (simp add: cidr_mask_0)
next
  case (Suc n)
  show ?case
  proof (cases "8 \<le> ones")
    case True
    with Suc.prems have "ones - 8 \<le> 8 * n" by simp
    with True Suc.IH [of "ones - 8"] show ?thesis by (simp add: cidr_mask_Suc)
  next
    case False
    then show ?thesis by (simp add: cidr_mask_Suc simpleMaskLength_cidr_byte del: simpleMaskLength.simps)
  qed
qed

lemma length_cidr_mask [simp]: "length (cidr_mask asize ones) = asize"
  by (simp add: cidr_mask_def)

lemma IPMask_Size_cidr:
  "ones \<le> 8 * asize \<Longrightarrow> IPMask_Size (cidr_mask asize ones) = (ones, asize * 8)"
  by (simp add: IPMask_Size_def simpleMaskLength_cidr)

end
