(* ===== verification/Bgp_Base.thy ===== *)
theory Bgp_Base
  imports Go_Net
begin

text \<open>
  The common part of package \<^verbatim>\<open>messages\<close> (\<^verbatim>\<open>messages/messages.go\<close>): the numeric constants,
  the errors the parsers return, the message header, and the KEEPALIVE, ROUTE-REFRESH and
  NOTIFICATION messages. A writer is the byte list it appends to its \<^verbatim>\<open>io.Writer\<close>. The
  \<^verbatim>\<open>Received\<close> time stamp of \<^verbatim>\<open>BGPMessageHead\<close> is never read by the code and is left out.
\<close>

section \<open>Constants\<close>

abbreviation MESSAGE_OPEN :: byte where "MESSAGE_OPEN \<equiv> 1"
abbreviation MESSAGE_UPDATE :: byte where "MESSAGE_UPDATE \<equiv> 2"
abbreviation MESSAGE_NOTIFICATION :: byte where "MESSAGE_NOTIFICATION \<equiv> 3"
abbreviation MESSAGE_KEEPALIVE :: byte where "MESSAGE_KEEPALIVE \<equiv> 4"
abbreviation MESSAGE_ROUTEREFRESH :: byte where "MESSAGE_ROUTEREFRESH \<equiv> 5"

abbreviation CAPA_MP :: byte where "CAPA_MP \<equiv> 1"
abbreviation CAPA_RR :: byte where "CAPA_RR \<equiv> 2"
abbreviation CAPA_ASN :: byte where "CAPA_ASN \<equiv> 65"
abbreviation CAPA_ADDPATH :: byte where "CAPA_ADDPATH \<equiv> 69"

abbreviation ATTRIBUTE_ORIGIN :: byte where "ATTRIBUTE_ORIGIN \<equiv> 1"
abbreviation ATTRIBUTE_ASPATH :: byte where "ATTRIBUTE_ASPATH \<equiv> 2"
abbreviation ATTRIBUTE_NEXTHOP :: byte where "ATTRIBUTE_NEXTHOP \<equiv> 3"
abbreviation ATTRIBUTE_MED :: byte where "ATTRIBUTE_MED \<equiv> 4"
abbreviation ATTRIBUTE_LOCPREF :: byte where "ATTRIBUTE_LOCPREF \<equiv> 5"
abbreviation ATTRIBUTE_ATOMIC_AGGREGATE :: byte where "ATTRIBUTE_ATOMIC_AGGREGATE \<equiv> 6"
abbreviation ATTRIBUTE_AGGREGATOR :: byte where "ATTRIBUTE_AGGREGATOR \<equiv> 7"
abbreviation ATTRIBUTE_COMMUNITIES :: byte where "ATTRIBUTE_COMMUNITIES \<equiv> 8"
abbreviation ATTRIBUTE_REACH :: byte where "ATTRIBUTE_REACH \<equiv> 14"
abbreviation ATTRIBUTE_UNREACH :: byte where "ATTRIBUTE_UNREACH \<equiv> 15"
abbreviation ATTRIBUTE_LARGECOMMUNITIES :: byte where "ATTRIBUTE_LARGECOMMUNITIES \<equiv> 32"

abbreviation ATTRIBUTE_TRANSITIVE :: byte where "ATTRIBUTE_TRANSITIVE \<equiv> 0x40"
abbreviation ATTRIBUTE_TRANSITIVEOPT :: byte where "ATTRIBUTE_TRANSITIVEOPT \<equiv> 0xC0"
abbreviation ATTRIBUTE_OPTIONAL :: byte where "ATTRIBUTE_OPTIONAL \<equiv> 0x80"
abbreviation ATTRIBUTE_EXTENDED :: byte where "ATTRIBUTE_EXTENDED \<equiv> 0x10"

abbreviation PARAMETER_CAPA :: byte where "PARAMETER_CAPA \<equiv> 2"

abbreviation AFI_IPV4 :: u16 where "AFI_IPV4 \<equiv> 1"
abbreviation AFI_IPV6 :: u16 where "AFI_IPV6 \<equiv> 2"
abbreviation SAFI_UNICAST :: byte where "SAFI_UNICAST \<equiv> 1"
abbreviation SAFI_MULTICAST :: byte where "SAFI_MULTICAST \<equiv> 2"

section \<open>Errors\<close>

text \<open>One constructor per \<^verbatim>\<open>fmt.Errorf\<close> of the package, with the numbers it reports.\<close>

datatype bgp_error =
    ErrMarker | ErrMessageLength u16 | ErrHeaderSize nat
  | ErrNotificationSize nat | ErrUnknownType byte
  | ErrOpenSize nat | ErrOptParamLen nat nat | ErrParamLength nat nat | ErrCapaLength nat nat
  | ErrNLRIAfi u16 byte | ErrNLRIAddPath nat | ErrPrefixLength nat u16 | ErrNLRISize nat nat
  | ErrAttrHeader nat | ErrAttrExtended nat nat | ErrAttrSize nat nat nat nat byte
  | ErrAttrLength nat nat | ErrOriginEmpty | ErrMedShort | ErrLocPrefShort | ErrNextHopSize nat
  | ErrReachShort nat | ErrReachNextHop nat nat | ErrReachNoNLRI | ErrUnreachShort nat
  | ErrUpdateSize nat | ErrWithdrawnSize nat nat | ErrPathSize nat nat

section \<open>Address families\<close>

record AfiSafi =
  as_Afi :: u16
  as_Safi :: byte

primrec InAfiSafi :: "u16 \<Rightarrow> byte \<Rightarrow> AfiSafi list \<Rightarrow> bool" where
  "InAfiSafi afi safi [] = False"
| "InAfiSafi afi safi (x # list) =
     (if as_Afi x = afi \<and> as_Safi x = safi then True else InAfiSafi afi safi list)"

lemma InAfiSafi_iff: "InAfiSafi afi safi list \<longleftrightarrow> (\<exists>x \<in> set list. as_Afi x = afi \<and> as_Safi x = safi)"
  by (induction list) auto

section \<open>The message header\<close>

definition bgpMarker :: bytes where
  "bgpMarker = replicate 16 0xff"

definition GetBGPHeaderLen :: nat where
  "GetBGPHeaderLen = 19"

definition WriteBGPHeader :: "byte \<Rightarrow> u16 \<Rightarrow> bytes" where
  "WriteBGPHeader bgptype sz = bgpMarker @ be16 (19 + sz) @ [bgptype]"

definition ParsePacketHeader :: "bytes \<Rightarrow> (byte \<times> u16 \<times> bgp_error option) go" where
  "ParsePacketHeader b =
     (if length b \<ge> 19 then do {
        first \<leftarrow> subslice b 0 16;
        if first \<noteq> bgpMarker then Some (0, 0, Some ErrMarker)
        else do {
          b16 \<leftarrow> idx b 16;
          b17 \<leftarrow> idx b 17;
          let len = u16_of b16 b17 in
          if len < 19 \<or> len > 4096 then Some (0, 0, Some (ErrMessageLength len))
          else if len < 19 then Some (0, 0, Some (ErrMessageLength len))
          else do {
            bgptype \<leftarrow> idx b 18;
            Some (bgptype, len - 19, None)
          }
        }
      }
      else Some (0, 0, Some (ErrHeaderSize (length b))))"

lemma length_bgpMarker [simp]: "length bgpMarker = 16"
  by (simp add: bgpMarker_def)

lemma length_WriteBGPHeader [simp]: "length (WriteBGPHeader t n) = GetBGPHeaderLen"
  by (simp add: WriteBGPHeader_def GetBGPHeaderLen_def)

lemma ParsePacketHeader_no_panic: "ParsePacketHeader b \<noteq> None"
  by (auto simp: ParsePacketHeader_def go_defs Let_def split: Option.bind_splits)

lemma u16_header_bounds:
  fixes len :: u16
  shows "len < 19 \<or> len > 4096 \<longleftrightarrow> \<not> unat (len - 19) \<le> 4077"
  by (unat_arith; auto)

lemma take_header: "19 \<le> length b \<Longrightarrow> take 19 b = take 16 b @ [b ! 16, b ! 17, b ! 18]"
proof -
  assume len: "19 \<le> length b"
  have "take 19 b = take 16 b @ take 3 (drop 16 b)"
    using take_add [of 16 3 b] by simp
  also have "take 3 (drop 16 b) = [b ! 16, b ! 17, b ! 18]"
    using len by (auto simp: numeral_3_eq_3 take_Suc_conv_app_nth)
  finally show ?thesis .
qed

text \<open>The header parser accepts exactly the headers the writer produces for bodies of at most
  4077 bytes, and returns their type and body length.\<close>

lemma ParsePacketHeader_accepts:
  assumes "ParsePacketHeader b = Some (t, n, None)"
  shows "take 19 b = WriteBGPHeader t n \<and> unat n \<le> 4077"
proof -
  from assms have len: "19 \<le> length b" and m: "take 16 b = bgpMarker"
    and t: "t = b ! 18" and n: "n = u16_of (b ! 16) (b ! 17) - 19" "unat n \<le> 4077"
    by (auto simp: ParsePacketHeader_def Let_def subslice_def u16_header_bounds split: if_splits)
  from n have "be16 (19 + n) = [b ! 16, b ! 17]"
    by (simp add: be16_u16_of)
  with len m t n take_header [OF len] show ?thesis
    by (simp add: WriteBGPHeader_def)
qed

lemma ParsePacketHeader_Write:
  assumes "unat n \<le> 4077"
  shows "ParsePacketHeader (WriteBGPHeader t n @ rest) = Some (t, n, None)"
  using assms u16_header_bounds [of "19 + n"]
  by (simp add: ParsePacketHeader_def WriteBGPHeader_def Let_def subslice_def idx_def nth_append be16_def)

lemma ParsePacketHeader_ok_iff:
  "ParsePacketHeader b = Some (t, n, None) \<longleftrightarrow>
    take 19 b = WriteBGPHeader t n \<and> unat n \<le> 4077"
  using ParsePacketHeader_accepts ParsePacketHeader_Write [of n t "drop 19 b"]
  by (metis append_take_drop_id)

section \<open>KEEPALIVE, ROUTE-REFRESH, NOTIFICATION\<close>

definition KeepAlive_Write :: bytes where
  "KeepAlive_Write = WriteBGPHeader MESSAGE_KEEPALIVE 0"

definition KeepAlive_Len :: nat where
  "KeepAlive_Len = GetBGPHeaderLen"

record BGPMessageRouteRefresh =
  rr_AfiSafi :: AfiSafi

definition RouteRefresh_Len :: "BGPMessageRouteRefresh \<Rightarrow> nat" where
  "RouteRefresh_Len m = GetBGPHeaderLen + 4"

definition RouteRefresh_Write :: "BGPMessageRouteRefresh \<Rightarrow> bytes" where
  "RouteRefresh_Write m = WriteBGPHeader MESSAGE_ROUTEREFRESH 4 @
     be16 (as_Afi (rr_AfiSafi m)) @ [0] @ [as_Safi (rr_AfiSafi m)]"

record BGPMessageNotification =
  ErrorCode :: byte
  ErrorSubcode :: byte
  ErrorData :: bytes

definition Notification_Len :: "BGPMessageNotification \<Rightarrow> nat" where
  "Notification_Len m = GetBGPHeaderLen + 2 + length (ErrorData m)"

definition Notification_Write :: "BGPMessageNotification \<Rightarrow> bytes" where
  "Notification_Write m = WriteBGPHeader MESSAGE_NOTIFICATION (of_nat (2 + length (ErrorData m))) @
     [ErrorCode m, ErrorSubcode m] @ ErrorData m"

definition ParseNotification :: "bytes \<Rightarrow> (BGPMessageNotification option \<times> bgp_error option) go" where
  "ParseNotification b =
     (if length b < 2 then Some (None, Some (ErrNotificationSize (length b)))
      else do {
        errCode \<leftarrow> idx b 0;
        errSubcode \<leftarrow> idx b 1;
        errData \<leftarrow> (if length b \<ge> 2 then subslice b 2 (length b) else Some []);
        Some (Some \<lparr>ErrorCode = errCode, ErrorSubcode = errSubcode, ErrorData = errData\<rparr>, None)
      })"

lemma ParseNotification_no_panic: "ParseNotification b \<noteq> None"
  by (auto simp: ParseNotification_def go_defs)

lemma length_KeepAlive_Write: "length KeepAlive_Write = KeepAlive_Len"
  by (simp add: KeepAlive_Write_def KeepAlive_Len_def)

lemma length_RouteRefresh_Write: "length (RouteRefresh_Write m) = RouteRefresh_Len m"
  by (simp add: RouteRefresh_Write_def RouteRefresh_Len_def)

lemma length_Notification_Write: "length (Notification_Write m) = Notification_Len m"
  by (simp add: Notification_Write_def Notification_Len_def)

lemma ParseNotification_Write:
  "ParseNotification (drop 19 (Notification_Write m)) = Some (Some m, None)"
  by (simp add: ParseNotification_def Notification_Write_def GetBGPHeaderLen_def subslice_def)

lemma ParseNotification_ok:
  "ParseNotification b = Some (Some m, err) \<Longrightarrow> b = [ErrorCode m, ErrorSubcode m] @ ErrorData m \<and> err = None"
  by (cases b; cases "tl b") (auto simp: ParseNotification_def subslice_def split: if_splits)

end
