(* ===== verification/Bgp_Open.thy ===== *)
theory Bgp_Open
  imports Bgp_Base
begin

text \<open>
  The OPEN message (\<^verbatim>\<open>messages/bgp_open.go\<close>): capabilities, optional parameters, their lengths
  and writers, \<open>ParseCapability\<close>, \<open>ParseOpen\<close> and \<open>CraftOpenMessage\<close>. An interface
  value records whether it holds the struct or a pointer to it, which the type switches of the
  server distinguish: the parser produces structs, \<open>CraftOpenMessage\<close> also pointers.
  Lemmas: the lengths announced are the lengths written; the parser returns on every input;
  parsing a written message gives it back with pointers replaced by values.
\<close>

section \<open>Data\<close>

record AddPath =
  ap_Afi :: u16
  ap_Safi :: byte
  ap_TxRx :: byte

datatype BGPCap =
    BGPCapability_MP u16 byte
  | BGPCapability_ASN u32
  | BGPCapability_ROUTEREFRESH
  | BGPCapability_ADDPATH "AddPath list"
  | BGPCapability byte bytes

type_synonym BGPCapabilityIf = "BGPCap iface"
type_synonym BGPCapabilities = "BGPCapabilityIf list"

record BGPParameter =
  param_Type :: byte
  param_Data :: "BGPCapabilities iface option"

record BGPMessageOpen =
  Version :: byte
  open_ASN :: u16
  HoldTime :: u16
  Identifier :: bytes
  Parameters :: "BGPParameter list"

section \<open>Lengths and writers\<close>

definition AddPath_Len :: "AddPath \<Rightarrow> nat" where
  "AddPath_Len p = 4"

definition AddPath_Write :: "AddPath \<Rightarrow> bytes" where
  "AddPath_Write p = be16 (ap_Afi p) @ [ap_Safi p] @ [ap_TxRx p]"

primrec Cap_Len :: "BGPCap \<Rightarrow> nat" where
  "Cap_Len (BGPCapability_MP afi safi) = 6"
| "Cap_Len (BGPCapability_ASN asn) = 6"
| "Cap_Len BGPCapability_ROUTEREFRESH = 2"
| "Cap_Len (BGPCapability_ADDPATH l) = (\<Sum>p\<leftarrow>l. AddPath_Len p) + 2"
| "Cap_Len (BGPCapability t data) = 1 + 1 + length data"

primrec Cap_Write :: "BGPCap \<Rightarrow> bytes" where
  "Cap_Write (BGPCapability_MP afi safi) = [CAPA_MP] @ [4] @ be16 afi @ [0] @ [safi]"
| "Cap_Write (BGPCapability_ASN asn) = [CAPA_ASN] @ [4] @ be32 asn"
| "Cap_Write BGPCapability_ROUTEREFRESH = [CAPA_RR] @ [0]"
| "Cap_Write (BGPCapability_ADDPATH l) =
     [CAPA_ADDPATH] @ [of_nat (length l * 4)] @ concat (map AddPath_Write l)"
| "Cap_Write (BGPCapability t data) = [t] @ [of_nat (length data)] @ data"

definition Caps_Len :: "BGPCapabilities \<Rightarrow> nat" where
  "Caps_Len m = (\<Sum>c\<leftarrow>m. Cap_Len (deref c))"

definition Caps_Write :: "BGPCapabilities \<Rightarrow> bytes" where
  "Caps_Write c = concat (map (\<lambda>x. Cap_Write (deref x)) c)"

definition Param_Len :: "BGPParameter \<Rightarrow> nat" where
  "Param_Len m = (case param_Data m of None \<Rightarrow> 2 | Some d \<Rightarrow> 1 + 1 + Caps_Len (deref d))"

definition Param_Write :: "BGPParameter \<Rightarrow> bytes" where
  "Param_Write m = [param_Type m] @
     (case param_Data m of None \<Rightarrow> [0]
      | Some d \<Rightarrow> [of_nat (Caps_Len (deref d))] @ Caps_Write (deref d))"

definition LenParams :: "BGPMessageOpen \<Rightarrow> nat" where
  "LenParams m = (\<Sum>p\<leftarrow>Parameters m. Param_Len p)"

definition Open_LenContent :: "BGPMessageOpen \<Rightarrow> nat" where
  "Open_LenContent m = 10 + LenParams m"

definition Open_Len :: "BGPMessageOpen \<Rightarrow> nat" where
  "Open_Len m = GetBGPHeaderLen + Open_LenContent m"

definition Open_Write :: "BGPMessageOpen \<Rightarrow> bytes go" where
  "Open_Write m = do {
     ident \<leftarrow> subslice (Identifier m) 0 4;
     Some (WriteBGPHeader MESSAGE_OPEN (of_nat (Open_LenContent m)) @
       [Version m] @ be16 (open_ASN m) @ be16 (HoldTime m) @ ident @
       [of_nat (LenParams m)] @ concat (map Param_Write (Parameters m)))
   }"

section \<open>ParseCapability\<close>

text \<open>
  \<^verbatim>\<open>binary.Read\<close> from a \<^verbatim>\<open>bytes.Buffer\<close> with the error ignored: a short buffer is drained
  and the destination keeps its zero value.
\<close>

fun read_u8 :: "bytes \<Rightarrow> byte \<times> bytes" where
  "read_u8 (b0 # rest) = (b0, rest)"
| "read_u8 [] = (0, [])"

fun read_u16 :: "bytes \<Rightarrow> u16 \<times> bytes" where
  "read_u16 (b0 # b1 # rest) = (u16_of b0 b1, rest)"
| "read_u16 _ = (0, [])"

fun read_u32 :: "bytes \<Rightarrow> u32 \<times> bytes" where
  "read_u32 (b0 # b1 # b2 # b3 # rest) = (u32_of b0 b1 b2 b3, rest)"
| "read_u32 _ = (0, [])"

primrec read_addpaths :: "nat \<Rightarrow> bytes \<Rightarrow> AddPath list" where
  "read_addpaths 0 buf = []"
| "read_addpaths (Suc n) buf =
     (let (afi, buf) = read_u16 buf; (safi, buf) = read_u8 buf; (txrx, buf) = read_u8 buf
      in \<lparr>ap_Afi = afi, ap_Safi = safi, ap_TxRx = txrx\<rparr> # read_addpaths n buf)"

definition ParseCapability :: "byte \<Rightarrow> bytes \<Rightarrow> BGPCap" where
  "ParseCapability ctype data =
     (if ctype = CAPA_MP then
        let (afi, buf) = read_u16 data; (_, buf) = read_u8 buf; (safi, buf) = read_u8 buf
        in BGPCapability_MP afi safi
      else if ctype = CAPA_ADDPATH then
        BGPCapability_ADDPATH (read_addpaths (length data div 4) data)
      else if ctype = CAPA_ASN then
        let (asn, buf) = read_u32 data in BGPCapability_ASN asn
      else if ctype = CAPA_RR then BGPCapability_ROUTEREFRESH
      else BGPCapability ctype data)"

section \<open>ParseOpen\<close>

text \<open>
  The loop over the capabilities of one parameter: \<open>lim\<close> is \<^verbatim>\<open>baseparam+parmlength\<close>. It ends
  with an error or with the offset reached and the capabilities.
\<close>

definition caps_body ::
  "nat \<Rightarrow> bytes \<Rightarrow> nat \<times> BGPCapabilities \<Rightarrow>
    (nat \<times> BGPCapabilities, bgp_error + nat \<times> BGPCapabilities) ctl go" where
  "caps_body lim b = (\<lambda>(i, caps).
     if i < length b - 1 \<and> i < lim then do {
       capatype \<leftarrow> idx b i;
       cl \<leftarrow> idx b (i + 1);
       let capalength = unat cl in
       if i + 2 + capalength > length b
       then Some (Done (Inl (ErrCapaLength (i + 1 + capalength) (length b))))
       else do {
         capa \<leftarrow> subslice b (i + 2) (i + 2 + capalength);
         Some (Next (i + (2 + capalength), caps @ [Val (ParseCapability capatype capa)]))
       }
     }
     else Some (Done (Inr (i, caps))))"

definition params_body ::
  "bytes \<Rightarrow> nat \<times> BGPParameter list \<Rightarrow>
    (nat \<times> BGPParameter list, bgp_error + BGPParameter list) ctl go" where
  "params_body b = (\<lambda>(i, params).
     if i < length b - 1 then do {
       parmtype \<leftarrow> idx b i;
       pl \<leftarrow> idx b (i + 1);
       let parmlength = unat pl in
       if i + 1 + parmlength > length b
       then Some (Done (Inl (ErrParamLength (i + 1 + parmlength) (length b))))
       else let i = i + 2 in
         if parmtype = PARAMETER_CAPA then do {
           r \<leftarrow> go_loop (caps_body (i + parmlength) b) (i, []);
           (case r of
              Inl e \<Rightarrow> Some (Done (Inl e))
            | Inr (i, caps) \<Rightarrow>
                Some (Next (i, params @ [\<lparr>param_Type = parmtype, param_Data = Some (Val caps)\<rparr>])))
         }
         else Some (Next (i, params @ [\<lparr>param_Type = parmtype, param_Data = None\<rparr>]))
     }
     else Some (Done (Inr params)))"

definition ParseOpen :: "bytes \<Rightarrow> (BGPMessageOpen option \<times> bgp_error option) go" where
  "ParseOpen b =
     (if length b < 10 then Some (None, Some (ErrOpenSize (length b)))
      else do {
        version \<leftarrow> idx b 0;
        b1 \<leftarrow> idx b 1; b2 \<leftarrow> idx b 2; b3 \<leftarrow> idx b 3; b4 \<leftarrow> idx b 4;
        identifier \<leftarrow> subslice b 5 9;
        b9 \<leftarrow> idx b 9;
        let optparamlen = unat b9;
            m = \<lparr>Version = version, open_ASN = u16_of b1 b2, HoldTime = u16_of b3 b4,
                 Identifier = identifier, Parameters = []\<rparr> in
        if length b - 10 \<noteq> optparamlen
        then Some (None, Some (ErrOptParamLen (length b - 10) optparamlen))
        else if optparamlen > 0 \<and> length b - 10 \<ge> 2 then do {
          r \<leftarrow> go_loop (params_body b) (10, []);
          (case r of
             Inl e \<Rightarrow> Some (None, Some e)
           | Inr params \<Rightarrow> Some (Some (m\<lparr>Parameters := params\<rparr>), None))
        }
        else Some (Some m, None)
      })"

section \<open>CraftOpenMessage\<close>

definition CraftOpenMessage ::
  "u32 \<Rightarrow> u16 \<Rightarrow> bytes \<Rightarrow> (u16 \<times> byte) list \<Rightarrow> AddPath list \<Rightarrow> bool \<Rightarrow> BGPMessageOpen" where
  "CraftOpenMessage asn holdtime identifier mplist addpathlist routerefresh =
     (let asn_2o = (if asn \<ge> 65536 then 23456 else ucast asn);
          caps = [Ptr (BGPCapability_ASN asn)] @
            map (\<lambda>(afi, safi). Ptr (BGPCapability_MP afi safi)) mplist @
            (if length addpathlist > 0 then [Val (BGPCapability_ADDPATH addpathlist)] else []) @
            (if routerefresh then [Val BGPCapability_ROUTEREFRESH] else [])
      in \<lparr>Version = 4, open_ASN = asn_2o, HoldTime = holdtime, Identifier = identifier,
          Parameters = [\<lparr>param_Type = PARAMETER_CAPA, param_Data = Some (Ptr caps)\<rparr>]\<rparr>)"

section \<open>Lengths\<close>

lemma length_AddPath_Write [simp]: "length (AddPath_Write p) = AddPath_Len p"
  by (simp add: AddPath_Write_def AddPath_Len_def)

lemma length_addpaths [simp]: "length (concat (map AddPath_Write l)) = length l * 4"
  by (induction l) (simp_all add: AddPath_Len_def)

lemma addpaths_Len [simp]: "(\<Sum>p\<leftarrow>l. AddPath_Len p) = length l * 4"
  by (induction l) (simp_all add: AddPath_Len_def)

lemma length_Cap_Write [simp]: "length (Cap_Write c) = Cap_Len c"
  by (cases c) simp_all

lemma length_Caps_Write [simp]: "length (Caps_Write m) = Caps_Len m"
  by (induction m) (simp_all add: Caps_Write_def Caps_Len_def)

lemma length_Param_Write [simp]: "length (Param_Write p) = Param_Len p"
  by (simp add: Param_Write_def Param_Len_def split: option.splits)

lemma length_params_Write:
  "length (concat (map Param_Write ps)) = (\<Sum>p\<leftarrow>ps. Param_Len p)"
  by (induction ps) simp_all

lemma length_Open_Write: "Open_Write m = Some bs \<Longrightarrow> length bs = Open_Len m"
  by (auto simp: Open_Write_def Open_Len_def Open_LenContent_def LenParams_def length_params_Write
      subslice_def split: if_splits)

section \<open>Capabilities: what is written is parsed back\<close>

text \<open>The capabilities the wire format can carry: a one-byte length, and no known type in the
  generic form.\<close>

primrec cap_ok :: "BGPCap \<Rightarrow> bool" where
  "cap_ok (BGPCapability_MP afi safi) = True"
| "cap_ok (BGPCapability_ASN asn) = True"
| "cap_ok BGPCapability_ROUTEREFRESH = True"
| "cap_ok (BGPCapability_ADDPATH l) = (length l < 64)"
| "cap_ok (BGPCapability t data) =
     (t \<notin> {CAPA_MP, CAPA_RR, CAPA_ASN, CAPA_ADDPATH} \<and> length data < 256)"

lemma read_addpaths_Write: "read_addpaths (length l) (concat (map AddPath_Write l)) = l"
  by (induction l) (simp_all add: AddPath_Write_def be16_def)

lemma Cap_Write_parts:
  assumes "cap_ok c"
  obtains t d where "Cap_Write c = [t, of_nat (length d)] @ d" "length d < 256" "ParseCapability t d = c"
proof (cases c)
  case (BGPCapability_MP afi safi)
  then show ?thesis
    using that [of CAPA_MP "be16 afi @ [0, safi]"] by (simp add: ParseCapability_def be16_def)
next
  case (BGPCapability_ASN asn)
  then show ?thesis
    using that [of CAPA_ASN "be32 asn"] by (simp add: ParseCapability_def be32_def)
next
  case BGPCapability_ROUTEREFRESH
  then show ?thesis
    using that [of CAPA_RR "[]"] by (simp add: ParseCapability_def)
next
  case (BGPCapability_ADDPATH l)
  then show ?thesis
    using that [of CAPA_ADDPATH "concat (map AddPath_Write l)"] assms
    by (simp add: ParseCapability_def read_addpaths_Write)
next
  case (BGPCapability t data)
  then show ?thesis
    using that [of t data] assms by (simp add: ParseCapability_def)
qed

lemma caps_body_item:
  assumes "cap_ok (deref c)" and "length pre + Cap_Len (deref c) \<le> lim"
    and "lim \<le> length (pre @ Cap_Write (deref c) @ post)"
  shows "caps_body lim (pre @ Cap_Write (deref c) @ post) (length pre, acc) =
    Some (Next (length pre + Cap_Len (deref c), acc @ [Val (deref c)]))"
proof -
  from assms(1) obtain t d where
    c: "Cap_Write (deref c) = [t, of_nat (length d)] @ d" "length d < 256" "ParseCapability t d = deref c"
    by (rule Cap_Write_parts)
  have "Cap_Len (deref c) = 2 + length d"
    using length_Cap_Write [of "deref c"] by (simp add: c(1) del: length_Cap_Write)
  with c assms show ?thesis
    by (simp add: caps_body_def Let_def idx_def nth_append subslice_def)
qed

interpretation caps_dec: list_decoder
  "\<lambda>c. Some (Cap_Write (deref c))" "\<lambda>c. cap_ok (deref c)" caps_body "\<lambda>lim b. lim \<le> length b"
  "\<lambda>c. Val (deref c)" "\<lambda>lim caps. Inr (lim, caps)"
  by unfold_locales (auto simp: caps_body_item, simp add: caps_body_def)

lemma write_all_Caps: "write_all (\<lambda>c. Some (Cap_Write (deref c))) m = Some (Caps_Write m)"
  by (induction m) (simp_all add: Caps_Write_def)

section \<open>Parameters: what is written is parsed back\<close>

definition param_ok :: "BGPParameter \<Rightarrow> bool" where
  "param_ok p \<longleftrightarrow>
     (case param_Data p of
        None \<Rightarrow> param_Type p \<noteq> PARAMETER_CAPA
      | Some d \<Rightarrow> param_Type p = PARAMETER_CAPA \<and> list_all (\<lambda>c. cap_ok (deref c)) (deref d) \<and>
          Caps_Len (deref d) < 256)"

definition param_norm :: "BGPParameter \<Rightarrow> BGPParameter" where
  "param_norm p = p\<lparr>param_Data :=
     map_option (\<lambda>d. Val (map (\<lambda>c. Val (deref c)) (deref d))) (param_Data p)\<rparr>"

lemma params_body_item:
  assumes "param_ok p"
  shows "params_body (pre @ Param_Write p @ post) (length pre, acc) =
    Some (Next (length pre + Param_Len p, acc @ [param_norm p]))"
proof (cases "param_Data p")
  case None
  with assms show ?thesis
    by (simp add: params_body_def Param_Write_def Param_Len_def param_ok_def param_norm_def
        idx_def nth_append)
next
  case (Some d)
  let ?l = "Caps_Len (deref d)"
  let ?b = "pre @ Param_Write p @ post"
  from Some assms have ok: "param_Type p = PARAMETER_CAPA" "list_all (\<lambda>c. cap_ok (deref c)) (deref d)"
    "?l < 256"
    by (simp_all add: param_ok_def)
  have b: "?b = (pre @ [PARAMETER_CAPA, of_nat ?l]) @ Caps_Write (deref d) @ post"
    by (simp add: Param_Write_def Some ok)
  have "go_loop (caps_body (Suc (Suc (length pre + ?l))) ?b) (Suc (Suc (length pre)), []) =
      Some (Inr (Suc (Suc (length pre + ?l)), map (\<lambda>c. Val (deref c)) (deref d)))"
    using caps_dec.decode_all [OF ok(2) write_all_Caps, of "pre @ [PARAMETER_CAPA, of_nat ?l]" post "[]"]
    by (simp add: b)
  moreover have "idx ?b (length pre) = Some PARAMETER_CAPA" "idx ?b (length pre + 1) = Some (of_nat ?l)"
    by (simp_all add: b idx_def nth_append)
  ultimately show ?thesis
    using ok by (simp add: params_body_def Let_def Param_Len_def Some param_norm_def Param_Write_def)
qed

interpretation params_dec: list_decoder
  "\<lambda>p. Some (Param_Write p)" param_ok "\<lambda>_ b. params_body b"
  "\<lambda>lim b. lim = length b \<and> 1 \<le> length b" param_norm "\<lambda>_ ps. Inr ps"
  by unfold_locales (auto simp: params_body_item, simp add: params_body_def)

lemma write_all_Params: "write_all (\<lambda>p. Some (Param_Write p)) ps = Some (concat (map Param_Write ps))"
  by (induction ps) simp_all

section \<open>Termination and absence of panic\<close>

definition caps_inv :: "nat \<Rightarrow> bytes \<Rightarrow> nat \<times> BGPCapabilities \<Rightarrow> bool" where
  "caps_inv base b s \<longleftrightarrow> base \<le> fst s \<and> fst s \<le> length b \<and> list_all is_Val (snd s)"

definition caps_post :: "nat \<Rightarrow> bytes \<Rightarrow> bgp_error + nat \<times> BGPCapabilities \<Rightarrow> bool" where
  "caps_post base b r \<longleftrightarrow> (case r of Inl e \<Rightarrow> True | Inr s \<Rightarrow> caps_inv base b s)"

interpretation caps_loop: go_loop_contract
  "caps_body lim b" "caps_inv base b" "\<lambda>s. length b - fst s" "caps_post base b"
  for lim base b
  by unfold_locales
    (auto simp: caps_body_def caps_inv_def caps_post_def Let_def subslice_def split: prod.splits)

text \<open>What \<open>ParseOpen\<close> stores in a parameter: for a capability parameter a struct of structs,
  otherwise nothing.\<close>

definition param_parsed :: "BGPParameter \<Rightarrow> bool" where
  "param_parsed p \<longleftrightarrow>
     (case param_Data p of
        None \<Rightarrow> param_Type p \<noteq> PARAMETER_CAPA
      | Some d \<Rightarrow> param_Type p = PARAMETER_CAPA \<and> is_Val d \<and> list_all is_Val (deref d))"

definition params_inv :: "bytes \<Rightarrow> nat \<times> BGPParameter list \<Rightarrow> bool" where
  "params_inv b s \<longleftrightarrow> fst s \<le> length b \<and> list_all param_parsed (snd s)"

definition params_post :: "bgp_error + BGPParameter list \<Rightarrow> bool" where
  "params_post r \<longleftrightarrow> (case r of Inl e \<Rightarrow> True | Inr ps \<Rightarrow> list_all param_parsed ps)"

lemma params_body_step:
  assumes "params_inv b s"
  shows "(\<exists>s'. params_body b s = Some (Next s') \<and> params_inv b s' \<and> length b - fst s' < length b - fst s) \<or>
    (\<exists>r. params_body b s = Some (Done r) \<and> params_post r)"
proof -
  obtain i ps where s: "s = (i, ps)" by fastforce
  show ?thesis
  proof (cases "i < length b - 1")
    case False
    with s assms show ?thesis by (simp add: params_body_def params_inv_def params_post_def)
  next
    case True
    then have le: "i + 2 \<le> length b" by linarith
    then obtain r where r: "go_loop (caps_body (i + 2 + unat (b ! (i + 1))) b) (i + 2, []) = Some r"
      "caps_post (i + 2) b r"
      using caps_loop.loop_returns [of "i + 2" b "(i + 2, [])" "i + 2 + unat (b ! (i + 1))"]
      by (auto simp: caps_inv_def)
    show ?thesis
      using True le s assms r
      by (cases r) (auto simp: params_body_def params_inv_def params_post_def caps_post_def caps_inv_def
          param_parsed_def Let_def)
  qed
qed

interpretation params_loop: go_loop_contract
  "params_body b" "params_inv b" "\<lambda>s. length b - fst s" params_post
  for b
  by unfold_locales (rule params_body_step)

lemma ParseOpen_returns:
  "\<exists>m err. ParseOpen b = Some (m, err) \<and> (m = None \<longleftrightarrow> err \<noteq> None) \<and>
    (\<forall>m'. m = Some m' \<longrightarrow> length (Identifier m') = 4 \<and> list_all param_parsed (Parameters m'))"
proof (cases "length b < 10")
  case True
  then show ?thesis by (simp add: ParseOpen_def)
next
  case False
  obtain r where r: "go_loop (params_body b) (10, []) = Some r" "params_post r"
    using params_loop.loop_returns [of b "(10, [])"] False by (auto simp: params_inv_def)
  from False have "b \<noteq> []" by auto
  with False r show ?thesis
    by (cases r) (simp_all add: ParseOpen_def subslice_def Let_def params_post_def)
qed

lemma ParseOpen_no_panic: "ParseOpen b \<noteq> None"
  using ParseOpen_returns [of b] by auto

section \<open>OPEN: what is written is parsed back\<close>

definition open_ok :: "BGPMessageOpen \<Rightarrow> bool" where
  "open_ok m \<longleftrightarrow>
     length (Identifier m) = 4 \<and> list_all param_ok (Parameters m) \<and> LenParams m < 256"

definition open_norm :: "BGPMessageOpen \<Rightarrow> BGPMessageOpen" where
  "open_norm m = m\<lparr>Parameters := map param_norm (Parameters m)\<rparr>"

lemma Param_Len_ge_2: "2 \<le> Param_Len p"
  by (simp add: Param_Len_def split: option.splits)

lemma LenParams_ge_2: "Parameters m \<noteq> [] \<Longrightarrow> 2 \<le> LenParams m"
  using Param_Len_ge_2 by (cases "Parameters m") (auto simp: LenParams_def intro: trans_le_add1)

definition open_fixed :: "BGPMessageOpen \<Rightarrow> bytes" where
  "open_fixed m = [Version m] @ be16 (open_ASN m) @ be16 (HoldTime m) @ Identifier m @
     [of_nat (LenParams m)]"

lemma Open_Write_ok:
  "open_ok m \<Longrightarrow> Open_Write m =
    Some (WriteBGPHeader MESSAGE_OPEN (of_nat (Open_LenContent m)) @ open_fixed m @
      concat (map Param_Write (Parameters m)))"
  by (simp add: Open_Write_def open_ok_def subslice_def open_fixed_def)

lemma ParseOpen_fixed:
  assumes "length (Identifier m) = 4" and "LenParams m < 256" and "length rest = LenParams m"
    and "length rest \<noteq> 1"
    and "rest \<noteq> [] \<Longrightarrow> go_loop (params_body (open_fixed m @ rest)) (10, []) = Some (Inr ps)"
    and "rest = [] \<Longrightarrow> ps = []"
  shows "ParseOpen (open_fixed m @ rest) = Some (Some (m\<lparr>Parameters := ps\<rparr>), None)"
proof -
  from assms(1) obtain a b c d where i: "Identifier m = [a, b, c, d]"
    by (auto simp: numeral_eq_Suc length_Suc_conv)
  have "2 \<le> length rest \<or> rest = []"
    using assms(4) by (cases rest; cases "tl rest") auto
  then show ?thesis
    using assms(2,3,5,6) i
    by (cases m; cases rest) (auto simp: ParseOpen_def open_fixed_def be16_def subslice_def Let_def)
qed

lemma length_open_fixed: "length (Identifier m) = 4 \<Longrightarrow> length (open_fixed m) = 10"
  by (simp add: open_fixed_def)

lemma ParseOpen_Write:
  assumes "open_ok m" and "Open_Write m = Some bs"
  shows "ParseOpen (drop 19 bs) = Some (Some (open_norm m), None)"
proof -
  let ?rest = "concat (map Param_Write (Parameters m))"
  have bs: "drop 19 bs = open_fixed m @ ?rest"
    using assms(2) Open_Write_ok [OF assms(1)] by (auto simp: GetBGPHeaderLen_def)
  have len: "length ?rest = LenParams m"
    by (simp add: length_params_Write LenParams_def)
  from assms(1) have ok: "length (Identifier m) = 4" "list_all param_ok (Parameters m)" "LenParams m < 256"
    by (simp_all add: open_ok_def)
  have loop: "go_loop (params_body (open_fixed m @ ?rest)) (10, []) =
      Some (Inr (map param_norm (Parameters m)))"
    using params_dec.decode_all [OF ok(2) write_all_Params, of "open_fixed m" "[]" "[]"]
    by (simp add: length_open_fixed [OF ok(1)])
  have "LenParams m \<noteq> 1"
    using LenParams_ge_2 [of m] by (cases "Parameters m = []") (auto simp: LenParams_def)
  then have "length ?rest \<noteq> 1" by (simp add: len)
  moreover have "map param_norm (Parameters m) = []" if "?rest = []"
    using len [unfolded that] LenParams_ge_2 [of m] by (cases "Parameters m = []") simp_all
  ultimately show ?thesis
    using ParseOpen_fixed [OF ok(1,3) len] loop by (simp add: bs open_norm_def)
qed

section \<open>CraftOpenMessage and unknown parameters\<close>

lemma Craft_caps_ok:
  "length addpathlist < 64 \<Longrightarrow>
    list_all (\<lambda>c. cap_ok (deref c))
      ([Ptr (BGPCapability_ASN asn)] @ map (\<lambda>(afi, safi). Ptr (BGPCapability_MP afi safi)) mplist @
       (if length addpathlist > 0 then [Val (BGPCapability_ADDPATH addpathlist)] else []) @
       (if rr then [Val BGPCapability_ROUTEREFRESH] else []))"
  by (auto simp: list_all_iff)

lemma Caps_Len_append [simp]: "Caps_Len (xs @ ys) = Caps_Len xs + Caps_Len ys"
  by (simp add: Caps_Len_def)

lemma Caps_Len_Cons [simp]: "Caps_Len (c # xs) = Cap_Len (deref c) + Caps_Len xs"
  by (simp add: Caps_Len_def)

lemma Caps_Len_Nil [simp]: "Caps_Len [] = 0"
  by (simp add: Caps_Len_def)

lemma Caps_Len_MP [simp]:
  "Caps_Len (map (\<lambda>(afi, safi). Ptr (BGPCapability_MP afi safi)) mplist) = 6 * length mplist"
  by (induction mplist) auto

definition craft_caps_len :: "(u16 \<times> byte) list \<Rightarrow> AddPath list \<Rightarrow> bool \<Rightarrow> nat" where
  "craft_caps_len mplist addpathlist rr =
     6 + 6 * length mplist + (if addpathlist = [] then 0 else 2 + 4 * length addpathlist) +
     (if rr then 2 else 0)"

lemma CraftOpenMessage_ok:
  assumes "length identifier = 4" and "craft_caps_len mplist addpathlist rr < 254"
  shows "open_ok (CraftOpenMessage asn holdtime identifier mplist addpathlist rr)"
proof -
  from assms(2) have "length addpathlist < 64"
    by (auto simp: craft_caps_len_def split: if_splits)
  from Craft_caps_ok [OF this, of asn mplist rr] assms show ?thesis
    by (auto simp: open_ok_def CraftOpenMessage_def Let_def param_ok_def LenParams_def Param_Len_def
        craft_caps_len_def split: if_splits)
qed

text \<open>
  The loop on a parameter of an unknown type moves on by two bytes, not past the parameter's
  value.
\<close>

lemma params_body_unknown:
  assumes "t \<noteq> PARAMETER_CAPA" and "unat n \<le> length rest"
  shows "params_body (pre @ [t, n] @ rest) (length pre, acc) =
    Some (Next (length (pre @ [t, n]), acc @ [\<lparr>param_Type = t, param_Data = None\<rparr>]))"
  using assms by (simp add: params_body_def Let_def idx_def nth_append)

lemma Open_wire:
  assumes "open_ok m"
  shows "\<exists>bs. Open_Write m = Some bs \<and> length bs = Open_Len m \<and>
    ParsePacketHeader bs = Some (MESSAGE_OPEN, of_nat (length bs - 19), None) \<and>
    ParseOpen (drop 19 bs) = Some (Some (open_norm m), None)"
proof -
  obtain bs where bs: "Open_Write m = Some bs"
    "bs = WriteBGPHeader MESSAGE_OPEN (of_nat (Open_LenContent m)) @ open_fixed m @
      concat (map Param_Write (Parameters m))"
    using Open_Write_ok [OF assms] by simp
  have len: "length bs - 19 = Open_LenContent m"
    using length_Open_Write [OF bs(1)] by (simp add: Open_Len_def GetBGPHeaderLen_def)
  have "Open_LenContent m < 266" using assms by (simp add: open_ok_def Open_LenContent_def)
  then have "ParsePacketHeader bs = Some (MESSAGE_OPEN, of_nat (Open_LenContent m), None)"
    unfolding bs(2) by (intro ParsePacketHeader_Write) simp
  then show ?thesis
    using bs(1) length_Open_Write [OF bs(1)] ParseOpen_Write [OF assms bs(1)] by (metis len)
qed

lemma CraftOpenMessage_wire:
  assumes "length identifier = 4" and "craft_caps_len mplist addpathlist rr < 254"
  shows "\<exists>bs. Open_Write (CraftOpenMessage asn holdtime identifier mplist addpathlist rr) = Some bs \<and>
    ParseOpen (drop 19 bs) = Some (Some
      \<lparr>Version = 4, open_ASN = (if unat asn < 65536 then ucast asn else 23456), HoldTime = holdtime,
       Identifier = identifier,
       Parameters = [\<lparr>param_Type = PARAMETER_CAPA, param_Data = Some (Val (
         [Val (BGPCapability_ASN asn)] @
         map (\<lambda>(afi, safi). Val (BGPCapability_MP afi safi)) mplist @
         (if addpathlist = [] then [] else [Val (BGPCapability_ADDPATH addpathlist)]) @
         (if rr then [Val BGPCapability_ROUTEREFRESH] else [])))\<rparr>]\<rparr>, None)"
proof -
  note ok = CraftOpenMessage_ok [OF assms, of asn holdtime]
  have "asn \<ge> 65536 \<longleftrightarrow> \<not> unat asn < 65536"
    by (simp add: word_le_nat_alt not_less)
  then show ?thesis
    using Open_Write_ok [OF ok] ParseOpen_Write [OF ok Open_Write_ok [OF ok]]
    by (auto simp: CraftOpenMessage_def open_norm_def param_norm_def Let_def case_prod_unfold)
qed

section \<open>Properties\<close>

text \<open>
  C18: On every input \<open>ParseOpen\<close> returns: both nested loops end and no access is out of range. It
  returns a message or an error, never both and never neither, and in a message the identifier
  has four bytes and every parameter of type 2 holds a list of capability structs, which the
  server's type assertions rely on.
\<close>

theorem ParseOpen_safe:
  "\<exists>m err. ParseOpen b = Some (m, err) \<and> (m = None \<longleftrightarrow> err \<noteq> None) \<and>
    (\<forall>m'. m = Some m' \<longrightarrow> length (Identifier m') = 4 \<and> list_all param_parsed (Parameters m'))"
  by (rule ParseOpen_returns)

theorem ParseOpen_safe_witness:
  "\<exists>m. ParseOpen [4, 0, 1, 0, 90, 10, 0, 0, 1, 0] = Some (Some m, None) \<and>
    length (Identifier m) = 4 \<and> list_all param_parsed (Parameters m)"
proof -
  have "ParseOpen [4, 0, 1, 0, 90, 10, 0, 0, 1, 0] =
      Some (Some \<lparr>Version = 4, open_ASN = u16_of 0 1, HoldTime = u16_of 0 90,
        Identifier = [10, 0, 0, 1], Parameters = []\<rparr>, None)"
    by (simp add: ParseOpen_def subslice_def)
  with ParseOpen_safe [of "[4, 0, 1, 0, 90, 10, 0, 0, 1, 0]"] show ?thesis by simp
qed

text \<open>
  C19: An OPEN whose identifier has four bytes and whose parameters fit the one-byte lengths is
  written with a header that announces exactly its body, its length is the one \<open>Len\<close>
  promises, and parsing the body gives the message back, pointers to capabilities replaced by the
  capabilities.
\<close>

theorem Open_roundtrip:
  assumes "open_ok m"
  shows "\<exists>bs. Open_Write m = Some bs \<and> length bs = Open_Len m \<and>
    ParsePacketHeader bs = Some (MESSAGE_OPEN, of_nat (length bs - 19), None) \<and>
    ParseOpen (drop 19 bs) = Some (Some (open_norm m), None)"
  by (rule Open_wire [OF assms])

theorem Open_roundtrip_witness:
  "\<exists>bs. Open_Write \<lparr>Version = 4, open_ASN = 65001, HoldTime = 90, Identifier = [10, 0, 0, 1],
      Parameters = [\<lparr>param_Type = 2, param_Data = Some (Ptr [Ptr (BGPCapability_ASN 65001)])\<rparr>]\<rparr> =
        Some bs \<and> length bs = 37 \<and>
    ParseOpen (drop 19 bs) = Some (Some \<lparr>Version = 4, open_ASN = 65001, HoldTime = 90,
      Identifier = [10, 0, 0, 1],
      Parameters = [\<lparr>param_Type = 2, param_Data = Some (Val [Val (BGPCapability_ASN 65001)])\<rparr>]\<rparr>, None)"
  using Open_roundtrip [of "\<lparr>Version = 4, open_ASN = 65001, HoldTime = 90, Identifier = [10, 0, 0, 1],
      Parameters = [\<lparr>param_Type = 2, param_Data = Some (Ptr [Ptr (BGPCapability_ASN 65001)])\<rparr>]\<rparr>"]
  by (simp add: open_ok_def param_ok_def LenParams_def Param_Len_def Open_Len_def Open_LenContent_def
      GetBGPHeaderLen_def open_norm_def param_norm_def) blast

text \<open>
  C26: The OPEN the library crafts for its own session is understood by its own parser: with a
  four-byte identifier and capabilities of at most 253 bytes, the peer reads the 2-byte AS number
  (23456 when the ASN does not fit), the hold time, the identifier, and one capability parameter
  with the 4-byte ASN, every multiprotocol family, the add-path list and route refresh, in that
  order.
\<close>

theorem CraftOpenMessage_understood:
  assumes "length identifier = 4" and "craft_caps_len mplist addpathlist rr < 254"
  shows "\<exists>bs. Open_Write (CraftOpenMessage asn holdtime identifier mplist addpathlist rr) = Some bs \<and>
    ParseOpen (drop 19 bs) = Some (Some
      \<lparr>Version = 4, open_ASN = (if unat asn < 65536 then ucast asn else 23456), HoldTime = holdtime,
       Identifier = identifier,
       Parameters = [\<lparr>param_Type = PARAMETER_CAPA, param_Data = Some (Val (
         [Val (BGPCapability_ASN asn)] @
         map (\<lambda>(afi, safi). Val (BGPCapability_MP afi safi)) mplist @
         (if addpathlist = [] then [] else [Val (BGPCapability_ADDPATH addpathlist)]) @
         (if rr then [Val BGPCapability_ROUTEREFRESH] else [])))\<rparr>]\<rparr>, None)"
  by (rule CraftOpenMessage_wire [OF assms])

theorem CraftOpenMessage_understood_witness:
  "\<exists>bs. Open_Write (CraftOpenMessage 4200000000 90 [10, 0, 0, 1] [(AFI_IPV6, SAFI_UNICAST)] [] True) =
      Some bs \<and>
    ParseOpen (drop 19 bs) = Some (Some
      \<lparr>Version = 4, open_ASN = 23456, HoldTime = 90, Identifier = [10, 0, 0, 1],
       Parameters = [\<lparr>param_Type = PARAMETER_CAPA, param_Data = Some (Val
         [Val (BGPCapability_ASN 4200000000), Val (BGPCapability_MP AFI_IPV6 SAFI_UNICAST),
          Val BGPCapability_ROUTEREFRESH])\<rparr>]\<rparr>, None)"
  using CraftOpenMessage_understood [of "[10, 0, 0, 1]" "[(AFI_IPV6, SAFI_UNICAST)]" "[]" True 4200000000 90]
  by (simp add: craft_caps_len_def)

text \<open>
  C40: The value of an optional parameter of an unknown type is not skipped: when it contains the
  bytes of well-formed parameters, the parser reports the unknown parameter followed by the
  parameters hidden in its value.
\<close>

theorem ParseOpen_unknown_param_not_skipped:
  assumes "t \<noteq> PARAMETER_CAPA" and "list_all param_ok ps"
    and "hidden = concat (map Param_Write ps)" and "length hidden < 254"
    and "length ident = 4"
  shows "ParseOpen ([4] @ be16 asn @ be16 hold @ ident @ [of_nat (2 + length hidden)] @
      [t, of_nat (length hidden)] @ hidden) =
    Some (Some \<lparr>Version = 4, open_ASN = asn, HoldTime = hold, Identifier = ident,
      Parameters = \<lparr>param_Type = t, param_Data = None\<rparr> # map param_norm ps\<rparr>, None)"
proof -
  let ?fixed = "[4] @ be16 asn @ be16 hold @ ident @ [of_nat (2 + length hidden)]"
  let ?u = "\<lparr>param_Type = t, param_Data = None\<rparr>"
  have len: "length ?fixed = 10" using assms(5) by simp
  have step: "go_loop (params_body (?fixed @ [t, of_nat (length hidden)] @ hidden)) (10, []) =
      go_loop (params_body (?fixed @ [t, of_nat (length hidden)] @ hidden)) (12, [?u])"
    using params_body_unknown [OF assms(1), of "of_nat (length hidden)" hidden ?fixed "[]"] len assms(4)
    by (intro go_loop_Next) simp
  have rest: "go_loop (params_body (?fixed @ [t, of_nat (length hidden)] @ hidden)) (12, [?u]) =
      Some (Inr (?u # map param_norm ps))"
    using params_dec.decode_all [OF assms(2) write_all_Params, of "?fixed @ [t, of_nat (length hidden)]" "[]" "[?u]"]
      len assms(3) by simp
  from assms(5) obtain a b c d where "ident = [a, b, c, d]"
    by (auto simp: numeral_eq_Suc length_Suc_conv)
  moreover have "unat (2 + of_nat (length hidden) :: byte) = 2 + length hidden"
    using unat_of_nat8 [of "2 + length hidden"] assms(4) by simp
  ultimately show ?thesis
    using step rest assms(4) by (simp add: ParseOpen_def subslice_def Let_def be16_def)
qed

theorem ParseOpen_unknown_param_not_skipped_witness:
  "ParseOpen ([4] @ be16 1 @ be16 90 @ [10, 0, 0, 1] @ [of_nat 6] @ [1, of_nat 4] @ [2, 2, 2, 0]) =
    Some (Some \<lparr>Version = 4, open_ASN = 1, HoldTime = 90, Identifier = [10, 0, 0, 1],
      Parameters = [\<lparr>param_Type = 1, param_Data = None\<rparr>,
        \<lparr>param_Type = 2, param_Data = Some (Val [Val BGPCapability_ROUTEREFRESH])\<rparr>]\<rparr>, None)"
  using ParseOpen_unknown_param_not_skipped [of 1
      "[\<lparr>param_Type = 2, param_Data = Some (Val [Val BGPCapability_ROUTEREFRESH])\<rparr>]" "[2, 2, 2, 0]"
      "[10, 0, 0, 1]" 1 90]
  by (simp add: param_ok_def Param_Write_def Caps_Write_def Caps_Len_def param_norm_def)

end
