(* ===== verification/NLRI.thy ===== *)
theory NLRI
  imports Bgp_Base
begin

text \<open>
  Network layer reachability information: the prefix type of \<^verbatim>\<open>messages/messages.go\<close> with its
  mask tables and methods, and \<^verbatim>\<open>ParseNLRI\<close> of \<^verbatim>\<open>messages/bgp_update.go\<close>. The interface
  \<^verbatim>\<open>NLRI\<close> has one implementation, \<^verbatim>\<open>NLRI_IPPrefix\<close>, so an NLRI is that record.
  Lemmas: the tables are the CIDR masks; the parser terminates without panic on every input; it
  is exactly the inverse of the writer on well-formed prefixes.
\<close>

section \<open>Mask tables\<close>

definition MaskV4 :: "bytes list" where
  "MaskV4 =
   [ [0x00, 0x00, 0x00, 0x00],
     [0x80, 0x00, 0x00, 0x00],
     [0xc0, 0x00, 0x00, 0x00],
     [0xe0, 0x00, 0x00, 0x00],
     [0xf0, 0x00, 0x00, 0x00],
     [0xf8, 0x00, 0x00, 0x00],
     [0xfc, 0x00, 0x00, 0x00],
     [0xfe, 0x00, 0x00, 0x00],
     [0xff, 0x00, 0x00, 0x00],
     [0xff, 0x80, 0x00, 0x00],
     [0xff, 0xc0, 0x00, 0x00],
     [0xff, 0xe0, 0x00, 0x00],
     [0xff, 0xf0, 0x00, 0x00],
     [0xff, 0xf8, 0x00, 0x00],
     [0xff, 0xfc, 0x00, 0x00],
     [0xff, 0xfe, 0x00, 0x00],
     [0xff, 0xff, 0x00, 0x00],
     [0xff, 0xff, 0x80, 0x00],
     [0xff, 0xff, 0xc0, 0x00],
     [0xff, 0xff, 0xe0, 0x00],
     [0xff, 0xff, 0xf0, 0x00],
     [0xff, 0xff, 0xf8, 0x00],
     [0xff, 0xff, 0xfc, 0x00],
     [0xff, 0xff, 0xfe, 0x00],
     [0xff, 0xff, 0xff, 0x00],
     [0xff, 0xff, 0xff, 0x80],
     [0xff, 0xff, 0xff, 0xc0],
     [0xff, 0xff, 0xff, 0xe0],
     [0xff, 0xff, 0xff, 0xf0],
     [0xff, 0xff, 0xff, 0xf8],
     [0xff, 0xff, 0xff, 0xfc],
     [0xff, 0xff, 0xff, 0xfe],
     [0xff, 0xff, 0xff, 0xff] ]"

definition MaskV6 :: "bytes list" where
  "MaskV6 =
   [ [0x00, 0x00, 0x00, 0x00, 0x00, 0x00, 0x00, 0x00, 0x00, 0x00, 0x00, 0x00, 0x00, 0x00, 0x00, 0x00],
     [0x80, 0x00, 0x00, 0x00, 0x00, 0x00, 0x00, 0x00, 0x00, 0x00, 0x00, 0x00, 0x00, 0x00, 0x00, 0x00],
     [0xc0, 0x00, 0x00, 0x00, 0x00, 0x00, 0x00, 0x00, 0x00, 0x00, 0x00, 0x00, 0x00, 0x00, 0x00, 0x00],
     [0xe0, 0x00, 0x00, 0x00, 0x00, 0x00, 0x00, 0x00, 0x00, 0x00, 0x00, 0x00, 0x00, 0x00, 0x00, 0x00],
     [0xf0, 0x00, 0x00, 0x00, 0x00, 0x00, 0x00, 0x00, 0x00, 0x00, 0x00, 0x00, 0x00, 0x00, 0x00, 0x00],
     [0xf8, 0x00, 0x00, 0x00, 0x00, 0x00, 0x00, 0x00, 0x00, 0x00, 0x00, 0x00, 0x00, 0x00, 0x00, 0x00],
     [0xfc, 0x00, 0x00, 0x00, 0x00, 0x00, 0x00, 0x00, 0x00, 0x00, 0x00, 0x00, 0x00, 0x00, 0x00, 0x00],
     [0xfe, 0x00, 0x00, 0x00, 0x00, 0x00, 0x00, 0x00, 0x00, 0x00, 0x00, 0x00, 0x00, 0x00, 0x00, 0x00],
     [0xff, 0x00, 0x00, 0x00, 0x00, 0x00, 0x00, 0x00, 0x00, 0x00, 0x00, 0x00, 0x00, 0x00, 0x00, 0x00],
     [0xff, 0x80, 0x00, 0x00, 0x00, 0x00, 0x00, 0x00, 0x00, 0x00, 0x00, 0x00, 0x00, 0x00, 0x00, 0x00],
     [0xff, 0xc0, 0x00, 0x00, 0x00, 0x00, 0x00, 0x00, 0x00, 0x00, 0x00, 0x00, 0x00, 0x00, 0x00, 0x00],
     [0xff, 0xe0, 0x00, 0x00, 0x00, 0x00, 0x00, 0x00, 0x00, 0x00, 0x00, 0x00, 0x00, 0x00, 0x00, 0x00],
     [0xff, 0xf0, 0x00, 0x00, 0x00, 0x00, 0x00, 0x00, 0x00, 0x00, 0x00, 0x00, 0x00, 0x00, 0x00, 0x00],
     [0xff, 0xf8, 0x00, 0x00, 0x00, 0x00, 0x00, 0x00, 0x00, 0x00, 0x00, 0x00, 0x00, 0x00, 0x00, 0x00],
     [0xff, 0xfc, 0x00, 0x00, 0x00, 0x00, 0x00, 0x00, 0x00, 0x00, 0x00, 0x00, 0x00, 0x00, 0x00, 0x00],
     [0xff, 0xfe, 0x00, 0x00, 0x00, 0x00, 0x00, 0x00, 0x00, 0x00, 0x00, 0x00, 0x00, 0x00, 0x00, 0x00],
     [0xff, 0xff, 0x00, 0x00, 0x00, 0x00, 0x00, 0x00, 0x00, 0x00, 0x00, 0x00, 0x00, 0x00, 0x00, 0x00],
     [0xff, 0xff, 0x80, 0x00, 0x00, 0x00, 0x00, 0x00, 0x00, 0x00, 0x00, 0x00, 0x00, 0x00, 0x00, 0x00],
     [0xff, 0xff, 0xc0, 0x00, 0x00, 0x00, 0x00, 0x00, 0x00, 0x00, 0x00, 0x00, 0x00, 0x00, 0x00, 0x00],
     [0xff, 0xff, 0xe0, 0x00, 0x00, 0x00, 0x00, 0x00, 0x00, 0x00, 0x00, 0x00, 0x00, 0x00, 0x00, 0x00],
     [0xff, 0xff, 0xf0, 0x00, 0x00, 0x00, 0x00, 0x00, 0x00, 0x00, 0x00, 0x00, 0x00, 0x00, 0x00, 0x00],
     [0xff, 0xff, 0xf8, 0x00, 0x00, 0x00, 0x00, 0x00, 0x00, 0x00, 0x00, 0x00, 0x00, 0x00, 0x00, 0x00],
     [0xff, 0xff, 0xfc, 0x00, 0x00, 0x00, 0x00, 0x00, 0x00, 0x00, 0x00, 0x00, 0x00, 0x00, 0x00, 0x00],
     [0xff, 0xff, 0xfe, 0x00, 0x00, 0x00, 0x00, 0x00, 0x00, 0x00, 0x00, 0x00, 0x00, 0x00, 0x00, 0x00],
     [0xff, 0xff, 0xff, 0x00, 0x00, 0x00, 0x00, 0x00, 0x00, 0x00, 0x00, 0x00, 0x00, 0x00, 0x00, 0x00],
     [0xff, 0xff, 0xff, 0x80, 0x00, 0x00, 0x00, 0x00, 0x00, 0x00, 0x00, 0x00, 0x00, 0x00, 0x00, 0x00],
     [0xff, 0xff, 0xff, 0xc0, 0x00, 0x00, 0x00, 0x00, 0x00, 0x00, 0x00, 0x00, 0x00, 0x00, 0x00, 0x00],
     [0xff, 0xff, 0xff, 0xe0, 0x00, 0x00, 0x00, 0x00, 0x00, 0x00, 0x00, 0x00, 0x00, 0x00, 0x00, 0x00],
     [0xff, 0xff, 0xff, 0xf0, 0x00, 0x00, 0x00, 0x00, 0x00, 0x00, 0x00, 0x00, 0x00, 0x00, 0x00, 0x00],
     [0xff, 0xff, 0xff, 0xf8, 0x00, 0x00, 0x00, 0x00, 0x00, 0x00, 0x00, 0x00, 0x00, 0x00, 0x00, 0x00],
     [0xff, 0xff, 0xff, 0xfc, 0x00, 0x00, 0x00, 0x00, 0x00, 0x00, 0x00, 0x00, 0x00, 0x00, 0x00, 0x00],
     [0xff, 0xff, 0xff, 0xfe, 0x00, 0x00, 0x00, 0x00, 0x00, 0x00, 0x00, 0x00, 0x00, 0x00, 0x00, 0x00],
     [0xff, 0xff, 0xff, 0xff, 0x00, 0x00, 0x00, 0x00, 0x00, 0x00, 0x00, 0x00, 0x00, 0x00, 0x00, 0x00],
     [0xff, 0xff, 0xff, 0xff, 0x80, 0x00, 0x00, 0x00, 0x00, 0x00, 0x00, 0x00, 0x00, 0x00, 0x00, 0x00],
     [0xff, 0xff, 0xff, 0xff, 0xc0, 0x00, 0x00, 0x00, 0x00, 0x00, 0x00, 0x00, 0x00, 0x00, 0x00, 0x00],
     [0xff, 0xff, 0xff, 0xff, 0xe0, 0x00, 0x00, 0x00, 0x00, 0x00, 0x00, 0x00, 0x00, 0x00, 0x00, 0x00],
     [0xff, 0xff, 0xff, 0xff, 0xf0, 0x00, 0x00, 0x00, 0x00, 0x00, 0x00, 0x00, 0x00, 0x00, 0x00, 0x00],
     [0xff, 0xff, 0xff, 0xff, 0xf8, 0x00, 0x00, 0x00, 0x00, 0x00, 0x00, 0x00, 0x00, 0x00, 0x00, 0x00],
     [0xff, 0xff, 0xff, 0xff, 0xfc, 0x00, 0x00, 0x00, 0x00, 0x00, 0x00, 0x00, 0x00, 0x00, 0x00, 0x00],
     [0xff, 0xff, 0xff, 0xff, 0xfe, 0x00, 0x00, 0x00, 0x00, 0x00, 0x00, 0x00, 0x00, 0x00, 0x00, 0x00],
     [0xff, 0xff, 0xff, 0xff, 0xff, 0x00, 0x00, 0x00, 0x00, 0x00, 0x00, 0x00, 0x00, 0x00, 0x00, 0x00],
     [0xff, 0xff, 0xff, 0xff, 0xff, 0x80, 0x00, 0x00, 0x00, 0x00, 0x00, 0x00, 0x00, 0x00, 0x00, 0x00],
     [0xff, 0xff, 0xff, 0xff, 0xff, 0xc0, 0x00, 0x00, 0x00, 0x00, 0x00, 0x00, 0x00, 0x00, 0x00, 0x00],
     [0xff, 0xff, 0xff, 0xff, 0xff, 0xe0, 0x00, 0x00, 0x00, 0x00, 0x00, 0x00, 0x00, 0x00, 0x00, 0x00],
     [0xff, 0xff, 0xff, 0xff, 0xff, 0xf0, 0x00, 0x00, 0x00, 0x00, 0x00, 0x00, 0x00, 0x00, 0x00, 0x00],
     [0xff, 0xff, 0xff, 0xff, 0xff, 0xf8, 0x00, 0x00, 0x00, 0x00, 0x00, 0x00, 0x00, 0x00, 0x00, 0x00],
     [0xff, 0xff, 0xff, 0xff, 0xff, 0xfc, 0x00, 0x00, 0x00, 0x00, 0x00, 0x00, 0x00, 0x00, 0x00, 0x00],
     [0xff, 0xff, 0xff, 0xff, 0xff, 0xfe, 0x00, 0x00, 0x00, 0x00, 0x00, 0x00, 0x00, 0x00, 0x00, 0x00],
     [0xff, 0xff, 0xff, 0xff, 0xff, 0xff, 0x00, 0x00, 0x00, 0x00, 0x00, 0x00, 0x00, 0x00, 0x00, 0x00],
     [0xff, 0xff, 0xff, 0xff, 0xff, 0xff, 0x80, 0x00, 0x00, 0x00, 0x00, 0x00, 0x00, 0x00, 0x00, 0x00],
     [0xff, 0xff, 0xff, 0xff, 0xff, 0xff, 0xc0, 0x00, 0x00, 0x00, 0x00, 0x00, 0x00, 0x00, 0x00, 0x00],
     [0xff, 0xff, 0xff, 0xff, 0xff, 0xff, 0xe0, 0x00, 0x00, 0x00, 0x00, 0x00, 0x00, 0x00, 0x00, 0x00],
     [0xff, 0xff, 0xff, 0xff, 0xff, 0xff, 0xf0, 0x00, 0x00, 0x00, 0x00, 0x00, 0x00, 0x00, 0x00, 0x00],
     [0xff, 0xff, 0xff, 0xff, 0xff, 0xff, 0xf8, 0x00, 0x00, 0x00, 0x00, 0x00, 0x00, 0x00, 0x00, 0x00],
     [0xff, 0xff, 0xff, 0xff, 0xff, 0xff, 0xfc, 0x00, 0x00, 0x00, 0x00, 0x00, 0x00, 0x00, 0x00, 0x00],
     [0xff, 0xff, 0xff, 0xff, 0xff, 0xff, 0xfe, 0x00, 0x00, 0x00, 0x00, 0x00, 0x00, 0x00, 0x00, 0x00],
     [0xff, 0xff, 0xff, 0xff, 0xff, 0xff, 0xff, 0x00, 0x00, 0x00, 0x00, 0x00, 0x00, 0x00, 0x00, 0x00],
     [0xff, 0xff, 0xff, 0xff, 0xff, 0xff, 0xff, 0x80, 0x00, 0x00, 0x00, 0x00, 0x00, 0x00, 0x00, 0x00],
     [0xff, 0xff, 0xff, 0xff, 0xff, 0xff, 0xff, 0xc0, 0x00, 0x00, 0x00, 0x00, 0x00, 0x00, 0x00, 0x00],
     [0xff, 0xff, 0xff, 0xff, 0xff, 0xff, 0xff, 0xe0, 0x00, 0x00, 0x00, 0x00, 0x00, 0x00, 0x00, 0x00],
     [0xff, 0xff, 0xff, 0xff, 0xff, 0xff, 0xff, 0xf0, 0x00, 0x00, 0x00, 0x00, 0x00, 0x00, 0x00, 0x00],
     [0xff, 0xff, 0xff, 0xff, 0xff, 0xff, 0xff, 0xf8, 0x00, 0x00, 0x00, 0x00, 0x00, 0x00, 0x00, 0x00],
     [0xff, 0xff, 0xff, 0xff, 0xff, 0xff, 0xff, 0xfc, 0x00, 0x00, 0x00, 0x00, 0x00, 0x00, 0x00, 0x00],
     [0xff, 0xff, 0xff, 0xff, 0xff, 0xff, 0xff, 0xfe, 0x00, 0x00, 0x00, 0x00, 0x00, 0x00, 0x00, 0x00],
     [0xff, 0xff, 0xff, 0xff, 0xff, 0xff, 0xff, 0xff, 0x00, 0x00, 0x00, 0x00, 0x00, 0x00, 0x00, 0x00],
     [0xff, 0xff, 0xff, 0xff, 0xff, 0xff, 0xff, 0xff, 0x80, 0x00, 0x00, 0x00, 0x00, 0x00, 0x00, 0x00],
     [0xff, 0xff, 0xff, 0xff, 0xff, 0xff, 0xff, 0xff, 0xc0, 0x00, 0x00, 0x00, 0x00, 0x00, 0x00, 0x00],
     [0xff, 0xff, 0xff, 0xff, 0xff, 0xff, 0xff, 0xff, 0xe0, 0x00, 0x00, 0x00, 0x00, 0x00, 0x00, 0x00],
     [0xff, 0xff, 0xff, 0xff, 0xff, 0xff, 0xff, 0xff, 0xf0, 0x00, 0x00, 0x00, 0x00, 0x00, 0x00, 0x00],
     [0xff, 0xff, 0xff, 0xff, 0xff, 0xff, 0xff, 0xff, 0xf8, 0x00, 0x00, 0x00, 0x00, 0x00, 0x00, 0x00],
     [0xff, 0xff, 0xff, 0xff, 0xff, 0xff, 0xff, 0xff, 0xfc, 0x00, 0x00, 0x00, 0x00, 0x00, 0x00, 0x00],
     [0xff, 0xff, 0xff, 0xff, 0xff, 0xff, 0xff, 0xff, 0xfe, 0x00, 0x00, 0x00, 0x00, 0x00, 0x00, 0x00],
     [0xff, 0xff, 0xff, 0xff, 0xff, 0xff, 0xff, 0xff, 0xff, 0x00, 0x00, 0x00, 0x00, 0x00, 0x00, 0x00],
     [0xff, 0xff, 0xff, 0xff, 0xff, 0xff, 0xff, 0xff, 0xff, 0x80, 0x00, 0x00, 0x00, 0x00, 0x00, 0x00],
     [0xff, 0xff, 0xff, 0xff, 0xff, 0xff, 0xff, 0xff, 0xff, 0xc0, 0x00, 0x00, 0x00, 0x00, 0x00, 0x00],
     [0xff, 0xff, 0xff, 0xff, 0xff, 0xff, 0xff, 0xff, 0xff, 0xe0, 0x00, 0x00, 0x00, 0x00, 0x00, 0x00],
     [0xff, 0xff, 0xff, 0xff, 0xff, 0xff, 0xff, 0xff, 0xff, 0xf0, 0x00, 0x00, 0x00, 0x00, 0x00, 0x00],
     [0xff, 0xff, 0xff, 0xff, 0xff, 0xff, 0xff, 0xff, 0xff, 0xf8, 0x00, 0x00, 0x00, 0x00, 0x00, 0x00],
     [0xff, 0xff, 0xff, 0xff, 0xff, 0xff, 0xff, 0xff, 0xff, 0xfc, 0x00, 0x00, 0x00, 0x00, 0x00, 0x00],
     [0xff, 0xff, 0xff, 0xff, 0xff, 0xff, 0xff, 0xff, 0xff, 0xfe, 0x00, 0x00, 0x00, 0x00, 0x00, 0x00],
     [0xff, 0xff, 0xff, 0xff, 0xff, 0xff, 0xff, 0xff, 0xff, 0xff, 0x00, 0x00, 0x00, 0x00, 0x00, 0x00],
     [0xff, 0xff, 0xff, 0xff, 0xff, 0xff, 0xff, 0xff, 0xff, 0xff, 0x80, 0x00, 0x00, 0x00, 0x00, 0x00],
     [0xff, 0xff, 0xff, 0xff, 0xff, 0xff, 0xff, 0xff, 0xff, 0xff, 0xc0, 0x00, 0x00, 0x00, 0x00, 0x00],
     [0xff, 0xff, 0xff, 0xff, 0xff, 0xff, 0xff, 0xff, 0xff, 0xff, 0xe0, 0x00, 0x00, 0x00, 0x00, 0x00],
     [0xff, 0xff, 0xff, 0xff, 0xff, 0xff, 0xff, 0xff, 0xff, 0xff, 0xf0, 0x00, 0x00, 0x00, 0x00, 0x00],
     [0xff, 0xff, 0xff, 0xff, 0xff, 0xff, 0xff, 0xff, 0xff, 0xff, 0xf8, 0x00, 0x00, 0x00, 0x00, 0x00],
     [0xff, 0xff, 0xff, 0xff, 0xff, 0xff, 0xff, 0xff, 0xff, 0xff, 0xfc, 0x00, 0x00, 0x00, 0x00, 0x00],
     [0xff, 0xff, 0xff, 0xff, 0xff, 0xff, 0xff, 0xff, 0xff, 0xff, 0xfe, 0x00, 0x00, 0x00, 0x00, 0x00],
     [0xff, 0xff, 0xff, 0xff, 0xff, 0xff, 0xff, 0xff, 0xff, 0xff, 0xff, 0x00, 0x00, 0x00, 0x00, 0x00],
     [0xff, 0xff, 0xff, 0xff, 0xff, 0xff, 0xff, 0xff, 0xff, 0xff, 0xff, 0x80, 0x00, 0x00, 0x00, 0x00],
     [0xff, 0xff, 0xff, 0xff, 0xff, 0xff, 0xff, 0xff, 0xff, 0xff, 0xff, 0xc0, 0x00, 0x00, 0x00, 0x00],
     [0xff, 0xff, 0xff, 0xff, 0xff, 0xff, 0xff, 0xff, 0xff, 0xff, 0xff, 0xe0, 0x00, 0x00, 0x00, 0x00],
     [0xff, 0xff, 0xff, 0xff, 0xff, 0xff, 0xff, 0xff, 0xff, 0xff, 0xff, 0xf0, 0x00, 0x00, 0x00, 0x00],
     [0xff, 0xff, 0xff, 0xff, 0xff, 0xff, 0xff, 0xff, 0xff, 0xff, 0xff, 0xf8, 0x00, 0x00, 0x00, 0x00],
     [0xff, 0xff, 0xff, 0xff, 0xff, 0xff, 0xff, 0xff, 0xff, 0xff, 0xff, 0xfc, 0x00, 0x00, 0x00, 0x00],
     [0xff, 0xff, 0xff, 0xff, 0xff, 0xff, 0xff, 0xff, 0xff, 0xff, 0xff, 0xfe, 0x00, 0x00, 0x00, 0x00],
     [0xff, 0xff, 0xff, 0xff, 0xff, 0xff, 0xff, 0xff, 0xff, 0xff, 0xff, 0xff, 0x00, 0x00, 0x00, 0x00],
     [0xff, 0xff, 0xff, 0xff, 0xff, 0xff, 0xff, 0xff, 0xff, 0xff, 0xff, 0xff, 0x80, 0x00, 0x00, 0x00],
     [0xff, 0xff, 0xff, 0xff, 0xff, 0xff, 0xff, 0xff, 0xff, 0xff, 0xff, 0xff, 0xc0, 0x00, 0x00, 0x00],
     [0xff, 0xff, 0xff, 0xff, 0xff, 0xff, 0xff, 0xff, 0xff, 0xff, 0xff, 0xff, 0xe0, 0x00, 0x00, 0x00],
     [0xff, 0xff, 0xff, 0xff, 0xff, 0xff, 0xff, 0xff, 0xff, 0xff, 0xff, 0xff, 0xf0, 0x00, 0x00, 0x00],
     [0xff, 0xff, 0xff, 0xff, 0xff, 0xff, 0xff, 0xff, 0xff, 0xff, 0xff, 0xff, 0xf8, 0x00, 0x00, 0x00],
     [0xff, 0xff, 0xff, 0xff, 0xff, 0xff, 0xff, 0xff, 0xff, 0xff, 0xff, 0xff, 0xfc, 0x00, 0x00, 0x00],
     [0xff, 0xff, 0xff, 0xff, 0xff, 0xff, 0xff, 0xff, 0xff, 0xff, 0xff, 0xff, 0xfe, 0x00, 0x00, 0x00],
     [0xff, 0xff, 0xff, 0xff, 0xff, 0xff, 0xff, 0xff, 0xff, 0xff, 0xff, 0xff, 0xff, 0x00, 0x00, 0x00],
     [0xff, 0xff, 0xff, 0xff, 0xff, 0xff, 0xff, 0xff, 0xff, 0xff, 0xff, 0xff, 0xff, 0x80, 0x00, 0x00],
     [0xff, 0xff, 0xff, 0xff, 0xff, 0xff, 0xff, 0xff, 0xff, 0xff, 0xff, 0xff, 0xff, 0xc0, 0x00, 0x00],
     [0xff, 0xff, 0xff, 0xff, 0xff, 0xff, 0xff, 0xff, 0xff, 0xff, 0xff, 0xff, 0xff, 0xe0, 0x00, 0x00],
     [0xff, 0xff, 0xff, 0xff, 0xff, 0xff, 0xff, 0xff, 0xff, 0xff, 0xff, 0xff, 0xff, 0xf0, 0x00, 0x00],
     [0xff, 0xff, 0xff, 0xff, 0xff, 0xff, 0xff, 0xff, 0xff, 0xff, 0xff, 0xff, 0xff, 0xf8, 0x00, 0x00],
     [0xff, 0xff, 0xff, 0xff, 0xff, 0xff, 0xff, 0xff, 0xff, 0xff, 0xff, 0xff, 0xff, 0xfc, 0x00, 0x00],
     [0xff, 0xff, 0xff, 0xff, 0xff, 0xff, 0xff, 0xff, 0xff, 0xff, 0xff, 0xff, 0xff, 0xfe, 0x00, 0x00],
     [0xff, 0xff, 0xff, 0xff, 0xff, 0xff, 0xff, 0xff, 0xff, 0xff, 0xff, 0xff, 0xff, 0xff, 0x00, 0x00],
     [0xff, 0xff, 0xff, 0xff, 0xff, 0xff, 0xff, 0xff, 0xff, 0xff, 0xff, 0xff, 0xff, 0xff, 0x80, 0x00],
     [0xff, 0xff, 0xff, 0xff, 0xff, 0xff, 0xff, 0xff, 0xff, 0xff, 0xff, 0xff, 0xff, 0xff, 0xc0, 0x00],
     [0xff, 0xff, 0xff, 0xff, 0xff, 0xff, 0xff, 0xff, 0xff, 0xff, 0xff, 0xff, 0xff, 0xff, 0xe0, 0x00],
     [0xff, 0xff, 0xff, 0xff, 0xff, 0xff, 0xff, 0xff, 0xff, 0xff, 0xff, 0xff, 0xff, 0xff, 0xf0, 0x00],
     [0xff, 0xff, 0xff, 0xff, 0xff, 0xff, 0xff, 0xff, 0xff, 0xff, 0xff, 0xff, 0xff, 0xff, 0xf8, 0x00],
     [0xff, 0xff, 0xff, 0xff, 0xff, 0xff, 0xff, 0xff, 0xff, 0xff, 0xff, 0xff, 0xff, 0xff, 0xfc, 0x00],
     [0xff, 0xff, 0xff, 0xff, 0xff, 0xff, 0xff, 0xff, 0xff, 0xff, 0xff, 0xff, 0xff, 0xff, 0xfe, 0x00],
     [0xff, 0xff, 0xff, 0xff, 0xff, 0xff, 0xff, 0xff, 0xff, 0xff, 0xff, 0xff, 0xff, 0xff, 0xff, 0x00],
     [0xff, 0xff, 0xff, 0xff, 0xff, 0xff, 0xff, 0xff, 0xff, 0xff, 0xff, 0xff, 0xff, 0xff, 0xff, 0x80],
     [0xff, 0xff, 0xff, 0xff, 0xff, 0xff, 0xff, 0xff, 0xff, 0xff, 0xff, 0xff, 0xff, 0xff, 0xff, 0xc0],
     [0xff, 0xff, 0xff, 0xff, 0xff, 0xff, 0xff, 0xff, 0xff, 0xff, 0xff, 0xff, 0xff, 0xff, 0xff, 0xe0],
     [0xff, 0xff, 0xff, 0xff, 0xff, 0xff, 0xff, 0xff, 0xff, 0xff, 0xff, 0xff, 0xff, 0xff, 0xff, 0xf0],
     [0xff, 0xff, 0xff, 0xff, 0xff, 0xff, 0xff, 0xff, 0xff, 0xff, 0xff, 0xff, 0xff, 0xff, 0xff, 0xf8],
     [0xff, 0xff, 0xff, 0xff, 0xff, 0xff, 0xff, 0xff, 0xff, 0xff, 0xff, 0xff, 0xff, 0xff, 0xff, 0xfc],
     [0xff, 0xff, 0xff, 0xff, 0xff, 0xff, 0xff, 0xff, 0xff, 0xff, 0xff, 0xff, 0xff, 0xff, 0xff, 0xfe],
     [0xff, 0xff, 0xff, 0xff, 0xff, 0xff, 0xff, 0xff, 0xff, 0xff, 0xff, 0xff, 0xff, 0xff, 0xff, 0xff] ]"

lemma MaskV4_cidr: "MaskV4 = map (cidr_mask 4) [0..<33]"
  by (simp add: MaskV4_def cidr_mask_def cidr_byte_def mask_eq_exp_minus_1 upt_rec)

lemma MaskV6_cidr: "MaskV6 = map (cidr_mask 16) [0..<129]"
  by (simp add: MaskV6_def cidr_mask_def cidr_byte_def mask_eq_exp_minus_1 upt_rec)

section \<open>Prefixes\<close>

record IPNet =
  IP :: bytes
  Mask :: bytes

record NLRI_IPPrefix =
  Prefix :: IPNet
  PathId :: u32

type_synonym NLRI = NLRI_IPPrefix

definition GetAfi :: "NLRI \<Rightarrow> u16" where
  "GetAfi m =
     (if To4 (IP (Prefix m)) \<noteq> None then AFI_IPV4
      else if To16 (IP (Prefix m)) \<noteq> None then AFI_IPV6
      else 0)"

definition GetSafi :: "NLRI \<Rightarrow> byte" where
  "GetSafi n = SAFI_UNICAST"

definition NLRI_Equals :: "NLRI \<Rightarrow> NLRI \<Rightarrow> bool" where
  "NLRI_Equals m mm \<longleftrightarrow>
     GetAfi mm = GetAfi m \<and> GetSafi mm = GetSafi m \<and>
     PathId mm = PathId m \<and>
     IP_Equal (IP (Prefix mm)) (IP (Prefix m)) \<and>
     Mask (Prefix mm) = Mask (Prefix m)"

text \<open>The number of bytes that hold a prefix of \<open>ones\<close> bits.\<close>

definition prefix_bytes :: "nat \<Rightarrow> nat" where
  "prefix_bytes ones = ones div 8 + (if ones mod 8 \<noteq> 0 then 1 else 0)"

definition GetSplitLen :: "NLRI \<Rightarrow> nat" where
  "GetSplitLen n = prefix_bytes (fst (IPMask_Size (Mask (Prefix n))))"

definition NLRI_Len :: "NLRI \<Rightarrow> bool \<Rightarrow> nat" where
  "NLRI_Len n addpath = (if addpath then 4 else 0) + 1 + GetSplitLen n"

definition NLRI_Write :: "bool \<Rightarrow> NLRI \<Rightarrow> bytes go" where
  "NLRI_Write addpath n = do {
     ip \<leftarrow> subslice (IP (Prefix n)) 0 (GetSplitLen n);
     Some ((if addpath then be32 (PathId n) else []) @
       [of_nat (fst (IPMask_Size (Mask (Prefix n))))] @ ip)
   }"

section \<open>ParseNLRI\<close>

definition afi_masks :: "u16 \<Rightarrow> bytes list" where
  "afi_masks afi = (if afi = AFI_IPV6 then MaskV6 else MaskV4)"

definition afi_asize :: "u16 \<Rightarrow> nat" where
  "afi_asize afi = (if afi = AFI_IPV6 then 16 else 4)"

text \<open>One iteration of the loop over the buffer; the state is the offset and the list so far.\<close>

definition ParseNLRI_body ::
  "bytes \<Rightarrow> u16 \<Rightarrow> bool \<Rightarrow> nat \<times> NLRI list \<Rightarrow>
    (nat \<times> NLRI list, NLRI list \<times> bgp_error option) ctl go" where
  "ParseNLRI_body b afi path = (\<lambda>(i, prefixlist).
     if i < length b then
       if path \<and> length b - i < 5 then Some (Done ([], Some (ErrNLRIAddPath (length b))))
       else do {
         (pathid, i) \<leftarrow>
           (if path then do {
              b0 \<leftarrow> idx b i; b1 \<leftarrow> idx b (i + 1); b2 \<leftarrow> idx b (i + 2); b3 \<leftarrow> idx b (i + 3);
              Some (u32_of b0 b1 b2 b3, i + 4)
            } else Some (0, i));
         bi \<leftarrow> idx b i;
         let bits = unat bi; i = i + 1 in
         if bits > length (afi_masks afi) - 1
         then Some (Done (prefixlist, Some (ErrPrefixLength bits afi)))
         else let byteLen = prefix_bytes bits in
           if i + byteLen > length b
           then Some (Done (prefixlist, Some (ErrNLRISize (i + byteLen) (length b))))
           else do {
             prefix \<leftarrow> subslice b i (i + byteLen);
             m \<leftarrow> idx (afi_masks afi) bits;
             let ip = go_copy (replicate (afi_asize afi) 0) prefix in
             Some (Next (i + byteLen,
               prefixlist @ [\<lparr>Prefix = \<lparr>IP = ip, Mask = m\<rparr>, PathId = pathid\<rparr>]))
           }
       }
     else Some (Done (prefixlist, None)))"

definition ParseNLRI ::
  "bytes \<Rightarrow> u16 \<Rightarrow> byte \<Rightarrow> bool \<Rightarrow> (NLRI list \<times> bgp_error option) go" where
  "ParseNLRI b afi safi path =
     (if afi \<noteq> AFI_IPV4 \<and> afi \<noteq> AFI_IPV6 then Some ([], Some (ErrNLRIAfi afi safi))
      else go_loop (ParseNLRI_body b afi path) (0, []))"

section \<open>Well-formed prefixes\<close>

text \<open>
  What the parser produces: an address of the family's size, a CIDR mask, zeros beyond the
  bytes the mask length announces, and no path identifier without add-path.
\<close>

definition nlri_ok :: "u16 \<Rightarrow> bool \<Rightarrow> NLRI \<Rightarrow> bool" where
  "nlri_ok afi path n \<longleftrightarrow>
     (let ones = fst (IPMask_Size (Mask (Prefix n))) in
      length (IP (Prefix n)) = afi_asize afi \<and>
      ones \<le> 8 * afi_asize afi \<and>
      Mask (Prefix n) = cidr_mask (afi_asize afi) ones \<and>
      drop (prefix_bytes ones) (IP (Prefix n)) = replicate (afi_asize afi - prefix_bytes ones) 0 \<and>
      (path \<or> PathId n = 0))"

lemma prefix_bytes_le: "ones \<le> 8 * n \<Longrightarrow> prefix_bytes ones \<le> n"
  unfolding prefix_bytes_def using div_mult_mod_eq [of ones 8] by (auto; linarith)

lemma afi_asize_le: "afi_asize afi \<le> 16"
  by (simp add: afi_asize_def)

lemma length_afi_masks [simp]: "length (afi_masks afi) = 8 * afi_asize afi + 1"
  by (simp add: afi_masks_def afi_asize_def MaskV4_cidr MaskV6_cidr)

lemma idx_afi_masks [simp]:
  "bits \<le> 8 * afi_asize afi \<Longrightarrow> idx (afi_masks afi) bits = Some (cidr_mask (afi_asize afi) bits)"
  by (auto simp: afi_masks_def afi_asize_def MaskV4_cidr MaskV6_cidr idx_def simp del: upt_Suc)

lemma parsed_nlri_ok:
  assumes "bits \<le> 8 * afi_asize afi" and "length prefix = prefix_bytes bits"
    and "path \<or> pathid = 0"
  shows "nlri_ok afi path
    \<lparr>Prefix = \<lparr>IP = go_copy (replicate (afi_asize afi) 0) prefix, Mask = cidr_mask (afi_asize afi) bits\<rparr>,
     PathId = pathid\<rparr>"
  using assms prefix_bytes_le [of bits "afi_asize afi"]
  by (simp add: nlri_ok_def IPMask_Size_cidr go_copy_def)

lemma parsed_nlri_Write:
  assumes "bits \<le> 8 * afi_asize afi" and "length prefix = prefix_bytes bits"
  shows "NLRI_Write path
    \<lparr>Prefix = \<lparr>IP = go_copy (replicate (afi_asize afi) 0) prefix, Mask = cidr_mask (afi_asize afi) bits\<rparr>,
     PathId = pathid\<rparr> = Some ((if path then be32 pathid else []) @ [of_nat bits] @ prefix)"
  using assms prefix_bytes_le [of bits "afi_asize afi"]
  by (simp add: NLRI_Write_def GetSplitLen_def IPMask_Size_cidr go_copy_def subslice_def)

lemma NLRI_Write_ok:
  assumes "nlri_ok afi path n"
  shows "\<exists>bs. NLRI_Write path n = Some bs"
  using assms prefix_bytes_le by (auto simp: nlri_ok_def NLRI_Write_def GetSplitLen_def subslice_def Let_def)

lemma NLRI_Write_length:
  "NLRI_Write path n = Some bs \<Longrightarrow> length bs = NLRI_Len n path"
  by (auto simp: NLRI_Write_def NLRI_Len_def subslice_def split: if_splits)

lemma parsed_item:
  assumes bits: "unat bi \<le> 8 * afi_asize afi"
    and x: "subslice b j (j + prefix_bytes (unat bi)) = Some x"
    and j: "take j b = take i b @ (if path then be32 pathid else []) @ [bi]"
    and path: "path \<or> pathid = 0"
    and n: "n = \<lparr>Prefix = \<lparr>IP = go_copy (replicate (afi_asize afi) 0) x,
      Mask = cidr_mask (afi_asize afi) (unat bi)\<rparr>, PathId = pathid\<rparr>"
  shows "nlri_ok afi path n \<and>
    (\<exists>bs. NLRI_Write path n = Some bs \<and> take (j + prefix_bytes (unat bi)) b = take i b @ bs)"
proof -
  have len: "length x = prefix_bytes (unat bi)"
    using subslice_length [OF x] by simp
  show ?thesis
    using parsed_nlri_ok [OF bits len path] parsed_nlri_Write [OF bits len, of path pathid]
      take_subslice [OF x] j
    by (simp add: n)
qed

lemma nth_afi_masks:
  "bits \<le> 8 * afi_asize afi \<Longrightarrow> afi_masks afi ! bits = cidr_mask (afi_asize afi) bits"
  using idx_afi_masks [of bits afi] by (simp add: idx_def split: if_splits)

lemma ParseNLRI_body_Next:
  assumes "ParseNLRI_body b afi path (i, acc) = Some (Next (i', acc'))"
  shows "\<exists>n bs. acc' = acc @ [n] \<and> nlri_ok afi path n \<and> NLRI_Write path n = Some bs \<and>
    take i' b = take i b @ bs \<and> i < i' \<and> i' \<le> length b"
proof (cases path)
  case True
  with assms obtain x where len: "5 \<le> length b - i"
    and bits: "unat (b ! (i + 4)) \<le> 8 * afi_asize afi"
    and x: "subslice b (5 + i) (5 + i + prefix_bytes (unat (b ! (i + 4)))) = Some x"
    and i': "i' = 5 + i + prefix_bytes (unat (b ! (i + 4)))" "i' \<le> length b"
    and acc': "acc' = acc @ [\<lparr>Prefix = \<lparr>IP = go_copy (replicate (afi_asize afi) 0) x,
      Mask = cidr_mask (afi_asize afi) (unat (b ! (i + 4)))\<rparr>,
      PathId = u32_of (b ! i) (b ! (i + 1)) (b ! (i + 2)) (b ! (i + 3))\<rparr>]"
    by (auto simp: ParseNLRI_body_def Let_def nth_afi_masks split: if_splits Option.bind_splits)
  have "take (5 + i) b = take i b @
      be32 (u32_of (b ! i) (b ! (i + 1)) (b ! (i + 2)) (b ! (i + 3))) @ [b ! (i + 4)]"
    using len take_be32 [of i b] take_Suc_nth [of "i + 4" b] by simp
  with True acc' i' parsed_item [OF bits x, of i path] show ?thesis by auto
next
  case False
  with assms obtain x where len: "i < length b"
    and bits: "unat (b ! i) \<le> 8 * afi_asize afi"
    and x: "subslice b (Suc i) (Suc i + prefix_bytes (unat (b ! i))) = Some x"
    and i': "i' = Suc i + prefix_bytes (unat (b ! i))" "i' \<le> length b"
    and acc': "acc' = acc @ [\<lparr>Prefix = \<lparr>IP = go_copy (replicate (afi_asize afi) 0) x,
      Mask = cidr_mask (afi_asize afi) (unat (b ! i))\<rparr>, PathId = 0\<rparr>]"
    by (auto simp: ParseNLRI_body_def Let_def nth_afi_masks split: if_splits Option.bind_splits)
  from False acc' i' parsed_item [OF bits x, of i path] take_Suc_nth [OF len] show ?thesis by auto
qed

lemma ParseNLRI_body_total: "ParseNLRI_body b afi path s \<noteq> None"
  by (cases s) (auto simp: ParseNLRI_body_def Let_def subslice_def split: if_splits Option.bind_splits)

lemma ParseNLRI_body_Done:
  "ParseNLRI_body b afi path (i, acc) = Some (Done (ns, err)) \<Longrightarrow>
    (ns = acc \<or> ns = []) \<and> (err = None \<longrightarrow> ns = acc \<and> length b \<le> i)"
  by (auto simp: ParseNLRI_body_def Let_def split: if_splits Option.bind_splits)

lemma nlri_ok_form:
  assumes "nlri_ok afi path n"
  obtains bits x pathid where
    "n = \<lparr>Prefix = \<lparr>IP = go_copy (replicate (afi_asize afi) 0) x,
       Mask = cidr_mask (afi_asize afi) bits\<rparr>, PathId = pathid\<rparr>"
    "bits \<le> 8 * afi_asize afi" "length x = prefix_bytes bits" "path \<or> pathid = 0"
proof -
  define bits where "bits = fst (IPMask_Size (Mask (Prefix n)))"
  define x where "x = take (prefix_bytes bits) (IP (Prefix n))"
  from assms have ok: "length (IP (Prefix n)) = afi_asize afi" "bits \<le> 8 * afi_asize afi"
    "Mask (Prefix n) = cidr_mask (afi_asize afi) bits"
    "drop (prefix_bytes bits) (IP (Prefix n)) = replicate (afi_asize afi - prefix_bytes bits) 0"
    "path \<or> PathId n = 0"
    by (simp_all add: nlri_ok_def bits_def Let_def)
  have len: "length x = prefix_bytes bits"
    using ok(1) prefix_bytes_le [OF ok(2)] by (simp add: x_def)
  moreover have "IP (Prefix n) = go_copy (replicate (afi_asize afi) 0) x"
    using ok(4) len prefix_bytes_le [OF ok(2)]
    by (simp add: go_copy_def x_def) (metis append_take_drop_id)
  ultimately show ?thesis
    using that [of x bits "PathId n"] ok by simp
qed

lemma ParseNLRI_body_item:
  assumes "nlri_ok afi path n" and "NLRI_Write path n = Some bs"
  shows "ParseNLRI_body (pre @ bs @ post) afi path (length pre, acc) =
    Some (Next (length pre + length bs, acc @ [n]))"
proof -
  from assms(1) obtain bits x pathid where n:
    "n = \<lparr>Prefix = \<lparr>IP = go_copy (replicate (afi_asize afi) 0) x,
       Mask = cidr_mask (afi_asize afi) bits\<rparr>, PathId = pathid\<rparr>"
    and bits: "bits \<le> 8 * afi_asize afi" and x: "length x = prefix_bytes bits"
    and path: "path \<or> pathid = 0"
    by (rule nlri_ok_form)
  have bs: "bs = (if path then be32 pathid else []) @ [of_nat bits] @ x"
    using parsed_nlri_Write [OF bits x, of path pathid] assms(2) n by simp
  have unat: "unat (of_nat bits :: byte) = bits"
    using bits afi_asize_le [of afi] by simp
  show ?thesis
  proof (cases path)
    case True
    then show ?thesis
      using bs bits x n unat
      by (simp add: ParseNLRI_body_def Let_def be32_def subslice_def idx_def nth_append nth_afi_masks)
  next
    case False
    then show ?thesis
      using bs bits x n unat path
      by (simp add: ParseNLRI_body_def Let_def subslice_def idx_def nth_append nth_afi_masks)
  qed
qed

definition nlri_inv :: "bytes \<Rightarrow> u16 \<Rightarrow> bool \<Rightarrow> nat \<times> NLRI list \<Rightarrow> bool" where
  "nlri_inv b afi path s \<longleftrightarrow>
     fst s \<le> length b \<and> list_all (nlri_ok afi path) (snd s) \<and>
     write_all (NLRI_Write path) (snd s) = Some (take (fst s) b)"

definition nlri_post :: "bytes \<Rightarrow> u16 \<Rightarrow> bool \<Rightarrow> NLRI list \<times> bgp_error option \<Rightarrow> bool" where
  "nlri_post b afi path r \<longleftrightarrow>
     list_all (nlri_ok afi path) (fst r) \<and>
     (snd r = None \<longrightarrow> write_all (NLRI_Write path) (fst r) = Some b)"

lemma nlri_inv_Next:
  assumes "nlri_inv b afi path (i, acc)" and "ParseNLRI_body b afi path (i, acc) = Some (Next s')"
  shows "nlri_inv b afi path s' \<and> length b - fst s' < length b - i"
proof -
  obtain i' acc' where s': "s' = (i', acc')" by fastforce
  from ParseNLRI_body_Next [OF assms(2) [unfolded s']] obtain n bs where
    "acc' = acc @ [n]" "nlri_ok afi path n" "NLRI_Write path n = Some bs"
    "take i' b = take i b @ bs" "i < i'" "i' \<le> length b"
    by blast
  with s' assms(1) show ?thesis by (auto simp: nlri_inv_def intro: write_all_snoc)
qed

lemma nlri_inv_Done:
  assumes "nlri_inv b afi path (i, acc)" and "ParseNLRI_body b afi path (i, acc) = Some (Done r)"
  shows "nlri_post b afi path r"
  using assms ParseNLRI_body_Done [of b afi path i acc "fst r" "snd r"]
  by (auto simp: nlri_inv_def nlri_post_def)

interpretation nlri_loop: go_loop_contract
  "ParseNLRI_body b afi path" "nlri_inv b afi path" "\<lambda>s. length b - fst s" "nlri_post b afi path"
  for b afi path
proof unfold_locales
  fix s assume inv: "nlri_inv b afi path s"
  obtain i acc where s: "s = (i, acc)" by fastforce
  obtain c where c: "ParseNLRI_body b afi path s = Some c"
    using ParseNLRI_body_total by blast
  with s inv nlri_inv_Next nlri_inv_Done
  show "(\<exists>s'. ParseNLRI_body b afi path s = Some (Next s') \<and> nlri_inv b afi path s' \<and>
        length b - fst s' < length b - fst s) \<or>
      (\<exists>r. ParseNLRI_body b afi path s = Some (Done r) \<and> nlri_post b afi path r)"
    by (cases c) auto
qed

interpretation nlri_dec: list_decoder
  "NLRI_Write path" "nlri_ok afi path" "\<lambda>_ b. ParseNLRI_body b afi path"
  "\<lambda>lim b. lim = length b" "\<lambda>n. n" "\<lambda>_ ns. (ns, None)"
  for afi path
  by unfold_locales (simp_all add: ParseNLRI_body_item, simp add: ParseNLRI_body_def)

lemma ParseNLRI_returns:
  "\<exists>ns err. ParseNLRI b afi safi path = Some (ns, err) \<and> list_all (nlri_ok afi path) ns \<and>
     (err = None \<longrightarrow> write_all (NLRI_Write path) ns = Some b)"
  using nlri_loop.loop_returns [of b afi path "(0, [])"]
  by (auto simp: ParseNLRI_def nlri_inv_def nlri_post_def)

lemma ParseNLRI_no_panic: "ParseNLRI b afi safi path \<noteq> None"
  using ParseNLRI_returns [of b afi safi path] by auto

lemma ParseNLRI_result_ok:
  "ParseNLRI b afi safi path = Some (ns, err) \<Longrightarrow> list_all (nlri_ok afi path) ns"
  using ParseNLRI_returns [of b afi safi path] by auto

lemma ParseNLRI_Write:
  assumes "afi = AFI_IPV4 \<or> afi = AFI_IPV6"
    and "list_all (nlri_ok afi path) ns" and "write_all (NLRI_Write path) ns = Some b"
  shows "ParseNLRI b afi safi path = Some (ns, None)"
  using nlri_dec.decode_all [OF assms(2,3), of "[]" "[]" "[]"] assms(1)
  by (auto simp: ParseNLRI_def)

lemma write_all_NLRI_length:
  "write_all (NLRI_Write path) ns = Some bs \<Longrightarrow> length bs = (\<Sum>n\<leftarrow>ns. NLRI_Len n path)"
  by (erule write_all_length) (rule NLRI_Write_length)

lemma write_all_NLRI_ok:
  "list_all (nlri_ok afi path) ns \<Longrightarrow> \<exists>bs. write_all (NLRI_Write path) ns = Some bs"
  by (rule write_all_returns) (auto simp: list_all_iff intro: NLRI_Write_ok)

section \<open>Properties\<close>

text \<open>
  On every input \<open>ParseNLRI\<close> returns (its loop ends and no index or slice is out of range), and
  every prefix it returns, with or without an error, is well formed for the address family: the
  address has the family's size, the mask is the CIDR mask of at most that many bits, the address
  is zero beyond the announced bytes, and the path identifier is zero unless add-path is on.
\<close>

theorem ParseNLRI_safe:
  "\<exists>ns err. ParseNLRI b afi safi path = Some (ns, err) \<and> list_all (nlri_ok afi path) ns"
  using ParseNLRI_returns [of b afi safi path] by auto

text \<open>
  C16: For IPv4 and IPv6, with and without add-path, \<open>ParseNLRI\<close> is exactly the inverse of
  writing prefixes: it accepts a buffer with result \<open>ns\<close> if and only if the prefixes are well
  formed and writing them one after the other gives the buffer back byte for byte.
\<close>

theorem ParseNLRI_iff_Write:
  assumes "afi = AFI_IPV4 \<or> afi = AFI_IPV6"
  shows "ParseNLRI b afi safi path = Some (ns, None) \<longleftrightarrow>
    list_all (nlri_ok afi path) ns \<and> write_all (NLRI_Write path) ns = Some b"
proof
  assume "ParseNLRI b afi safi path = Some (ns, None)"
  with ParseNLRI_returns [of b afi safi path] show
    "list_all (nlri_ok afi path) ns \<and> write_all (NLRI_Write path) ns = Some b"
    by simp
next
  assume "list_all (nlri_ok afi path) ns \<and> write_all (NLRI_Write path) ns = Some b"
  with assms show "ParseNLRI b afi safi path = Some (ns, None)"
    by (simp add: ParseNLRI_Write)
qed

theorem ParseNLRI_iff_Write_witness:
  "ParseNLRI [24, 10, 1, 2, 8, 11] AFI_IPV4 SAFI_UNICAST False =
     Some ([\<lparr>Prefix = \<lparr>IP = [10, 1, 2, 0], Mask = [0xff, 0xff, 0xff, 0]\<rparr>, PathId = 0\<rparr>,
            \<lparr>Prefix = \<lparr>IP = [11, 0, 0, 0], Mask = [0xff, 0, 0, 0]\<rparr>, PathId = 0\<rparr>], None)"
  by (subst ParseNLRI_iff_Write)
    (simp_all add: nlri_ok_def NLRI_Write_def GetSplitLen_def IPMask_Size_def prefix_bytes_def
      subslice_def afi_asize_def cidr_mask_def cidr_byte_def upt_rec replicate_numeral)

end
