(* ===== verification/Bgp_Attributes.thy ===== *)
theory Bgp_Attributes
  imports NLRI
begin

text \<open>
  The path attributes of an UPDATE (\<^verbatim>\<open>messages/bgp_update.go\<close>): their data, lengths, writers and
  \<open>ParsePathAttribute\<close>. Each attribute struct is a constructor of \<open>BGPAttr\<close>; an interface value
  records whether it holds the struct or a pointer. A writer can panic, as a prefix of an
  ill-formed address does when it is sliced. Lemmas: the length announced is the length written;
  the parser returns on every input with well-formed attributes; attributes written in a row are
  parsed back.
\<close>

section \<open>Data\<close>

record ASPath_Segment =
  SType :: byte
  seg_ASPath :: "u32 list"

record LargeCommunity =
  GlobalAdmin :: u32
  LocalData1 :: u32
  LocalData2 :: u32

record MP_REACH =
  mr_Afi :: u16
  mr_Safi :: byte
  mr_NextHop :: bytes
  mr_NLRI :: "NLRI list"
  mr_EnableAddPath :: bool

record MP_UNREACH =
  mu_Afi :: u16
  mu_Safi :: byte
  mu_NLRI :: "NLRI list"
  mu_EnableAddPath :: bool

datatype BGPAttr =
    BGPAttribute_ORIGIN byte
  | BGPAttribute_MED u32
  | BGPAttribute_LOCPREF u32
  | BGPAttribute_AGGREGATOR u32 bytes bool
  | BGPAttribute_ATOMIC_AGGREGATE
  | BGPAttribute_ASPATH "ASPath_Segment list" bool
  | BGPAttribute_NEXTHOP bytes
  | BGPAttribute_COMMUNITIES "u32 list"
  | BGPAttribute_LARGECOMMUNITIES "LargeCommunity list"
  | BGPAttribute_MP_REACH MP_REACH
  | BGPAttribute_MP_UNREACH MP_UNREACH
  | BGPAttribute byte byte bytes

type_synonym BGPAttributeIf = "BGPAttr iface"

section \<open>Lengths\<close>

definition AttributeHeaderLen :: "nat \<Rightarrow> nat" where
  "AttributeHeaderLen n = (if n > 0xff then 4 else 3)"

definition IPtoBytes :: "bytes \<Rightarrow> bytes" where
  "IPtoBytes ip = (if To4 ip = None then nil_empty (To16 ip) else nil_empty (To4 ip))"

definition LenSets :: "ASPath_Segment \<Rightarrow> nat" where
  "LenSets m = (let aspathlen = length (seg_ASPath m); itera = aspathlen div 0xff
     in if aspathlen mod 0xff \<noteq> 0 then itera + 1 else itera)"

definition Segment_LenContent :: "bool \<Rightarrow> ASPath_Segment \<Rightarrow> nat" where
  "Segment_LenContent enc2bytes m =
     (if length (seg_ASPath m) = 0 then 0
      else let numsets = LenSets m in
        if enc2bytes then 2 * numsets + 2 * length (seg_ASPath m)
        else 2 * numsets + 4 * length (seg_ASPath m))"

definition ASPATH_LenContent :: "ASPath_Segment list \<Rightarrow> bool \<Rightarrow> nat" where
  "ASPATH_LenContent segments enc2bytes = (\<Sum>s\<leftarrow>segments. Segment_LenContent enc2bytes s)"

definition GetNextHopLen :: "MP_REACH \<Rightarrow> nat" where
  "GetNextHopLen m = length (IPtoBytes (mr_NextHop m))"

definition MP_REACH_ContentLen :: "MP_REACH \<Rightarrow> nat" where
  "MP_REACH_ContentLen m =
     4 + GetNextHopLen m + 1 + (\<Sum>n\<leftarrow>mr_NLRI m. NLRI_Len n (mr_EnableAddPath m))"

definition MP_UNREACH_ContentLen :: "MP_UNREACH \<Rightarrow> nat" where
  "MP_UNREACH_ContentLen m = 3 + (\<Sum>n\<leftarrow>mu_NLRI m. NLRI_Len n (mu_EnableAddPath m))"

definition ORIGIN_Len :: nat where
  "ORIGIN_Len = AttributeHeaderLen 1 + 1"

definition AGGREGATOR_Len :: nat where
  "AGGREGATOR_Len = AttributeHeaderLen 8 + 8"

definition ATOMIC_AGGREGATE_Len :: nat where
  "ATOMIC_AGGREGATE_Len = AttributeHeaderLen 0"

definition MED_Len :: nat where
  "MED_Len = AttributeHeaderLen 4 + 4"

definition LOCPREF_Len :: nat where
  "LOCPREF_Len = AttributeHeaderLen 4 + 4"

definition ASPATH_Len :: "ASPath_Segment list \<Rightarrow> bool \<Rightarrow> nat" where
  "ASPATH_Len segments enc2bytes =
     (let n = (\<Sum>s\<leftarrow>segments. Segment_LenContent enc2bytes s) in AttributeHeaderLen n + n)"

definition COMMUNITIES_LenContent :: "u32 list \<Rightarrow> nat" where
  "COMMUNITIES_LenContent cs = 4 * length cs"

definition COMMUNITIES_Len :: "u32 list \<Rightarrow> nat" where
  "COMMUNITIES_Len cs = (let n = COMMUNITIES_LenContent cs in AttributeHeaderLen n + n)"

definition LARGECOMMUNITIES_LenContent :: "LargeCommunity list \<Rightarrow> nat" where
  "LARGECOMMUNITIES_LenContent cs = 12 * length cs"

definition LARGECOMMUNITIES_Len :: "LargeCommunity list \<Rightarrow> nat" where
  "LARGECOMMUNITIES_Len cs = (let n = LARGECOMMUNITIES_LenContent cs in AttributeHeaderLen n + n)"

definition MP_REACH_Len :: "MP_REACH \<Rightarrow> nat" where
  "MP_REACH_Len m = (let n = MP_REACH_ContentLen m in AttributeHeaderLen n + n)"

definition MP_UNREACH_Len :: "MP_UNREACH \<Rightarrow> nat" where
  "MP_UNREACH_Len m = (let n = MP_UNREACH_ContentLen m in AttributeHeaderLen n + n)"

definition NEXTHOP_ContentLen :: "bytes \<Rightarrow> nat" where
  "NEXTHOP_ContentLen nexthop = (let ip = IPtoBytes nexthop in length ip)"

definition NEXTHOP_Len :: "bytes \<Rightarrow> nat" where
  "NEXTHOP_Len nexthop = (let n = NEXTHOP_ContentLen nexthop in AttributeHeaderLen n + n)"

definition BGPAttribute_Len :: "bytes \<Rightarrow> nat" where
  "BGPAttribute_Len data = (let n = length data in AttributeHeaderLen n + n)"

text \<open>The method \<^verbatim>\<open>Len\<close> of the interface, by the dynamic type.\<close>

primrec Attr_Len :: "BGPAttr \<Rightarrow> nat" where
  "Attr_Len (BGPAttribute_ORIGIN origin) = ORIGIN_Len"
| "Attr_Len (BGPAttribute_MED med) = MED_Len"
| "Attr_Len (BGPAttribute_LOCPREF locpref) = LOCPREF_Len"
| "Attr_Len (BGPAttribute_AGGREGATOR asn ident enc2bytes) = AGGREGATOR_Len"
| "Attr_Len BGPAttribute_ATOMIC_AGGREGATE = ATOMIC_AGGREGATE_Len"
| "Attr_Len (BGPAttribute_ASPATH segments enc2bytes) = ASPATH_Len segments enc2bytes"
| "Attr_Len (BGPAttribute_NEXTHOP nexthop) = NEXTHOP_Len nexthop"
| "Attr_Len (BGPAttribute_COMMUNITIES cs) = COMMUNITIES_Len cs"
| "Attr_Len (BGPAttribute_LARGECOMMUNITIES cs) = LARGECOMMUNITIES_Len cs"
| "Attr_Len (BGPAttribute_MP_REACH m) = MP_REACH_Len m"
| "Attr_Len (BGPAttribute_MP_UNREACH m) = MP_UNREACH_Len m"
| "Attr_Len (BGPAttribute flags code data) = BGPAttribute_Len data"

lemmas attr_len_defs [simp] =
  ORIGIN_Len_def AGGREGATOR_Len_def ATOMIC_AGGREGATE_Len_def MED_Len_def LOCPREF_Len_def
  ASPATH_Len_def COMMUNITIES_LenContent_def COMMUNITIES_Len_def LARGECOMMUNITIES_LenContent_def
  LARGECOMMUNITIES_Len_def MP_REACH_Len_def MP_UNREACH_Len_def NEXTHOP_ContentLen_def NEXTHOP_Len_def
  BGPAttribute_Len_def

section \<open>Writers\<close>

definition WriteAttributeHeader :: "nat \<Rightarrow> byte \<Rightarrow> byte \<Rightarrow> bytes" where
  "WriteAttributeHeader n attrflag attrcode =
     (let extended = (if n > 0xff then ATTRIBUTE_EXTENDED else 0)
      in [(attrflag AND NOT ATTRIBUTE_EXTENDED) OR extended] @ [attrcode] @
         (if extended \<noteq> 0 then [of_nat (drop_bit 8 (n AND 0xff00))] else []) @
         [of_nat (n AND 0xff)])"

definition asn_bytes :: "bool \<Rightarrow> u32 \<Rightarrow> bytes" where
  "asn_bytes enc2bytes asn = (if enc2bytes then be16 (ucast asn) else be32 asn)"

definition Segment_Write :: "bool \<Rightarrow> ASPath_Segment \<Rightarrow> bytes" where
  "Segment_Write enc2bytes m =
     (let len = length (seg_ASPath m) in
      if len = 0 then []
      else let itera = LenSets m in
        concat (map (\<lambda>i.
          let cursetlen = (if i = itera - 1 then of_nat (len mod 0xff) else 0xff)
          in [SType m] @ [cursetlen] @
             concat (map (\<lambda>j. asn_bytes enc2bytes (seg_ASPath m ! j)) [0xff * i..<min len (0xff * (i + 1))]))
          [0..<itera]))"

definition LargeCommunity_Write :: "LargeCommunity \<Rightarrow> bytes" where
  "LargeCommunity_Write c = be32 (GlobalAdmin c) @ be32 (LocalData1 c) @ be32 (LocalData2 c)"

definition MP_REACH_Write :: "MP_REACH \<Rightarrow> bytes go" where
  "MP_REACH_Write m = do {
     nlri \<leftarrow> write_all (NLRI_Write (mr_EnableAddPath m)) (mr_NLRI m);
     Some (WriteAttributeHeader (MP_REACH_ContentLen m) ATTRIBUTE_OPTIONAL ATTRIBUTE_REACH @
       be16 (mr_Afi m) @ [mr_Safi m] @ [of_nat (GetNextHopLen m)] @ IPtoBytes (mr_NextHop m) @ [0] @ nlri)
   }"

definition MP_UNREACH_Write :: "MP_UNREACH \<Rightarrow> bytes go" where
  "MP_UNREACH_Write m = do {
     nlri \<leftarrow> write_all (NLRI_Write (mu_EnableAddPath m)) (mu_NLRI m);
     Some (WriteAttributeHeader (MP_UNREACH_ContentLen m) ATTRIBUTE_OPTIONAL ATTRIBUTE_UNREACH @
       be16 (mu_Afi m) @ [mu_Safi m] @ nlri)
   }"

definition ORIGIN_Write :: "byte \<Rightarrow> bytes" where
  "ORIGIN_Write origin = [ATTRIBUTE_TRANSITIVE] @ [ATTRIBUTE_ORIGIN] @ [1] @ [origin]"

definition AGGREGATOR_Write :: "u32 \<Rightarrow> bytes \<Rightarrow> bytes" where
  "AGGREGATOR_Write asn ident = [ATTRIBUTE_OPTIONAL] @ [ATTRIBUTE_AGGREGATOR] @ [8] @ be32 asn @ ident"

definition ATOMIC_AGGREGATE_Write :: bytes where
  "ATOMIC_AGGREGATE_Write = WriteAttributeHeader 0 ATTRIBUTE_OPTIONAL ATTRIBUTE_ATOMIC_AGGREGATE"

definition MED_Write :: "u32 \<Rightarrow> bytes" where
  "MED_Write med = [ATTRIBUTE_OPTIONAL] @ [ATTRIBUTE_MED] @ [4] @ be32 med"

definition LOCPREF_Write :: "u32 \<Rightarrow> bytes" where
  "LOCPREF_Write locpref = WriteAttributeHeader 4 ATTRIBUTE_OPTIONAL ATTRIBUTE_LOCPREF @ be32 locpref"

definition ASPATH_Write :: "ASPath_Segment list \<Rightarrow> bool \<Rightarrow> bytes" where
  "ASPATH_Write segments enc2bytes =
     WriteAttributeHeader (ASPATH_LenContent segments enc2bytes) ATTRIBUTE_TRANSITIVE ATTRIBUTE_ASPATH @
     (if length segments = 0 then [] else concat (map (Segment_Write enc2bytes) segments))"

definition COMMUNITIES_Write :: "u32 list \<Rightarrow> bytes" where
  "COMMUNITIES_Write cs =
     WriteAttributeHeader (COMMUNITIES_LenContent cs) ATTRIBUTE_TRANSITIVEOPT ATTRIBUTE_COMMUNITIES @
     concat (map be32 cs)"

definition LARGECOMMUNITIES_Write :: "LargeCommunity list \<Rightarrow> bytes" where
  "LARGECOMMUNITIES_Write cs =
     WriteAttributeHeader (LARGECOMMUNITIES_LenContent cs) ATTRIBUTE_TRANSITIVEOPT
       ATTRIBUTE_LARGECOMMUNITIES @
     concat (map LargeCommunity_Write cs)"

definition NEXTHOP_Write :: "bytes \<Rightarrow> bytes" where
  "NEXTHOP_Write nexthop =
     WriteAttributeHeader (NEXTHOP_ContentLen nexthop) ATTRIBUTE_TRANSITIVE ATTRIBUTE_NEXTHOP @
     IPtoBytes nexthop"

definition BGPAttribute_Write :: "byte \<Rightarrow> byte \<Rightarrow> bytes \<Rightarrow> bytes" where
  "BGPAttribute_Write flags code data = WriteAttributeHeader (length data) flags code @ data"

text \<open>The method \<^verbatim>\<open>Write\<close> of the interface, by the dynamic type.\<close>

primrec Attr_Write :: "BGPAttr \<Rightarrow> bytes go" where
  "Attr_Write (BGPAttribute_ORIGIN origin) = Some (ORIGIN_Write origin)"
| "Attr_Write (BGPAttribute_MED med) = Some (MED_Write med)"
| "Attr_Write (BGPAttribute_LOCPREF locpref) = Some (LOCPREF_Write locpref)"
| "Attr_Write (BGPAttribute_AGGREGATOR asn ident enc2bytes) = Some (AGGREGATOR_Write asn ident)"
| "Attr_Write BGPAttribute_ATOMIC_AGGREGATE = Some ATOMIC_AGGREGATE_Write"
| "Attr_Write (BGPAttribute_ASPATH segments enc2bytes) = Some (ASPATH_Write segments enc2bytes)"
| "Attr_Write (BGPAttribute_NEXTHOP nexthop) = Some (NEXTHOP_Write nexthop)"
| "Attr_Write (BGPAttribute_COMMUNITIES cs) = Some (COMMUNITIES_Write cs)"
| "Attr_Write (BGPAttribute_LARGECOMMUNITIES cs) = Some (LARGECOMMUNITIES_Write cs)"
| "Attr_Write (BGPAttribute_MP_REACH m) = MP_REACH_Write m"
| "Attr_Write (BGPAttribute_MP_UNREACH m) = MP_UNREACH_Write m"
| "Attr_Write (BGPAttribute flags code data) = Some (BGPAttribute_Write flags code data)"

lemmas attr_write_defs [simp] =
  ORIGIN_Write_def AGGREGATOR_Write_def ATOMIC_AGGREGATE_Write_def MED_Write_def LOCPREF_Write_def
  ASPATH_Write_def COMMUNITIES_Write_def LARGECOMMUNITIES_Write_def NEXTHOP_Write_def
  BGPAttribute_Write_def

text \<open>The abbreviated MP_REACH of MRT RIB entries: the next hop only.\<close>

definition MP_REACH_LenMrt :: "MP_REACH \<Rightarrow> u16" where
  "MP_REACH_LenMrt m = (let ip = IPtoBytes (mr_NextHop m) in 2 + 1 + 1 + of_nat (length ip))"

definition MP_REACH_WriteMrt :: "MP_REACH \<Rightarrow> bytes" where
  "MP_REACH_WriteMrt m =
     (let nhb = IPtoBytes (mr_NextHop m); lengthnh = length nhb
      in [ATTRIBUTE_OPTIONAL] @ [ATTRIBUTE_REACH] @ [of_nat (1 + lengthnh)] @ [of_nat lengthnh] @ nhb)"

section \<open>ParsePathAttribute\<close>

text \<open>\<^verbatim>\<open>uint16(b[i])<<8|uint16(b[i+1])\<close> and its four-byte analogue.\<close>

definition get16 :: "bytes \<Rightarrow> nat \<Rightarrow> u16 go" where
  "get16 b i = do { b0 \<leftarrow> idx b i; b1 \<leftarrow> idx b (i + 1); Some (u16_of b0 b1) }"

definition get32 :: "bytes \<Rightarrow> nat \<Rightarrow> u32 go" where
  "get32 b i = do {
     b0 \<leftarrow> idx b i; b1 \<leftarrow> idx b (i + 1); b2 \<leftarrow> idx b (i + 2); b3 \<leftarrow> idx b (i + 3);
     Some (u32_of b0 b1 b2 b3)
   }"

text \<open>The loop that reads the AS numbers of a segment; the first argument is \<^verbatim>\<open>aslen - j\<close>.\<close>

primrec read_asns ::
  "nat \<Rightarrow> nat \<Rightarrow> bytes \<Rightarrow> bool \<Rightarrow> nat \<Rightarrow> u32 list \<Rightarrow> (nat \<times> u32 list) go" where
  "read_asns 0 j data enc2bytes pos path = Some (pos, path)"
| "read_asns (Suc k) j data enc2bytes pos path =
     (if \<not> enc2bytes then
        if pos + 4 \<le> length data then do {
          asn \<leftarrow> get32 data pos;
          path \<leftarrow> set_idx path j asn;
          read_asns k (j + 1) data enc2bytes (pos + 4) path
        } else Some (pos, path)
      else
        if pos + 2 \<le> length data then do {
          asn \<leftarrow> get16 data pos;
          path \<leftarrow> set_idx path j (ucast asn);
          read_asns k (j + 1) data enc2bytes (pos + 2) path
        } else Some (pos, path))"

definition aspath_body ::
  "bytes \<Rightarrow> bool \<Rightarrow> nat \<times> ASPath_Segment list \<Rightarrow>
    (nat \<times> ASPath_Segment list, ASPath_Segment list) ctl go" where
  "aspath_body data enc2bytes = (\<lambda>(pos, segments).
     if pos < length data then
       if pos \<ge> length data then Some (Done segments)
       else do {
         stype \<leftarrow> idx data pos;
         let pos = pos + 1 in
         if pos \<ge> length data then Some (Done segments)
         else do {
           aslen \<leftarrow> idx data pos;
           let pos = pos + 1 in do {
             (pos, path) \<leftarrow>
               read_asns (unat aslen) 0 data enc2bytes pos (replicate (unat aslen) 0);
             Some (Next (pos, segments @ [\<lparr>SType = stype, seg_ASPath = path\<rparr>]))
           }
         }
       }
     else Some (Done segments))"

definition parse_aspath :: "bytes \<Rightarrow> bool \<Rightarrow> ASPath_Segment list go" where
  "parse_aspath data enc2bytes = go_loop (aspath_body data enc2bytes) (0, [])"

text \<open>
  The value of one attribute (the body of the switch over the attribute code). On failure the
  caller returns the attributes parsed so far (\<open>FailKeep\<close>) or nil (\<open>FailNil\<close>).
\<close>

datatype attr_fail = FailKeep bgp_error | FailNil bgp_error

definition parse_mp_reach :: "bytes \<Rightarrow> AfiSafi list \<Rightarrow> (attr_fail + BGPAttr) go" where
  "parse_mp_reach data addpathlist =
     (if length data < 4 then Some (Inl (FailKeep (ErrReachShort (length data))))
      else do {
        afi \<leftarrow> get16 data 0;
        safi \<leftarrow> idx data 2;
        b3 \<leftarrow> idx data 3;
        let nhlen = unat b3; pos = 4 in
        if pos + nhlen > length data
        then Some (Inl (FailKeep (ErrReachNextHop nhlen (length data))))
        else do {
          x \<leftarrow> subslice data pos (pos + nhlen);
          let nh = go_copy (replicate nhlen 0) x;
              pos = pos + nhlen;
              pos = pos + 1 in
          if pos > length data then Some (Inl (FailKeep ErrReachNoNLRI))
          else do {
            rest \<leftarrow> subslice data pos (length data);
            let parseinfo = InAfiSafi afi safi addpathlist in do {
              (nlri, _) \<leftarrow> ParseNLRI rest afi safi parseinfo;
              Some (Inr (BGPAttribute_MP_REACH \<lparr>mr_Afi = afi, mr_Safi = safi, mr_NextHop = nh,
                mr_NLRI = nlri, mr_EnableAddPath = parseinfo\<rparr>))
            }
          }
        }
      })"

definition parse_mp_unreach :: "bytes \<Rightarrow> AfiSafi list \<Rightarrow> (attr_fail + BGPAttr) go" where
  "parse_mp_unreach data addpathlist =
     (if length data < 3 then Some (Inl (FailKeep (ErrUnreachShort (length data))))
      else do {
        afi \<leftarrow> get16 data 0;
        safi \<leftarrow> idx data 2;
        rest \<leftarrow> subslice data 3 (length data);
        let parseinfo = InAfiSafi afi safi addpathlist in do {
          (nlri, _) \<leftarrow> ParseNLRI rest afi safi parseinfo;
          Some (Inr (BGPAttribute_MP_UNREACH \<lparr>mu_Afi = afi, mu_Safi = safi, mu_NLRI = nlri,
            mu_EnableAddPath = False\<rparr>))
        }
      })"

definition parse_aggregator :: "bytes \<Rightarrow> bool \<Rightarrow> BGPAttr go" where
  "parse_aggregator data enc2bytes =
     (if length data = 8 \<and> \<not> enc2bytes then do {
        asn \<leftarrow> get32 data 0;
        ident \<leftarrow> subslice data 4 8;
        Some (BGPAttribute_AGGREGATOR asn ident enc2bytes)
      }
      else if length data = 6 \<and> enc2bytes then do {
        asn \<leftarrow> get16 data 0;
        ident \<leftarrow> subslice data 2 6;
        Some (BGPAttribute_AGGREGATOR (ucast asn) ident enc2bytes)
      }
      else Some (BGPAttribute_AGGREGATOR 0 [] enc2bytes))"

definition attr_value ::
  "byte \<Rightarrow> byte \<Rightarrow> nat \<Rightarrow> bytes \<Rightarrow> AfiSafi list \<Rightarrow> bool \<Rightarrow> (attr_fail + BGPAttr) go" where
  "attr_value attrflag attrcode len data addpathlist enc2bytes =
     (if attrcode = ATTRIBUTE_ORIGIN then
        if length data > 0 then do { o' \<leftarrow> idx data 0; Some (Inr (BGPAttribute_ORIGIN o')) }
        else Some (Inl (FailKeep ErrOriginEmpty))
      else if attrcode = ATTRIBUTE_MED then
        if length data < 4 then Some (Inl (FailKeep ErrMedShort))
        else do { med \<leftarrow> get32 data 0; Some (Inr (BGPAttribute_MED med)) }
      else if attrcode = ATTRIBUTE_AGGREGATOR then
        do { a \<leftarrow> parse_aggregator data enc2bytes; Some (Inr a) }
      else if attrcode = ATTRIBUTE_ATOMIC_AGGREGATE then Some (Inr BGPAttribute_ATOMIC_AGGREGATE)
      else if attrcode = ATTRIBUTE_LOCPREF then
        if length data < 4 then Some (Inl (FailKeep ErrLocPrefShort))
        else do { locpref \<leftarrow> get32 data 0; Some (Inr (BGPAttribute_LOCPREF locpref)) }
      else if attrcode = ATTRIBUTE_ASPATH then
        do { segments \<leftarrow> parse_aspath data enc2bytes; Some (Inr (BGPAttribute_ASPATH segments enc2bytes)) }
      else if attrcode = ATTRIBUTE_NEXTHOP then
        if length data < 4 then Some (Inl (FailNil (ErrNextHopSize (length data))))
        else do { nh \<leftarrow> subslice data 0 4; Some (Inr (BGPAttribute_NEXTHOP nh)) }
      else if attrcode = ATTRIBUTE_COMMUNITIES then do {
        cs \<leftarrow> mapM_go (\<lambda>j. get32 data (j * 4)) [0..<len div 4];
        Some (Inr (BGPAttribute_COMMUNITIES cs))
      }
      else if attrcode = ATTRIBUTE_LARGECOMMUNITIES then do {
        cs \<leftarrow> mapM_go (\<lambda>j. let off = j * 12 in do {
          g \<leftarrow> get32 data off; l1 \<leftarrow> get32 data (off + 4); l2 \<leftarrow> get32 data (off + 8);
          Some \<lparr>GlobalAdmin = g, LocalData1 = l1, LocalData2 = l2\<rparr>
        }) [0..<len div 12];
        Some (Inr (BGPAttribute_LARGECOMMUNITIES cs))
      }
      else if attrcode = ATTRIBUTE_REACH then parse_mp_reach data addpathlist
      else if attrcode = ATTRIBUTE_UNREACH then parse_mp_unreach data addpathlist
      else Some (Inr (BGPAttribute attrflag attrcode data)))"

definition ParsePathAttribute_body ::
  "bytes \<Rightarrow> AfiSafi list \<Rightarrow> bool \<Rightarrow> nat \<times> BGPAttributeIf list \<Rightarrow>
    (nat \<times> BGPAttributeIf list, BGPAttributeIf list \<times> bgp_error option) ctl go" where
  "ParsePathAttribute_body b addpathlist enc2bytes = (\<lambda>(i, attributes).
     if i < length b then
       if length b - i < 3 then Some (Done (attributes, Some (ErrAttrHeader (length b - i))))
       else do {
         attrflag \<leftarrow> idx b i;
         attrcode \<leftarrow> idx b (i + 1);
         b2 \<leftarrow> idx b (i + 2);
         let extended = drop_bit 4 (attrflag AND ATTRIBUTE_EXTENDED) in
         if extended \<noteq> 0 \<and> i + 3 > length b - 1
         then Some (Done (attributes, Some (ErrAttrExtended (i + 3) (length b - 1))))
         else do {
           (offset, len) \<leftarrow>
             (if extended \<noteq> 0 then do { w \<leftarrow> get16 b (i + 2); Some (1, unat w) }
              else Some (0, unat b2));
           if i + offset + 3 + len > length b \<or> i + offset + 3 > length b
           then Some (Done (attributes,
             Some (ErrAttrSize (i + offset + 3 + len) (length b) (i + offset + 3) i extended)))
           else do {
             data \<leftarrow> subslice b (i + offset + 3) (i + offset + 3 + len);
             if i + 3 + offset + len > length b
             then Some (Done (attributes, Some (ErrAttrLength (i + 3 + len) (length b))))
             else do {
               r \<leftarrow> attr_value attrflag attrcode len data addpathlist enc2bytes;
               (case r of
                  Inl (FailKeep e) \<Rightarrow> Some (Done (attributes, Some e))
                | Inl (FailNil e) \<Rightarrow> Some (Done ([], Some e))
                | Inr a \<Rightarrow> Some (Next (i + (3 + len + offset), attributes @ [Val a])))
             }
           }
         }
       }
     else Some (Done (attributes, None)))"

definition ParsePathAttribute ::
  "bytes \<Rightarrow> AfiSafi list \<Rightarrow> bool \<Rightarrow> (BGPAttributeIf list \<times> bgp_error option) go" where
  "ParsePathAttribute b addpathlist enc2bytes =
     go_loop (ParsePathAttribute_body b addpathlist enc2bytes) (0, [])"

section \<open>Lengths\<close>

lemma get16_Some [simp]: "i + 2 \<le> length b \<Longrightarrow> get16 b i = Some (u16_of (b ! i) (b ! (i + 1)))"
  by (simp add: get16_def)

lemma get32_Some [simp]:
  "i + 4 \<le> length b \<Longrightarrow> get32 b i = Some (u32_of (b ! i) (b ! (i + 1)) (b ! (i + 2)) (b ! (i + 3)))"
  by (simp add: get32_def)

lemma get16_append [simp]: "get16 (xs @ ys) (length xs + i) = get16 ys i"
  using idx_append [of xs ys "i + 1"] by (simp add: get16_def)

lemma get32_append [simp]: "get32 (xs @ ys) (length xs + i) = get32 ys i"
  using idx_append [of xs ys "i + 1"] idx_append [of xs ys "i + 2"] idx_append [of xs ys "i + 3"]
  by (simp add: get32_def add.assoc)

lemma get16_be16 [simp]: "get16 (be16 w @ ys) 0 = Some w"
  by (simp add: get16_def be16_def)

lemma get32_be32 [simp]: "get32 (be32 w @ ys) 0 = Some w"
  by (simp add: get32_def be32_def)

lemma get16_at [simp]: "get16 (xs @ be16 w @ ys) (length xs) = Some w"
  using get16_append [of xs "be16 w @ ys" 0] by simp

lemma get32_at [simp]: "get32 (xs @ be32 w @ ys) (length xs) = Some w"
  using get32_append [of xs "be32 w @ ys" 0] by simp

lemma length_WriteAttributeHeader [simp]:
  "length (WriteAttributeHeader n f c) = AttributeHeaderLen n"
  by (simp add: WriteAttributeHeader_def AttributeHeaderLen_def)

definition asn_size :: "bool \<Rightarrow> nat" where
  "asn_size enc2bytes = (if enc2bytes then 2 else 4)"

lemma length_asn_bytes [simp]: "length (asn_bytes e asn) = asn_size e"
  by (simp add: asn_bytes_def asn_size_def)

lemma length_asns_bytes [simp]: "length (concat (map (asn_bytes e) xs)) = asn_size e * length xs"
  by (induction xs) simp_all

text \<open>The segments of at most 255 AS numbers a segment is written as.\<close>

definition chunk :: "nat \<Rightarrow> 'a list \<Rightarrow> 'a list" where
  "chunk i xs = take 0xff (drop (0xff * i) xs)"

definition seg_chunks :: "ASPath_Segment \<Rightarrow> ASPath_Segment list" where
  "seg_chunks m = map (\<lambda>i. m\<lparr>seg_ASPath := chunk i (seg_ASPath m)\<rparr>) [0..<LenSets m]"

lemma map_nth_chunk: "map ((!) xs) [0xff * i..<min (length xs) (0xff * (i + 1))] = chunk i xs"
  by (rule nth_equalityI) (auto simp: chunk_def less_diff_conv add.commute)

lemma concat_nth_chunk:
  "concat (map (\<lambda>j. f (xs ! j)) [0xff * i..<min (length xs) (0xff * (i + 1))]) =
    concat (map f (chunk i xs))"
  using arg_cong [OF map_nth_chunk [of xs i], of "\<lambda>ys. concat (map f ys)"] by (simp add: o_def)

lemma concat_chunks: "concat (map (\<lambda>i. chunk i xs) [0..<n]) = take (0xff * n) xs"
  by (induction n) (simp_all add: chunk_def take_add [symmetric] add.commute)

lemma LenSets_bounds: "length (seg_ASPath m) \<le> 0xff * LenSets m"
proof -
  define q r where "q = length (seg_ASPath m) div 0xff" and "r = length (seg_ASPath m) mod 0xff"
  have "length (seg_ASPath m) = 255 * q + r" "r < 255"
    by (simp_all add: q_def r_def)
  then show ?thesis
    by (simp add: LenSets_def Let_def q_def [symmetric] r_def [symmetric])
qed

lemma sum_chunk_lengths: "(\<Sum>i\<leftarrow>[0..<LenSets m]. length (chunk i (seg_ASPath m))) = length (seg_ASPath m)"
proof -
  have "(\<Sum>i\<leftarrow>[0..<LenSets m]. length (chunk i (seg_ASPath m))) =
      length (concat (map (\<lambda>i. chunk i (seg_ASPath m)) [0..<LenSets m]))"
    by (simp add: length_concat o_def)
  then show ?thesis using LenSets_bounds [of m] by (simp add: concat_chunks)
qed

lemma sum_list_two: "(\<Sum>i\<leftarrow>xs. 2 + k * f i) = 2 * length xs + k * (\<Sum>i\<leftarrow>xs. f i :: nat)"
  by (induction xs) (simp_all add: algebra_simps)

lemma length_Segment_Write: "length (Segment_Write e m) = Segment_LenContent e m"
proof (cases "seg_ASPath m = []")
  case True
  then show ?thesis by (simp add: Segment_Write_def Segment_LenContent_def)
next
  case False
  then have "length (Segment_Write e m) =
      (\<Sum>i\<leftarrow>[0..<LenSets m]. 2 + asn_size e * length (chunk i (seg_ASPath m)))"
    unfolding Segment_Write_def Let_def concat_nth_chunk
    by (simp add: length_concat o_def sum_list_triv mult.commute)
  also have "\<dots> = 2 * LenSets m + asn_size e * length (seg_ASPath m)"
    by (simp only: sum_list_two sum_chunk_lengths length_upt minus_nat.diff_0)
  finally show ?thesis
    using False by (simp add: Segment_LenContent_def asn_size_def)
qed

lemma length_segments_Write:
  "length (concat (map (Segment_Write e) segs)) = ASPATH_LenContent segs e"
  by (induction segs) (simp_all add: ASPATH_LenContent_def length_Segment_Write)

lemma length_LargeCommunity_Write [simp]: "length (LargeCommunity_Write c) = 12"
  by (simp add: LargeCommunity_Write_def)

lemma length_communities [simp]: "length (concat (map be32 cs)) = 4 * length cs"
  by (induction cs) simp_all

lemma length_large_communities [simp]: "length (concat (map LargeCommunity_Write cs)) = 12 * length cs"
  by (induction cs) simp_all

text \<open>\<open>Len\<close> assumes an identifier of four bytes.\<close>

definition attr_sized :: "BGPAttr \<Rightarrow> bool" where
  "attr_sized a = (case a of BGPAttribute_AGGREGATOR asn ident e \<Rightarrow> length ident = 4 | _ \<Rightarrow> True)"

lemma length_MP_REACH_Write: "MP_REACH_Write m = Some bs \<Longrightarrow> length bs = AttributeHeaderLen (MP_REACH_ContentLen m) + MP_REACH_ContentLen m"
  by (auto simp: MP_REACH_Write_def MP_REACH_ContentLen_def GetNextHopLen_def write_all_NLRI_length
      split: Option.bind_splits)

lemma length_MP_UNREACH_Write: "MP_UNREACH_Write m = Some bs \<Longrightarrow> length bs = AttributeHeaderLen (MP_UNREACH_ContentLen m) + MP_UNREACH_ContentLen m"
  by (auto simp: MP_UNREACH_Write_def MP_UNREACH_ContentLen_def write_all_NLRI_length
      split: Option.bind_splits)

lemma Attr_Write_length: "Attr_Write a = Some bs \<Longrightarrow> attr_sized a \<Longrightarrow> length bs = Attr_Len a"
  by (cases a)
    (auto simp: AttributeHeaderLen_def attr_sized_def length_MP_REACH_Write length_MP_UNREACH_Write
      length_segments_Write ASPATH_LenContent_def Let_def)

section \<open>AS paths: what is written is parsed back\<close>

definition asn_norm :: "bool \<Rightarrow> u32 \<Rightarrow> u32" where
  "asn_norm enc2bytes asn = (if enc2bytes then ucast (ucast asn :: u16) else asn)"

definition chunk_Write :: "bool \<Rightarrow> ASPath_Segment \<Rightarrow> bytes" where
  "chunk_Write e s = [SType s, of_nat (length (seg_ASPath s))] @ concat (map (asn_bytes e) (seg_ASPath s))"

definition seg_norm :: "bool \<Rightarrow> ASPath_Segment \<Rightarrow> ASPath_Segment" where
  "seg_norm e s = s\<lparr>seg_ASPath := map (asn_norm e) (seg_ASPath s)\<rparr>"

lemma read_asns_Write:
  "length path = j + length asns \<Longrightarrow>
    read_asns (length asns) j (pre @ concat (map (asn_bytes e) asns) @ post) e (length pre) path =
      Some (length pre + asn_size e * length asns, take j path @ map (asn_norm e) asns)"
proof (induction asns arbitrary: j pre path)
  case Nil
  then show ?case by simp
next
  case (Cons a asns)
  have "read_asns (length asns) (Suc j) ((pre @ asn_bytes e a) @ concat (map (asn_bytes e) asns) @ post) e
      (length (pre @ asn_bytes e a)) (path[j := asn_norm e a]) =
      Some (length (pre @ asn_bytes e a) + asn_size e * length asns,
        take (Suc j) (path[j := asn_norm e a]) @ map (asn_norm e) asns)"
    using Cons.prems by (intro Cons.IH) simp
  moreover have "take (Suc j) (path[j := asn_norm e a]) = take j path @ [asn_norm e a]"
    using Cons.prems by (simp add: take_Suc_conv_app_nth)
  ultimately show ?case
    using Cons.prems
    by (cases e)
      (simp_all add: asn_bytes_def [of _ a] asn_norm_def [of _ a] asn_size_def set_idx_def add.assoc)
qed

lemma aspath_body_item:
  assumes "length (seg_ASPath s) < 256"
  shows "aspath_body (pre @ chunk_Write e s @ post) e (length pre, acc) =
    Some (Next (length pre + length (chunk_Write e s), acc @ [seg_norm e s]))"
proof -
  let ?h = "[SType s, of_nat (length (seg_ASPath s))]"
  have "read_asns (length (seg_ASPath s)) 0
      ((pre @ ?h) @ concat (map (asn_bytes e) (seg_ASPath s)) @ post) e (length (pre @ ?h))
      (replicate (length (seg_ASPath s)) 0) =
      Some (length pre + 2 + asn_size e * length (seg_ASPath s), map (asn_norm e) (seg_ASPath s))"
    by (subst read_asns_Write) simp_all
  then show ?thesis
    using assms by (simp add: aspath_body_def chunk_Write_def Let_def idx_def nth_append seg_norm_def)
qed

interpretation aspath_dec: list_decoder
  "\<lambda>s. Some (chunk_Write e s)" "\<lambda>s. length (seg_ASPath s) < 256" "\<lambda>_ b. aspath_body b e"
  "\<lambda>lim b. lim = length b" "seg_norm e" "\<lambda>_ segs. segs"
  for e
  by unfold_locales (auto simp: aspath_body_item, simp add: aspath_body_def)

lemma write_all_chunks: "write_all (\<lambda>s. Some (chunk_Write e s)) ss = Some (concat (map (chunk_Write e) ss))"
  by (induction ss) simp_all

text \<open>A segment is written as its chunks, unless its last chunk has all 255 numbers.\<close>

definition seg_ok :: "ASPath_Segment \<Rightarrow> bool" where
  "seg_ok m \<longleftrightarrow> seg_ASPath m = [] \<or> length (seg_ASPath m) mod 0xff \<noteq> 0"

lemma length_chunk:
  assumes "i < LenSets m" and "length (seg_ASPath m) mod 0xff \<noteq> 0"
  shows "length (chunk i (seg_ASPath m)) =
    (if i = LenSets m - 1 then length (seg_ASPath m) mod 0xff else 0xff)"
proof -
  define q r where "q = length (seg_ASPath m) div 0xff" and "r = length (seg_ASPath m) mod 0xff"
  have "length (seg_ASPath m) = 255 * q + r" "r < 255"
    by (simp_all add: q_def r_def)
  with assms show ?thesis
    by (auto simp: chunk_def LenSets_def Let_def min_def q_def [symmetric] r_def [symmetric])
qed

lemma Segment_Write_chunks:
  assumes "seg_ok m"
  shows "Segment_Write e m = concat (map (chunk_Write e) (seg_chunks m))"
proof (cases "seg_ASPath m = []")
  case True
  then show ?thesis by (simp add: Segment_Write_def seg_chunks_def LenSets_def)
next
  case False
  with assms have n: "length (seg_ASPath m) mod 0xff \<noteq> 0" by (simp add: seg_ok_def)
  have "map (\<lambda>i. [SType m] @ [if i = LenSets m - 1 then of_nat (length (seg_ASPath m) mod 0xff) else 0xff] @
        concat (map (asn_bytes e) (chunk i (seg_ASPath m)))) [0..<LenSets m] =
      map (\<lambda>i. chunk_Write e (m\<lparr>seg_ASPath := chunk i (seg_ASPath m)\<rparr>)) [0..<LenSets m]"
    using length_chunk [OF _ n] by (intro map_cong refl) (simp add: chunk_Write_def)
  with False show ?thesis
    unfolding Segment_Write_def Let_def concat_nth_chunk seg_chunks_def
    by (simp only: length_0_conv if_False map_map o_def)
qed

definition path_norm :: "bool \<Rightarrow> ASPath_Segment list \<Rightarrow> ASPath_Segment list" where
  "path_norm e segs = map (seg_norm e) (concat (map seg_chunks segs))"

lemma parse_aspath_Write:
  assumes "list_all seg_ok segs"
  shows "parse_aspath (concat (map (Segment_Write e) segs)) e = Some (path_norm e segs)"
proof -
  have "concat (map (Segment_Write e) segs) =
      concat (map (chunk_Write e) (concat (map seg_chunks segs)))"
    using assms by (induction segs) (simp_all add: Segment_Write_chunks)
  moreover have "list_all (\<lambda>s. length (seg_ASPath s) < 256) (concat (map seg_chunks segs))"
    by (auto simp: list_all_iff seg_chunks_def chunk_def)
  ultimately show ?thesis
    using aspath_dec.decode_all [OF _ write_all_chunks, where pre = "[]" and post = "[]" and acc = "[]" and
        xs = "concat (map seg_chunks segs)"]
    by (simp add: parse_aspath_def path_norm_def)
qed

section \<open>Termination and absence of panic\<close>

lemma read_asns_returns:
  "length path = j + k \<Longrightarrow> pos \<le> length data \<Longrightarrow>
    \<exists>pos' path'. read_asns k j data e pos path = Some (pos', path') \<and> pos \<le> pos' \<and>
      pos' \<le> length data \<and> length path' = length path"
proof (induction k arbitrary: j pos path)
  case 0
  then show ?case by simp
next
  case (Suc k)
  show ?case
  proof (cases "pos + asn_size e \<le> length data")
    case True
    then have "\<exists>pos' path'. read_asns k (Suc j) data e (pos + asn_size e) (path[j := asn]) = Some (pos', path') \<and>
        pos + asn_size e \<le> pos' \<and> pos' \<le> length data \<and> length path' = length (path[j := asn])" for asn
      using Suc.prems by (intro Suc.IH) simp_all
    then show ?thesis
      using True Suc.prems by (cases e) (fastforce simp: asn_size_def set_idx_def)+
  next
    case False
    with Suc.prems show ?thesis by (cases e) (simp_all add: asn_size_def)
  qed
qed

definition segs_short :: "ASPath_Segment list \<Rightarrow> bool" where
  "segs_short segs \<longleftrightarrow> list_all (\<lambda>s. length (seg_ASPath s) < 256) segs"

lemma aspath_body_step:
  assumes "fst s \<le> length data \<and> segs_short (snd s)"
  shows "(\<exists>s'. aspath_body data e s = Some (Next s') \<and> (fst s' \<le> length data \<and> segs_short (snd s')) \<and>
      length data - fst s' < length data - fst s) \<or>
    (\<exists>r. aspath_body data e s = Some (Done r) \<and> segs_short r)"
proof -
  obtain pos segs where s: "s = (pos, segs)" by fastforce
  show ?thesis
  proof (cases "pos + 1 < length data")
    case False
    with s assms show ?thesis by (auto simp: aspath_body_def)
  next
    case True
    let ?n = "unat (data ! (pos + 1))"
    obtain pos' path where r:
      "read_asns ?n 0 data e (pos + 2) (replicate ?n 0) = Some (pos', path)"
      "pos + 2 \<le> pos'" "pos' \<le> length data" "length path = ?n"
      using read_asns_returns [of "replicate ?n 0" 0 ?n "pos + 2" data e] True by auto
    with s assms True show ?thesis
      by (auto simp: aspath_body_def Let_def segs_short_def)
  qed
qed

interpretation aspath_loop: go_loop_contract
  "aspath_body data e" "\<lambda>s. fst s \<le> length data \<and> segs_short (snd s)" "\<lambda>s. length data - fst s" segs_short
  for data e
  by unfold_locales (rule aspath_body_step)

lemma parse_aspath_returns: "\<exists>segs. parse_aspath data e = Some segs \<and> segs_short segs"
  using aspath_loop.loop_returns [of "(0, [])" data e] by (simp add: parse_aspath_def segs_short_def)

text \<open>What the parser guarantees of each attribute it returns.\<close>

primrec attr_parsed :: "AfiSafi list \<Rightarrow> bool \<Rightarrow> BGPAttr \<Rightarrow> bool" where
  "attr_parsed apl e (BGPAttribute_ORIGIN origin) = True"
| "attr_parsed apl e (BGPAttribute_MED med) = True"
| "attr_parsed apl e (BGPAttribute_LOCPREF locpref) = True"
| "attr_parsed apl e (BGPAttribute_AGGREGATOR asn ident e') = (e' = e \<and> length ident \<in> {0, 4})"
| "attr_parsed apl e BGPAttribute_ATOMIC_AGGREGATE = True"
| "attr_parsed apl e (BGPAttribute_ASPATH segs e') = (e' = e \<and> segs_short segs)"
| "attr_parsed apl e (BGPAttribute_NEXTHOP nh) = (length nh = 4)"
| "attr_parsed apl e (BGPAttribute_COMMUNITIES cs) = True"
| "attr_parsed apl e (BGPAttribute_LARGECOMMUNITIES cs) = True"
| "attr_parsed apl e (BGPAttribute_MP_REACH m) =
     (mr_EnableAddPath m = InAfiSafi (mr_Afi m) (mr_Safi m) apl \<and> length (mr_NextHop m) < 256 \<and>
      list_all (nlri_ok (mr_Afi m) (mr_EnableAddPath m)) (mr_NLRI m))"
| "attr_parsed apl e (BGPAttribute_MP_UNREACH m) =
     (\<not> mu_EnableAddPath m \<and>
      list_all (nlri_ok (mu_Afi m) (InAfiSafi (mu_Afi m) (mu_Safi m) apl)) (mu_NLRI m))"
| "attr_parsed apl e (BGPAttribute flags code data) = True"

definition value_post :: "AfiSafi list \<Rightarrow> bool \<Rightarrow> attr_fail + BGPAttr \<Rightarrow> bool" where
  "value_post apl e r \<longleftrightarrow> (case r of Inl _ \<Rightarrow> True | Inr a \<Rightarrow> attr_parsed apl e a)"

lemma parse_mp_reach_returns: "\<exists>r. parse_mp_reach data apl = Some r \<and> value_post apl e r"
proof (cases "length data < 4 \<or> length data < 4 + unat (data ! 3) + 1")
  case True
  then show ?thesis
    by (auto simp: parse_mp_reach_def Let_def subslice_def value_post_def)
next
  case False
  let ?afi = "u16_of (data ! 0) (data ! 1)" and ?safi = "data ! 2"
  obtain ns err where "ParseNLRI (drop (5 + unat (data ! 3)) data) ?afi ?safi (InAfiSafi ?afi ?safi apl) = Some (ns, err)"
      "list_all (nlri_ok ?afi (InAfiSafi ?afi ?safi apl)) ns"
    using ParseNLRI_returns by blast
  with False show ?thesis
    by (simp add: parse_mp_reach_def Let_def subslice_def value_post_def)
qed

lemma parse_mp_unreach_returns: "\<exists>r. parse_mp_unreach data apl = Some r \<and> value_post apl e r"
proof (cases "length data < 3")
  case True
  then show ?thesis by (simp add: parse_mp_unreach_def value_post_def)
next
  case False
  let ?afi = "u16_of (data ! 0) (data ! 1)" and ?safi = "data ! 2"
  obtain ns err where "ParseNLRI (drop 3 data) ?afi ?safi (InAfiSafi ?afi ?safi apl) = Some (ns, err)"
      "list_all (nlri_ok ?afi (InAfiSafi ?afi ?safi apl)) ns"
    using ParseNLRI_returns by blast
  with False show ?thesis
    by (simp add: parse_mp_unreach_def Let_def subslice_def value_post_def)
qed

lemma parse_aggregator_returns: "\<exists>a. parse_aggregator data e = Some a \<and> attr_parsed apl e a"
  by (simp add: parse_aggregator_def subslice_def)

lemma attr_value_returns:
  assumes "len = length data"
  shows "\<exists>r. attr_value flag code len data apl e = Some r \<and> value_post apl e r"
proof -
  obtain segs where segs: "parse_aspath data e = Some segs" "segs_short segs"
    using parse_aspath_returns by blast
  obtain ag where ag: "parse_aggregator data e = Some ag" "attr_parsed apl e ag"
    using parse_aggregator_returns by blast
  obtain mr where mr: "parse_mp_reach data apl = Some mr" "value_post apl e mr"
    using parse_mp_reach_returns by blast
  obtain mu where mu: "parse_mp_unreach data apl = Some mu" "value_post apl e mu"
    using parse_mp_unreach_returns by blast
  have cs: "\<exists>cs. mapM_go (\<lambda>j. get32 data (j * 4)) [0..<len div 4] = Some cs"
    by (rule exI, rule mapM_go_total) (use assms in simp)
  have ls: "\<exists>cs. mapM_go (\<lambda>j. let off = j * 12 in do {
          g \<leftarrow> get32 data off; l1 \<leftarrow> get32 data (off + 4); l2 \<leftarrow> get32 data (off + 8);
          Some \<lparr>GlobalAdmin = g, LocalData1 = l1, LocalData2 = l2\<rparr> }) [0..<len div 12] = Some cs"
    by (rule exI, rule mapM_go_total) (use assms in \<open>simp add: Let_def\<close>)
  from cs ls segs ag mr mu show ?thesis
    by (auto simp: attr_value_def value_post_def subslice_def)
qed

definition attrs_parsed :: "AfiSafi list \<Rightarrow> bool \<Rightarrow> BGPAttributeIf list \<Rightarrow> bool" where
  "attrs_parsed apl e as \<longleftrightarrow> list_all (\<lambda>a. is_Val a \<and> attr_parsed apl e (deref a)) as"

lemma ParsePathAttribute_body_step:
  assumes "fst s \<le> length b \<and> attrs_parsed apl e (snd s)"
  shows "(\<exists>s'. ParsePathAttribute_body b apl e s = Some (Next s') \<and>
      (fst s' \<le> length b \<and> attrs_parsed apl e (snd s')) \<and> length b - fst s' < length b - fst s) \<or>
    (\<exists>r. ParsePathAttribute_body b apl e s = Some (Done r) \<and> attrs_parsed apl e (fst r))"
proof -
  obtain i as where s: "s = (i, as)" by fastforce
  define ext where "ext \<longleftrightarrow> drop_bit 4 (b ! i AND ATTRIBUTE_EXTENDED) \<noteq> 0"
  define w where "w = u16_of (b ! (i + 2)) (b ! (i + 3))"
  define off where "off = (if ext then 1 else 0 :: nat)"
  define len where "len = (if ext then unat w else unat (b ! (i + 2)))"
  define data where "data = take len (drop (i + off + 3) b)"
  have w: "get16 b (i + 2) = Some w" if "i + 4 \<le> length b"
    using that by (simp add: w_def numeral_3_eq_3)
  show ?thesis
  proof (cases "i + off + 3 + len \<le> length b")
    case False
    with s assms w show ?thesis
      by (cases ext) (auto simp: ParsePathAttribute_body_def off_def len_def ext_def attrs_parsed_def Let_def
        simp del: get16_Some)
  next
    case True
    then have data: "subslice b (i + off + 3) (i + off + 3 + len) = Some data" "length data = len"
      by (simp_all add: subslice_def data_def)
    obtain r where r: "attr_value (b ! i) (b ! (i + 1)) len data apl e = Some r" "value_post apl e r"
      using attr_value_returns [OF data(2) [symmetric]] by blast
    from True have bounds: "\<not> length b - i < 3" "ext \<Longrightarrow> \<not> length b - 1 < i + 3"
      by (auto simp: off_def)
    show ?thesis
    proof (cases ext)
      case True
      with \<open>i + off + 3 + len \<le> length b\<close> data(1) s w r bounds assms show ?thesis
        by (auto simp: ParsePathAttribute_body_def off_def len_def ext_def Let_def value_post_def
            attrs_parsed_def simp del: get16_Some split: sum.splits attr_fail.splits)
    next
      case False
      with \<open>i + off + 3 + len \<le> length b\<close> data(1) s r bounds assms show ?thesis
        by (auto simp: ParsePathAttribute_body_def off_def len_def ext_def Let_def value_post_def
            attrs_parsed_def split: sum.splits attr_fail.splits)
    qed
  qed
qed

interpretation attrs_loop: go_loop_contract
  "ParsePathAttribute_body b apl e" "\<lambda>s. fst s \<le> length b \<and> attrs_parsed apl e (snd s)"
  "\<lambda>s. length b - fst s" "\<lambda>r. attrs_parsed apl e (fst r)"
  for b apl e
  by unfold_locales (rule ParsePathAttribute_body_step)

lemma ParsePathAttribute_returns:
  "\<exists>as err. ParsePathAttribute b apl e = Some (as, err) \<and> attrs_parsed apl e as"
  using attrs_loop.loop_returns [of "(0, [])" b apl e]
  by (auto simp: ParsePathAttribute_def attrs_parsed_def)

section \<open>Attributes: what is written is parsed back\<close>

definition known_codes :: "byte list" where
  "known_codes = [ATTRIBUTE_ORIGIN, ATTRIBUTE_ASPATH, ATTRIBUTE_NEXTHOP, ATTRIBUTE_MED, ATTRIBUTE_LOCPREF,
     ATTRIBUTE_ATOMIC_AGGREGATE, ATTRIBUTE_AGGREGATOR, ATTRIBUTE_COMMUNITIES, ATTRIBUTE_REACH,
     ATTRIBUTE_UNREACH, ATTRIBUTE_LARGECOMMUNITIES]"

definition mp_nlri_ok :: "u16 \<Rightarrow> bool \<Rightarrow> NLRI list \<Rightarrow> bool" where
  "mp_nlri_ok afi path ns \<longleftrightarrow>
     (if afi = AFI_IPV4 \<or> afi = AFI_IPV6 then list_all (nlri_ok afi path) ns else ns = [])"

text \<open>The attributes the wire format can carry in a session with the given add-path families and
  AS number width.\<close>

primrec attr_ok :: "AfiSafi list \<Rightarrow> bool \<Rightarrow> BGPAttr \<Rightarrow> bool" where
  "attr_ok apl e (BGPAttribute_ORIGIN origin) = True"
| "attr_ok apl e (BGPAttribute_MED med) = True"
| "attr_ok apl e (BGPAttribute_LOCPREF locpref) = True"
| "attr_ok apl e (BGPAttribute_AGGREGATOR asn ident e') = (\<not> e \<and> length ident = 4)"
| "attr_ok apl e BGPAttribute_ATOMIC_AGGREGATE = True"
| "attr_ok apl e (BGPAttribute_ASPATH segs e') =
     (e' = e \<and> list_all seg_ok segs \<and> ASPATH_LenContent segs e < 65536)"
| "attr_ok apl e (BGPAttribute_NEXTHOP nh) = (To4 nh \<noteq> None)"
| "attr_ok apl e (BGPAttribute_COMMUNITIES cs) = (4 * length cs < 65536)"
| "attr_ok apl e (BGPAttribute_LARGECOMMUNITIES cs) = (12 * length cs < 65536)"
| "attr_ok apl e (BGPAttribute_MP_REACH m) =
     (mr_EnableAddPath m = InAfiSafi (mr_Afi m) (mr_Safi m) apl \<and>
      mp_nlri_ok (mr_Afi m) (mr_EnableAddPath m) (mr_NLRI m) \<and> MP_REACH_ContentLen m < 65536)"
| "attr_ok apl e (BGPAttribute_MP_UNREACH m) =
     (mu_EnableAddPath m = InAfiSafi (mu_Afi m) (mu_Safi m) apl \<and>
      mp_nlri_ok (mu_Afi m) (mu_EnableAddPath m) (mu_NLRI m) \<and> MP_UNREACH_ContentLen m < 65536)"
| "attr_ok apl e (BGPAttribute flags code data) = (code \<notin> set known_codes \<and> length data < 65536)"

definition header_flags :: "nat \<Rightarrow> byte \<Rightarrow> byte" where
  "header_flags n f = (f AND NOT ATTRIBUTE_EXTENDED) OR (if n > 0xff then ATTRIBUTE_EXTENDED else 0)"

text \<open>What comes back: path segments cut at 255 numbers, addresses in the form they are sent, the
  extended-length flag that fits the length, and no add-path mark on withdrawn prefixes.\<close>

primrec attr_norm :: "bool \<Rightarrow> BGPAttr \<Rightarrow> BGPAttr" where
  "attr_norm e (BGPAttribute_ORIGIN origin) = BGPAttribute_ORIGIN origin"
| "attr_norm e (BGPAttribute_MED med) = BGPAttribute_MED med"
| "attr_norm e (BGPAttribute_LOCPREF locpref) = BGPAttribute_LOCPREF locpref"
| "attr_norm e (BGPAttribute_AGGREGATOR asn ident e') = BGPAttribute_AGGREGATOR asn ident e"
| "attr_norm e BGPAttribute_ATOMIC_AGGREGATE = BGPAttribute_ATOMIC_AGGREGATE"
| "attr_norm e (BGPAttribute_ASPATH segs e') = BGPAttribute_ASPATH (path_norm e segs) e"
| "attr_norm e (BGPAttribute_NEXTHOP nh) = BGPAttribute_NEXTHOP (IPtoBytes nh)"
| "attr_norm e (BGPAttribute_COMMUNITIES cs) = BGPAttribute_COMMUNITIES cs"
| "attr_norm e (BGPAttribute_LARGECOMMUNITIES cs) = BGPAttribute_LARGECOMMUNITIES cs"
| "attr_norm e (BGPAttribute_MP_REACH m) = BGPAttribute_MP_REACH (m\<lparr>mr_NextHop := IPtoBytes (mr_NextHop m)\<rparr>)"
| "attr_norm e (BGPAttribute_MP_UNREACH m) = BGPAttribute_MP_UNREACH (m\<lparr>mu_EnableAddPath := False\<rparr>)"
| "attr_norm e (BGPAttribute flags code data) = BGPAttribute (header_flags (length data) flags) code data"

lemma header_flags_extended:
  "drop_bit 4 (header_flags n f AND ATTRIBUTE_EXTENDED) = (if n > 0xff then 1 else 0)"
  by (auto simp: header_flags_def intro!: bit_word_eqI simp: bit_simps)

lemma header_length_bytes:
  assumes "n < 65536"
  shows "unat (u16_of (of_nat (drop_bit 8 (n AND 0xff00))) (of_nat (n AND 0xff))) = n"
proof -
  have "n AND 0xff = n mod 256"
    using take_bit_eq_mask [of 8 n] by (simp add: take_bit_eq_mod mask_eq_exp_minus_1)
  moreover have "drop_bit 8 (n AND 0xff00) = drop_bit 8 n AND 0xff"
    by simp
  moreover have "drop_bit 8 n AND 0xff = (n div 256) mod 256"
    using take_bit_eq_mask [of 8 "drop_bit 8 n"]
    by (simp add: take_bit_eq_mod mask_eq_exp_minus_1 drop_bit_eq_div)
  ultimately show ?thesis
    using assms by (simp add: unat_u16_of)
qed

lemma header_length_byte: "n \<le> 0xff \<Longrightarrow> unat (of_nat (n AND 0xff) :: byte) = n"
  using take_bit_eq_mask [of 8 n] by (simp add: take_bit_eq_mod mask_eq_exp_minus_1)

lemma ParsePathAttribute_body_item:
  assumes "length data < 65536"
    and "attr_value (header_flags (length data) f) c (length data) data apl e = Some (Inr v)"
  shows "ParsePathAttribute_body (pre @ (WriteAttributeHeader (length data) f c @ data) @ post) apl e
      (length pre, acc) =
    Some (Next (length pre + length (WriteAttributeHeader (length data) f c @ data), acc @ [Val v]))"
proof (cases "length data > 0xff")
  case True
  let ?h = "[header_flags (length data) f, c, of_nat (drop_bit 8 (length data AND 0xff00)), of_nat (length data AND 0xff)]"
  have h: "WriteAttributeHeader (length data) f c = ?h"
    using True by (simp add: WriteAttributeHeader_def header_flags_def)
  have "get16 (pre @ ?h @ data @ post) (length pre + 2) =
      Some (u16_of (of_nat (drop_bit 8 (length data AND 0xff00))) (of_nat (length data AND 0xff)))"
    by (simp only: get16_append) (simp add: get16_def)
  then show ?thesis
    using True assms header_flags_extended [of "length data" f] header_length_bytes [OF assms(1)]
    unfolding h
    by (simp add: ParsePathAttribute_body_def Let_def subslice_def idx_def nth_append
        del: drop_bit_and get16_Some)
next
  case False
  let ?h = "[header_flags (length data) f, c, of_nat (length data AND 0xff)]"
  have h: "WriteAttributeHeader (length data) f c = ?h"
    using False by (simp add: WriteAttributeHeader_def header_flags_def)
  show ?thesis
    using False assms header_flags_extended [of "length data" f] header_length_byte [of "length data"]
    unfolding h
    by (simp add: ParsePathAttribute_body_def Let_def subslice_def idx_def nth_append
        del: drop_bit_and get16_Some)
qed

lemma communities_read:
  "mapM_go (\<lambda>j. get32 (concat (map be32 cs)) (j * 4)) [0..<length cs] = Some cs"
proof -
  have "get32 (concat (map be32 cs)) (j * 4) = Some (cs ! j)" if "j < length cs" for j
  proof -
    have "concat (map be32 cs) = concat (map be32 (take j cs)) @ be32 (cs ! j) @ concat (map be32 (drop (Suc j) cs))"
      using id_take_nth_drop [OF that]
      by (metis concat.simps(2) concat_append list.simps(9) map_append)
    moreover have "length (concat (map be32 (take j cs))) = j * 4" using that by simp
    ultimately show ?thesis by (metis get32_at)
  qed
  then show ?thesis
    using mapM_go_total [of "[0..<length cs]" _ "\<lambda>j. cs ! j"] by (simp add: map_nth)
qed

lemma large_communities_read:
  "mapM_go (\<lambda>j. let off = j * 12 in do {
      g \<leftarrow> get32 (concat (map LargeCommunity_Write cs)) off;
      l1 \<leftarrow> get32 (concat (map LargeCommunity_Write cs)) (off + 4);
      l2 \<leftarrow> get32 (concat (map LargeCommunity_Write cs)) (off + 8);
      Some \<lparr>GlobalAdmin = g, LocalData1 = l1, LocalData2 = l2\<rparr>
    }) [0..<length cs] = Some cs"
proof -
  let ?b = "concat (map LargeCommunity_Write cs)"
  have "get32 ?b (j * 12) = Some (GlobalAdmin (cs ! j)) \<and>
      get32 ?b (j * 12 + 4) = Some (LocalData1 (cs ! j)) \<and>
      get32 ?b (j * 12 + 8) = Some (LocalData2 (cs ! j))" if "j < length cs" for j
  proof -
    let ?pre = "concat (map LargeCommunity_Write (take j cs))"
      and ?post = "concat (map LargeCommunity_Write (drop (Suc j) cs))"
    have b: "?b = ?pre @ LargeCommunity_Write (cs ! j) @ ?post"
      using id_take_nth_drop [OF that]
      by (metis concat.simps(2) concat_append list.simps(9) map_append)
    have len: "j * 12 = length ?pre" using that by simp
    show ?thesis
      unfolding b len by (simp only: get32_append get32_append [where i = 0, simplified] LargeCommunity_Write_def)
        (simp add: get32_def be32_def)
  qed
  then show ?thesis
    using mapM_go_total [of "[0..<length cs]" _ "\<lambda>j. cs ! j"] by (simp add: map_nth Let_def)
qed

definition attr_flags :: "BGPAttr \<Rightarrow> byte" where
  "attr_flags a =
     (case a of
        BGPAttribute_ORIGIN _ \<Rightarrow> ATTRIBUTE_TRANSITIVE
      | BGPAttribute_ASPATH _ _ \<Rightarrow> ATTRIBUTE_TRANSITIVE
      | BGPAttribute_NEXTHOP _ \<Rightarrow> ATTRIBUTE_TRANSITIVE
      | BGPAttribute_COMMUNITIES _ \<Rightarrow> ATTRIBUTE_TRANSITIVEOPT
      | BGPAttribute_LARGECOMMUNITIES _ \<Rightarrow> ATTRIBUTE_TRANSITIVEOPT
      | BGPAttribute f _ _ \<Rightarrow> f
      | _ \<Rightarrow> ATTRIBUTE_OPTIONAL)"

text \<open>An attribute as it is on the wire: its header, and the value that decodes to it.\<close>

definition attr_wire :: "AfiSafi list \<Rightarrow> bool \<Rightarrow> BGPAttr \<Rightarrow> byte \<Rightarrow> bytes \<Rightarrow> bool" where
  "attr_wire apl e a c data \<longleftrightarrow>
     Attr_Write a = Some (WriteAttributeHeader (length data) (attr_flags a) c @ data) \<and>
     length data < 65536 \<and>
     attr_value (header_flags (length data) (attr_flags a)) c (length data) data apl e =
       Some (Inr (attr_norm e a))"

lemma WriteAttributeHeader_small:
  "n \<le> 0xff \<Longrightarrow> WriteAttributeHeader n f c = [header_flags n f, c, of_nat (n AND 0xff)]"
  by (simp add: WriteAttributeHeader_def header_flags_def)

lemma length_IPtoBytes: "length (IPtoBytes ip) \<le> 16"
  by (auto simp: IPtoBytes_def nil_empty_def dest: To4_result_length To16_result_length split: option.splits)

lemma IPtoBytes_To4: "To4 ip \<noteq> None \<Longrightarrow> length (IPtoBytes ip) = 4"
  by (auto simp: IPtoBytes_def nil_empty_def dest: To4_result_length)

lemma ParseNLRI_mp:
  assumes "mp_nlri_ok afi path ns" and "write_all (NLRI_Write path) ns = Some b"
  shows "\<exists>err. ParseNLRI b afi safi path = Some (ns, err)"
  using assms ParseNLRI_Write [of afi path ns b safi]
  by (auto simp: mp_nlri_ok_def ParseNLRI_def split: if_splits)

lemma mp_nlri_written: "mp_nlri_ok afi path ns \<Longrightarrow> \<exists>bs. write_all (NLRI_Write path) ns = Some bs"
  using write_all_NLRI_ok by (auto simp: mp_nlri_ok_def split: if_splits)

lemma drop_reach_header: "drop (5 + length x) (b0 # b1 # b2 # b3 # x @ b4 # nb) = nb"
  by (simp add: numeral_eq_Suc)

lemma MP_REACH_wire:
  assumes "attr_ok apl e (BGPAttribute_MP_REACH m)"
  shows "\<exists>data. attr_wire apl e (BGPAttribute_MP_REACH m) ATTRIBUTE_REACH data"
proof -
  have path: "mr_EnableAddPath m = InAfiSafi (mr_Afi m) (mr_Safi m) apl"
    and ok: "mp_nlri_ok (mr_Afi m) (mr_EnableAddPath m) (mr_NLRI m)" and len: "MP_REACH_ContentLen m < 65536"
    using assms unfolding attr_ok.simps by blast+
  obtain nb where nb: "write_all (NLRI_Write (mr_EnableAddPath m)) (mr_NLRI m) = Some nb"
    using mp_nlri_written [OF ok] by blast
  obtain err where p: "ParseNLRI nb (mr_Afi m) (mr_Safi m) (mr_EnableAddPath m) = Some (mr_NLRI m, err)"
    using ParseNLRI_mp [OF ok nb] by blast
  let ?nh = "IPtoBytes (mr_NextHop m)"
  let ?data = "be16 (mr_Afi m) @ [mr_Safi m] @ [of_nat (GetNextHopLen m)] @ ?nh @ [0] @ nb"
  have "length ?data = MP_REACH_ContentLen m"
    using write_all_NLRI_length [OF nb] by (simp add: MP_REACH_ContentLen_def GetNextHopLen_def)
  moreover have "unat (of_nat (length ?nh) :: byte) = length ?nh"
    using length_IPtoBytes [of "mr_NextHop m"] by simp
  moreover have "parse_mp_reach ?data apl =
      Some (Inr (BGPAttribute_MP_REACH (m\<lparr>mr_NextHop := ?nh\<rparr>)))"
    using p path calculation(2) drop_reach_header [where x = ?nh and nb = nb]
    by (simp add: parse_mp_reach_def be16_def get16_def subslice_def GetNextHopLen_def Let_def go_copy_def)
  ultimately show ?thesis
    using nb len
    by (intro exI [of _ ?data]) (simp add: attr_wire_def MP_REACH_Write_def attr_flags_def attr_value_def)
qed

lemma MP_UNREACH_wire:
  assumes "attr_ok apl e (BGPAttribute_MP_UNREACH m)"
  shows "\<exists>data. attr_wire apl e (BGPAttribute_MP_UNREACH m) ATTRIBUTE_UNREACH data"
proof -
  have path: "mu_EnableAddPath m = InAfiSafi (mu_Afi m) (mu_Safi m) apl"
    and ok: "mp_nlri_ok (mu_Afi m) (mu_EnableAddPath m) (mu_NLRI m)" and len: "MP_UNREACH_ContentLen m < 65536"
    using assms unfolding attr_ok.simps by blast+
  obtain nb where nb: "write_all (NLRI_Write (mu_EnableAddPath m)) (mu_NLRI m) = Some nb"
    using mp_nlri_written [OF ok] by blast
  obtain err where p: "ParseNLRI nb (mu_Afi m) (mu_Safi m) (mu_EnableAddPath m) = Some (mu_NLRI m, err)"
    using ParseNLRI_mp [OF ok nb] by blast
  let ?data = "be16 (mu_Afi m) @ [mu_Safi m] @ nb"
  have "length ?data = MP_UNREACH_ContentLen m"
    using write_all_NLRI_length [OF nb] by (simp add: MP_UNREACH_ContentLen_def)
  moreover have "parse_mp_unreach ?data apl =
      Some (Inr (BGPAttribute_MP_UNREACH (m\<lparr>mu_EnableAddPath := False\<rparr>)))"
    using p path by (simp add: parse_mp_unreach_def be16_def get16_def subslice_def Let_def)
  ultimately show ?thesis
    using nb len
    by (intro exI [of _ ?data]) (simp add: attr_wire_def MP_UNREACH_Write_def attr_flags_def attr_value_def)
qed

lemma be32_unfold: "be32 w = [be32 w ! 0, be32 w ! 1, be32 w ! 2, be32 w ! 3]"
  by (simp add: be32_def)

lemma parse_aggregator_Write:
  "length ident = 4 \<Longrightarrow> parse_aggregator (be32 asn @ ident) False = Some (BGPAttribute_AGGREGATOR asn ident False)"
  using subslice_append [of "be32 asn" ident 0 4]
  by (simp add: parse_aggregator_def del: subslice_append get32_Some) (simp add: subslice_def)

lemma attr_wire_exists:
  assumes "attr_ok apl e a"
  shows "\<exists>c data. attr_wire apl e a c data"
proof (cases a)
  case (BGPAttribute_MP_REACH m)
  with assms MP_REACH_wire show ?thesis by blast
next
  case (BGPAttribute_MP_UNREACH m)
  with assms MP_UNREACH_wire show ?thesis by blast
next
  case (BGPAttribute_ORIGIN o')
  then show ?thesis
    by (intro exI [of _ ATTRIBUTE_ORIGIN] exI [of _ "[o']"])
      (simp add: attr_wire_def attr_flags_def attr_value_def WriteAttributeHeader_def)
next
  case (BGPAttribute_MED w)
  then show ?thesis
    by (intro exI [of _ ATTRIBUTE_MED] exI [of _ "be32 w"])
      (use get32_be32 [of w "[]"] in \<open>simp add: attr_wire_def attr_flags_def attr_value_def
        WriteAttributeHeader_def del: get32_Some\<close>)
next
  case (BGPAttribute_LOCPREF w)
  then show ?thesis
    by (intro exI [of _ ATTRIBUTE_LOCPREF] exI [of _ "be32 w"])
      (use get32_be32 [of w "[]"] in \<open>simp add: attr_wire_def attr_flags_def attr_value_def
        del: get32_Some\<close>)
next
  case (BGPAttribute_AGGREGATOR asn ident e')
  with assms show ?thesis
    by (intro exI [of _ ATTRIBUTE_AGGREGATOR] exI [of _ "be32 asn @ ident"])
      (simp add: attr_wire_def attr_flags_def attr_value_def WriteAttributeHeader_def parse_aggregator_Write)
next
  case BGPAttribute_ATOMIC_AGGREGATE
  then show ?thesis
    by (intro exI [of _ ATTRIBUTE_ATOMIC_AGGREGATE] exI [of _ "[]"])
      (simp add: attr_wire_def attr_flags_def attr_value_def)
next
  case (BGPAttribute_ASPATH segs e')
  with assms show ?thesis
    by (intro exI [of _ ATTRIBUTE_ASPATH] exI [of _ "concat (map (Segment_Write e) segs)"])
      (simp add: attr_wire_def attr_flags_def attr_value_def length_segments_Write parse_aspath_Write)
next
  case (BGPAttribute_NEXTHOP nh)
  with assms IPtoBytes_To4 [of nh] show ?thesis
    by (intro exI [of _ ATTRIBUTE_NEXTHOP] exI [of _ "IPtoBytes nh"])
      (simp add: attr_wire_def attr_flags_def attr_value_def subslice_def)
next
  case (BGPAttribute_COMMUNITIES cs)
  with assms communities_read [of cs] show ?thesis
    by (intro exI [of _ ATTRIBUTE_COMMUNITIES] exI [of _ "concat (map be32 cs)"])
      (simp add: attr_wire_def attr_flags_def attr_value_def)
next
  case (BGPAttribute_LARGECOMMUNITIES cs)
  with assms large_communities_read [of cs] show ?thesis
    by (intro exI [of _ ATTRIBUTE_LARGECOMMUNITIES] exI [of _ "concat (map LargeCommunity_Write cs)"])
      (simp add: attr_wire_def attr_flags_def attr_value_def)
next
  case (BGPAttribute f c d)
  with assms show ?thesis
    by (intro exI [of _ c] exI [of _ d])
      (simp add: attr_wire_def attr_flags_def attr_value_def known_codes_def)
qed

lemma Attr_Write_ok: "attr_ok apl e a \<Longrightarrow> \<exists>bs. Attr_Write a = Some bs"
  using attr_wire_exists [of apl e a] by (auto simp: attr_wire_def)

lemma attr_body_item:
  assumes "attr_ok apl e (deref a)" and "Attr_Write (deref a) = Some bs"
  shows "ParsePathAttribute_body (pre @ bs @ post) apl e (length pre, acc) =
    Some (Next (length pre + length bs, acc @ [Val (attr_norm e (deref a))]))"
proof -
  obtain c data where "attr_wire apl e (deref a) c data"
    using attr_wire_exists [OF assms(1)] by blast
  with assms(2) ParsePathAttribute_body_item [of data "attr_flags (deref a)" c apl e "attr_norm e (deref a)"]
  show ?thesis by (auto simp: attr_wire_def)
qed

interpretation attrs_dec: list_decoder
  "\<lambda>a. Attr_Write (deref a)" "\<lambda>a. attr_ok apl e (deref a)" "\<lambda>_ b. ParsePathAttribute_body b apl e"
  "\<lambda>lim b. lim = length b" "\<lambda>a. Val (attr_norm e (deref a))" "\<lambda>_ as. (as, None)"
  for apl e
  by unfold_locales (simp_all add: attr_body_item, simp add: ParsePathAttribute_body_def)

lemma ParsePathAttribute_Write:
  assumes "list_all (\<lambda>a. attr_ok apl e (deref a)) as"
    and "write_all (\<lambda>a. Attr_Write (deref a)) as = Some bs"
  shows "ParsePathAttribute bs apl e = Some (map (\<lambda>a. Val (attr_norm e (deref a))) as, None)"
  using attrs_dec.decode_all [OF assms, of "[]" "[]" "[]"] by (simp add: ParsePathAttribute_def)

lemma write_all_attrs_ok:
  "list_all (\<lambda>a. attr_ok apl e (deref a)) as \<Longrightarrow> \<exists>bs. write_all (\<lambda>a. Attr_Write (deref a)) as = Some bs"
  by (rule write_all_returns) (auto simp: list_all_iff intro: Attr_Write_ok)

lemma attr_ok_sized: "attr_ok apl e a \<Longrightarrow> attr_sized a"
  by (cases a) (simp_all add: attr_sized_def)

lemma write_all_attrs_length:
  "write_all (\<lambda>a. Attr_Write (deref a)) as = Some bs \<Longrightarrow> list_all (\<lambda>a. attr_sized (deref a)) as \<Longrightarrow>
    length bs = (\<Sum>a\<leftarrow>as. Attr_Len (deref a))"
  by (erule write_all_length) (auto simp: list_all_iff Attr_Write_length)

section \<open>Long AS paths\<close>

lemma concat_seg_chunks: "concat (map seg_ASPath (seg_chunks m)) = seg_ASPath m"
  using LenSets_bounds [of m] by (simp add: seg_chunks_def o_def concat_chunks)

lemma path_norm_asns:
  "concat (map seg_ASPath (path_norm e segs)) = map (asn_norm e) (concat (map seg_ASPath segs))"
proof (induction segs)
  case Nil
  then show ?case by (simp add: path_norm_def)
next
  case (Cons s segs)
  have "concat (map (\<lambda>s. seg_ASPath (seg_norm e s)) ss) = map (asn_norm e) (concat (map seg_ASPath ss))" for ss
    by (induction ss) (simp_all add: seg_norm_def)
  then have "concat (map (\<lambda>s. seg_ASPath (seg_norm e s)) (seg_chunks s)) = map (asn_norm e) (seg_ASPath s)"
    by (simp add: concat_seg_chunks)
  with Cons.IH show ?case by (simp add: path_norm_def o_def)
qed

lemma chunk_bounds:
  assumes "c \<in> set (seg_chunks m)"
  shows "0 < length (seg_ASPath c) \<and> length (seg_ASPath c) \<le> 255 \<and> SType c = SType m"
proof -
  from assms obtain i where i: "i < LenSets m" "c = m\<lparr>seg_ASPath := chunk i (seg_ASPath m)\<rparr>"
    by (auto simp: seg_chunks_def)
  define q r where "q = length (seg_ASPath m) div 0xff" and "r = length (seg_ASPath m) mod 0xff"
  have "length (seg_ASPath m) = 255 * q + r" "r < 255"
    by (simp_all add: q_def r_def)
  with i show ?thesis
    by (auto simp: chunk_def LenSets_def Let_def q_def [symmetric] r_def [symmetric] split: if_splits)
qed

lemma path_norm_bounds:
  "list_all (\<lambda>s. 0 < length (seg_ASPath s) \<and> length (seg_ASPath s) \<le> 255) (path_norm e segs)"
  using chunk_bounds by (auto simp: path_norm_def list_all_iff seg_norm_def)

text \<open>The loop only ever appends to the segments read so far.\<close>

interpretation aspath_acc: go_loop_contract
  "aspath_body data e" "\<lambda>s. fst s \<le> length data \<and> segs_short (snd s) \<and> (\<exists>zs. snd s = acc @ zs)"
  "\<lambda>s. length data - fst s" "\<lambda>r. \<exists>zs. r = acc @ zs"
  for data e acc
proof unfold_locales
  fix s :: "nat \<times> ASPath_Segment list"
  assume inv: "fst s \<le> length data \<and> segs_short (snd s) \<and> (\<exists>zs. snd s = acc @ zs)"
  have app: "(c = Next s' \<longrightarrow> (\<exists>z. snd s' = snd s @ z)) \<and> (c = Done r \<longrightarrow> r = snd s)"
    if "aspath_body data e s = Some c" for c s' r
    using that by (cases s) (auto simp: aspath_body_def Let_def split: if_splits Option.bind_splits)
  from inv aspath_body_step [of s data e] app
  show "(\<exists>s'. aspath_body data e s = Some (Next s') \<and>
        (fst s' \<le> length data \<and> segs_short (snd s') \<and> (\<exists>zs. snd s' = acc @ zs)) \<and>
        length data - fst s' < length data - fst s) \<or>
      (\<exists>r. aspath_body data e s = Some (Done r) \<and> (\<exists>zs. r = acc @ zs))"
    by (metis append.assoc)
qed

lemma aspath_multiple_255:
  assumes "seg_ASPath m \<noteq> []" and "length (seg_ASPath m) mod 0xff = 0"
  shows "\<exists>rest. Segment_Write e m =
    concat (map (chunk_Write e) (butlast (seg_chunks m))) @ [SType m, 0] @ rest"
proof -
  define n where "n = LenSets m - 1"
  have "LenSets m \<noteq> 0"
    using assms(1) LenSets_bounds [of m] by (cases "LenSets m = 0") simp_all
  then have n: "LenSets m = Suc n"
    by (simp add: n_def)
  have len: "length (seg_ASPath m) = 255 * Suc n"
    using assms(2) n by (auto simp: LenSets_def Let_def)
  have c: "butlast (seg_chunks m) = map (\<lambda>i. m\<lparr>seg_ASPath := chunk i (seg_ASPath m)\<rparr>) [0..<n]"
    by (simp add: seg_chunks_def n)
  have full: "length (chunk i (seg_ASPath m)) = 255" if "i < n" for i
    using that len by (simp add: chunk_def)
  have "map (\<lambda>i. [SType m] @ [if i = n then of_nat (length (seg_ASPath m) mod 0xff) else 0xff] @
        concat (map (asn_bytes e) (chunk i (seg_ASPath m)))) [0..<n] =
      map (\<lambda>i. chunk_Write e (m\<lparr>seg_ASPath := chunk i (seg_ASPath m)\<rparr>)) [0..<n]"
    using full by (intro map_cong refl) (simp add: chunk_Write_def)
  then show ?thesis
    using assms unfolding Segment_Write_def Let_def concat_nth_chunk c n
    by (simp only: length_0_conv if_False map_map o_def diff_Suc_1 upt_Suc_append map_append concat_append) simp
qed

section \<open>Properties\<close>

text \<open>
  C14: On every input, whatever the add-path families and AS number width, \<open>ParsePathAttribute\<close>
  returns: its loops end and no access is out of range. Every attribute it returns, also when it
  reports an error, is a struct (not a pointer) of the session's AS number width whose prefixes
  are well formed, whose next hop has four bytes and whose path segments have at most 255 numbers.
\<close>

theorem ParsePathAttribute_safe:
  "\<exists>as err. ParsePathAttribute b apl e = Some (as, err) \<and> attrs_parsed apl e as"
  by (rule ParsePathAttribute_returns)

text \<open>
  C28: The length \<open>Len\<close> announces for an attribute is the number of bytes \<open>Write\<close> emits, except
  exactly for an AGGREGATOR whose identifier does not have four bytes.
\<close>

theorem Attr_Len_exact:
  assumes "Attr_Write a = Some bs"
  shows "length bs = Attr_Len a \<longleftrightarrow> attr_sized a"
proof (cases "attr_sized a")
  case True
  with assms show ?thesis by (simp add: Attr_Write_length)
next
  case False
  with assms show ?thesis by (cases a) (auto simp: attr_sized_def AttributeHeaderLen_def)
qed

theorem Attr_Len_exact_witness:
  "length ([0x80, 7, 8] @ be32 65001 @ [10, 0, 0]) = Attr_Len (BGPAttribute_AGGREGATOR 65001 [10, 0, 0] False) \<longleftrightarrow>
    attr_sized (BGPAttribute_AGGREGATOR 65001 [10, 0, 0] False)"
  by (rule Attr_Len_exact) simp

text \<open>
  C15: Attributes the wire format can carry, written one after the other, take the announced
  number of bytes and are parsed back in order, each in its normal form: long path segments in
  pieces of at most 255 numbers, addresses in the form they are sent.
\<close>

theorem PathAttributes_roundtrip:
  assumes "list_all (\<lambda>a. attr_ok apl e (deref a)) as"
  shows "\<exists>bs. write_all (\<lambda>a. Attr_Write (deref a)) as = Some bs \<and>
    length bs = (\<Sum>a\<leftarrow>as. Attr_Len (deref a)) \<and>
    ParsePathAttribute bs apl e = Some (map (\<lambda>a. Val (attr_norm e (deref a))) as, None)"
proof -
  obtain bs where bs: "write_all (\<lambda>a. Attr_Write (deref a)) as = Some bs"
    using write_all_attrs_ok [OF assms] by blast
  have "list_all (\<lambda>a. attr_sized (deref a)) as"
    using assms by (auto simp: list_all_iff intro: attr_ok_sized)
  with bs assms show ?thesis
    by (simp add: write_all_attrs_length ParsePathAttribute_Write)
qed

theorem PathAttributes_roundtrip_witness:
  "ParsePathAttribute [0x40, 1, 1, 2, 0x40, 2, 6, 2, 1, 0, 0, 253, 233, 0xC0, 8, 4, 0, 1, 0, 2] [] False =
    Some ([Val (BGPAttribute_ORIGIN 2),
      Val (BGPAttribute_ASPATH [\<lparr>SType = 2, seg_ASPath = [65001]\<rparr>] False),
      Val (BGPAttribute_COMMUNITIES [65538])], None)"
proof -
  have bytes: "be32 65001 = [0, 0, 253, 233]" "be32 65538 = [0, 1, 0, 2]"
    by (simp_all add: be32_def)
  from PathAttributes_roundtrip [of "[]" False "[Val (BGPAttribute_ORIGIN 2),
      Ptr (BGPAttribute_ASPATH [\<lparr>SType = 2, seg_ASPath = [65001]\<rparr>] False),
      Val (BGPAttribute_COMMUNITIES [65538])]"]
  show ?thesis
    by (simp add: seg_ok_def ASPATH_LenContent_def Segment_LenContent_def LenSets_def path_norm_def
        seg_chunks_def chunk_def seg_norm_def asn_norm_def WriteAttributeHeader_def Segment_Write_def
        asn_bytes_def bytes upt_rec)
qed



text \<open>
  C39: A segment of 255, 510, ... AS numbers does not survive: the length byte of its last piece is
  written as 0, so the parser reads an empty segment there, and what follows is not the path.
\<close>

theorem ASPath_multiple_of_255_lost:
  assumes "seg_ASPath m \<noteq> []" and "length (seg_ASPath m) mod 255 = 0"
  shows "\<exists>segs'. parse_aspath (Segment_Write e m) e =
    Some (map (seg_norm e) (butlast (seg_chunks m)) @ \<lparr>SType = SType m, seg_ASPath = []\<rparr> # segs')"
proof -
  obtain rest where w: "Segment_Write e m =
      concat (map (chunk_Write e) (butlast (seg_chunks m) @ [\<lparr>SType = SType m, seg_ASPath = []\<rparr>])) @ rest"
    using aspath_multiple_255 [OF assms, of e] by (auto simp: chunk_Write_def)
  let ?ss = "butlast (seg_chunks m) @ [\<lparr>SType = SType m, seg_ASPath = []\<rparr>]"
  let ?b = "concat (map (chunk_Write e) ?ss)" and ?acc = "map (seg_norm e) ?ss"
  have short: "list_all (\<lambda>s. length (seg_ASPath s) < 256) ?ss"
    using chunk_bounds [of _ m] by (auto simp: list_all_iff dest!: in_set_butlastD) fastforce
  have "parse_aspath (?b @ rest) e = go_loop (aspath_body (?b @ rest) e) (length ?b, ?acc)"
    using aspath_dec.decode_prefix [OF short write_all_chunks, where pre = "[]" and acc = "[]" and post = rest
        and lim = "length (?b @ rest)"]
    by (simp add: parse_aspath_def)
  moreover have "\<exists>r. go_loop (aspath_body (?b @ rest) e) (length ?b, ?acc) = Some r \<and> (\<exists>zs. r = ?acc @ zs)"
    using short by (intro aspath_acc.loop_returns) (auto simp: segs_short_def list_all_iff seg_norm_def)
  ultimately show ?thesis
    unfolding w by (auto simp: seg_norm_def)
qed

theorem ASPath_multiple_of_255_lost_witness:
  "\<exists>segs'. parse_aspath (Segment_Write False \<lparr>SType = 2, seg_ASPath = replicate 255 65001\<rparr>) False =
    Some (\<lparr>SType = 2, seg_ASPath = []\<rparr> # segs')"
  using ASPath_multiple_of_255_lost [of "\<lparr>SType = 2, seg_ASPath = replicate 255 65001\<rparr>" False]
  by (simp add: seg_chunks_def LenSets_def upt_rec)

end
