(* ===== verification/Bgp_Update.thy ===== *)
theory Bgp_Update
  imports Bgp_Attributes
begin

text \<open>
  The UPDATE message (\<^verbatim>\<open>messages/bgp_update.go\<close>): lengths, writer, \<open>ParseUpdate\<close> and
  \<open>CraftUpdateMessage\<close>. Lemmas: the parser returns on every input with well-formed contents; a
  message the wire format can carry is written with the announced lengths and parsed back; the
  prefixes of an accepted message are exactly the bytes they came from.
\<close>

section \<open>The message\<close>

record BGPMessageUpdate =
  WithdrawnRoutes :: "NLRI list"
  PathAttributes :: "BGPAttributeIf list"
  upd_NLRI :: "NLRI list"
  EnableAddPath :: bool

definition LenWithdrawn :: "BGPMessageUpdate \<Rightarrow> nat" where
  "LenWithdrawn m = (\<Sum>n\<leftarrow>WithdrawnRoutes m. NLRI_Len n (EnableAddPath m))"

definition LenPathAttribute :: "BGPMessageUpdate \<Rightarrow> nat" where
  "LenPathAttribute m = (\<Sum>a\<leftarrow>PathAttributes m. Attr_Len (deref a))"

definition Update_LenContent :: "BGPMessageUpdate \<Rightarrow> nat" where
  "Update_LenContent m =
     2 + LenWithdrawn m + 2 + LenPathAttribute m + (\<Sum>n\<leftarrow>upd_NLRI m. NLRI_Len n (EnableAddPath m))"

definition Update_Len :: "BGPMessageUpdate \<Rightarrow> nat" where
  "Update_Len m = GetBGPHeaderLen + Update_LenContent m"

definition Update_Write :: "BGPMessageUpdate \<Rightarrow> bytes go" where
  "Update_Write m = do {
     w \<leftarrow> write_all (NLRI_Write (EnableAddPath m)) (WithdrawnRoutes m);
     a \<leftarrow> write_all (\<lambda>a. Attr_Write (deref a)) (PathAttributes m);
     n \<leftarrow> write_all (NLRI_Write (EnableAddPath m)) (upd_NLRI m);
     Some (WriteBGPHeader MESSAGE_UPDATE (of_nat (Update_LenContent m)) @
       be16 (of_nat (LenWithdrawn m)) @ w @ be16 (of_nat (LenPathAttribute m)) @ a @ n)
   }"

section \<open>ParseUpdate\<close>

definition ParseUpdate ::
  "bytes \<Rightarrow> AfiSafi list \<Rightarrow> bool \<Rightarrow> (BGPMessageUpdate option \<times> bgp_error option) go" where
  "ParseUpdate b addpathlist enc2bytes =
     (let addpath_ipv4uni = InAfiSafi AFI_IPV4 SAFI_UNICAST addpathlist;
          m = \<lparr>WithdrawnRoutes = [], PathAttributes = [], upd_NLRI = [],
               EnableAddPath = addpath_ipv4uni\<rparr> in
      if length b < 4 then Some (None, Some (ErrUpdateSize (length b)))
      else do {
        w \<leftarrow> get16 b 0;
        let wdrouteslen = unat w in
        if wdrouteslen + 4 > length b
        then Some (None, Some (ErrWithdrawnSize (wdrouteslen + 4) (length b)))
        else do {
          withdrawnroutes \<leftarrow> subslice b 2 (2 + wdrouteslen);
          (wr, err) \<leftarrow> ParseNLRI withdrawnroutes AFI_IPV4 SAFI_UNICAST addpath_ipv4uni;
          let m = m\<lparr>WithdrawnRoutes := wr\<rparr> in
          if err \<noteq> None then Some (None, err)
          else let offset = 2 + wdrouteslen in do {
            t \<leftarrow> get16 b offset;
            let tplen = unat t; offset = offset + 2 in
            if tplen + offset > length b
            then Some (None, Some (ErrPathSize (tplen + offset) (length b)))
            else do {
              pathattributes \<leftarrow> subslice b offset (offset + tplen);
              (as, err) \<leftarrow> ParsePathAttribute pathattributes addpathlist enc2bytes;
              let m = m\<lparr>PathAttributes := as\<rparr> in
              if err \<noteq> None then Some (Some m, err)
              else let offset = offset + tplen in do {
                nlri \<leftarrow> subslice b offset (length b);
                (ns, err) \<leftarrow> ParseNLRI nlri AFI_IPV4 SAFI_UNICAST addpath_ipv4uni;
                let m = m\<lparr>upd_NLRI := ns\<rparr> in
                if err \<noteq> None then Some (Some m, err)
                else Some (Some m, None)
              }
            }
          }
        }
      })"

section \<open>CraftUpdateMessage\<close>

text \<open>\<^verbatim>\<open>now\<close> is \<^verbatim>\<open>uint32(time.Now().UTC().Unix())\<close>; the addresses are the values of the
  literals \<^verbatim>\<open>2001::/46\<close> and \<^verbatim>\<open>2002::1\<close>.\<close>

definition CraftUpdateMessage :: "u32 \<Rightarrow> BGPMessageUpdate" where
  "CraftUpdateMessage now =
     \<lparr>WithdrawnRoutes = [],
      PathAttributes =
        [Val (BGPAttribute_ORIGIN 2),
         Val (BGPAttribute_ASPATH [\<lparr>SType = 0, seg_ASPath = [65001]\<rparr>] False),
         Val (BGPAttribute_COMMUNITIES [0x7b0929]),
         Val (BGPAttribute_MP_REACH
           \<lparr>mr_Afi = AFI_IPV6, mr_Safi = SAFI_UNICAST,
            mr_NextHop = [0x20, 0x02] @ replicate 13 0 @ [1],
            mr_NLRI = [\<lparr>Prefix = \<lparr>IP = [0x20, 0x01] @ replicate 14 0, Mask = cidr_mask 16 46\<rparr>,
                        PathId = now\<rparr>],
            mr_EnableAddPath = False\<rparr>)],
      upd_NLRI = [],
      EnableAddPath = False\<rparr>"

section \<open>Termination and absence of panic\<close>

definition update_parsed :: "AfiSafi list \<Rightarrow> bool \<Rightarrow> BGPMessageUpdate \<Rightarrow> bool" where
  "update_parsed apl e m \<longleftrightarrow>
     EnableAddPath m = InAfiSafi AFI_IPV4 SAFI_UNICAST apl \<and>
     list_all (nlri_ok AFI_IPV4 (EnableAddPath m)) (WithdrawnRoutes m) \<and>
     attrs_parsed apl e (PathAttributes m) \<and>
     list_all (nlri_ok AFI_IPV4 (EnableAddPath m)) (upd_NLRI m)"

text \<open>
  The three parts of an UPDATE body: the length-prefixed withdrawn routes and attributes, and the
  prefixes that fill the rest.
\<close>

definition update_parts :: "bytes \<Rightarrow> bytes \<Rightarrow> bytes \<Rightarrow> bytes \<Rightarrow> bool" where
  "update_parts b w a n \<longleftrightarrow>
     length w < 65536 \<and> length a < 65536 \<and>
     b = be16 (of_nat (length w)) @ w @ be16 (of_nat (length a)) @ a @ n"

lemma split_prefix16:
  assumes "2 \<le> length b" and "unat (u16_of (b ! 0) (b ! 1)) + 2 \<le> length b"
  obtains w r where "b = be16 (of_nat (length w)) @ w @ r" "length w < 65536"
    "length w = unat (u16_of (b ! 0) (b ! 1))"
proof -
  let ?l = "u16_of (b ! 0) (b ! 1)"
  obtain x y b' where b: "b = x # y # b'"
    using assms(1) by (cases b; cases "tl b") auto
  have "length (take (unat ?l) b') = unat ?l"
    using assms(2) b by simp
  moreover have "be16 (of_nat (unat ?l)) = [x, y]"
    by (simp add: b be16_u16_of)
  ultimately show ?thesis
    using that [of "take (unat ?l) b'" "drop (unat ?l) b'"] by (simp add: b)
qed

lemma ParseUpdate_parts:
  assumes "update_parts b w a n"
  shows "ParseUpdate b apl e = do {
      (wr, err) \<leftarrow> ParseNLRI w AFI_IPV4 SAFI_UNICAST (InAfiSafi AFI_IPV4 SAFI_UNICAST apl);
      if err \<noteq> None then Some (None, err)
      else do {
        (as, err) \<leftarrow> ParsePathAttribute a apl e;
        let m = \<lparr>WithdrawnRoutes = wr, PathAttributes = as, upd_NLRI = [],
          EnableAddPath = InAfiSafi AFI_IPV4 SAFI_UNICAST apl\<rparr> in
        if err \<noteq> None then Some (Some m, err)
        else do {
          (ns, err) \<leftarrow> ParseNLRI n AFI_IPV4 SAFI_UNICAST (InAfiSafi AFI_IPV4 SAFI_UNICAST apl);
          Some (Some (m\<lparr>upd_NLRI := ns\<rparr>), err)
        }
      }
    }"
proof -
  from assms have b: "b = be16 (of_nat (length w)) @ w @ be16 (of_nat (length a)) @ a @ n"
    and len: "length w < 65536" "length a < 65536"
    by (simp_all add: update_parts_def)
  have "get16 b 0 = Some (of_nat (length w))"
    by (simp add: b del: get16_Some)
  moreover have "subslice b 2 (2 + length w) = Some w"
    using subslice_mid [of "be16 (of_nat (length w))" w] by (simp add: b)
  moreover have "get16 b (2 + length w) = Some (of_nat (length a))"
    using get16_at [of "be16 (of_nat (length w)) @ w" "of_nat (length a)" "a @ n"]
    by (simp add: b del: get16_Some get16_append get16_at)
  moreover have "subslice b (2 + length w + 2) (2 + length w + 2 + length a) = Some a"
    using subslice_mid [of "be16 (of_nat (length w)) @ w @ be16 (of_nat (length a))" a n]
    by (simp add: b)
  moreover have "subslice b (2 + length w + 2 + length a) (length b) = Some n"
    using subslice_mid [of "be16 (of_nat (length w)) @ w @ be16 (of_nat (length a)) @ a" n "[]"]
    by (simp add: b add.assoc)
  moreover have "length b = 4 + length w + length a + length n"
    by (simp add: b)
  moreover obtain wr e1 where "ParseNLRI w AFI_IPV4 SAFI_UNICAST (InAfiSafi AFI_IPV4 SAFI_UNICAST apl) = Some (wr, e1)"
    using ParseNLRI_returns by blast
  moreover obtain as e2 where "ParsePathAttribute a apl e = Some (as, e2)"
    using ParsePathAttribute_returns by blast
  moreover obtain ns e3 where "ParseNLRI n AFI_IPV4 SAFI_UNICAST (InAfiSafi AFI_IPV4 SAFI_UNICAST apl) = Some (ns, e3)"
    using ParseNLRI_returns by blast
  ultimately show ?thesis
    using len by (cases e1; cases e2; cases e3) (simp_all add: ParseUpdate_def Let_def del: get16_Some)
qed

lemma ParseUpdate_malformed:
  assumes "\<nexists>w a n. update_parts b w a n"
  shows "\<exists>err. ParseUpdate b apl e = Some (None, Some err)"
proof (cases "length b < 4 \<or> unat (u16_of (b ! 0) (b ! 1)) + 4 > length b")
  case True
  then show ?thesis by (auto simp: ParseUpdate_def Let_def)
next
  case False
  then have "2 \<le> length b" "unat (u16_of (b ! 0) (b ! 1)) + 2 \<le> length b" by linarith+
  then obtain w r where b: "b = be16 (of_nat (length w)) @ w @ r" and w: "length w < 65536"
    and wlen: "length w = unat (u16_of (b ! 0) (b ! 1))"
    by (rule split_prefix16)
  have "length b = 2 + length w + length r"
    by (subst b) simp
  with False wlen have r2: "2 \<le> length r"
    by linarith
  let ?t = "u16_of (r ! 0) (r ! 1)"
  have short: "length r < unat ?t + 2"
  proof (rule ccontr)
    assume "\<not> length r < unat ?t + 2"
    then have "unat ?t + 2 \<le> length r" by simp
    with r2 obtain a n where "r = be16 (of_nat (length a)) @ a @ n" "length a < 65536"
      by (rule split_prefix16)
    with b w have "update_parts b w a n" by (simp add: update_parts_def)
    with assms show False by blast
  qed
  obtain wr err where p: "ParseNLRI w AFI_IPV4 SAFI_UNICAST (InAfiSafi AFI_IPV4 SAFI_UNICAST apl) = Some (wr, err)"
    using ParseNLRI_returns by blast
  have "get16 b 0 = Some (of_nat (length w))"
    by (simp add: b del: get16_Some)
  moreover have "subslice b 2 (2 + length w) = Some w"
    using subslice_mid [of "be16 (of_nat (length w))" w r] by (simp add: b)
  moreover have "get16 b (2 + length w) = Some ?t"
    using get16_append [of "be16 (of_nat (length w)) @ w" r 0] r2 by (simp add: b)
  moreover note \<open>length b = 2 + length w + length r\<close>
  ultimately show ?thesis
    using w r2 short p by (cases err) (simp_all add: ParseUpdate_def Let_def del: get16_Some)
qed


lemma ParseUpdate_returns:
  "\<exists>m err. ParseUpdate b apl e = Some (m, err) \<and> (m = None \<longrightarrow> err \<noteq> None) \<and>
    (\<forall>m'. m = Some m' \<longrightarrow> update_parsed apl e m')"
proof (cases "\<exists>w a n. update_parts b w a n")
  case False
  with ParseUpdate_malformed show ?thesis by fastforce
next
  case True
  then obtain w a n where parts: "update_parts b w a n" by blast
  let ?ap = "InAfiSafi AFI_IPV4 SAFI_UNICAST apl"
  obtain wr e1 where w: "ParseNLRI w AFI_IPV4 SAFI_UNICAST ?ap = Some (wr, e1)" "list_all (nlri_ok AFI_IPV4 ?ap) wr"
    using ParseNLRI_returns by blast
  obtain as e2 where a: "ParsePathAttribute a apl e = Some (as, e2)" "attrs_parsed apl e as"
    using ParsePathAttribute_returns by blast
  obtain ns e3 where n: "ParseNLRI n AFI_IPV4 SAFI_UNICAST ?ap = Some (ns, e3)" "list_all (nlri_ok AFI_IPV4 ?ap) ns"
    using ParseNLRI_returns by blast
  from w a n show ?thesis
    by (cases e1; cases e2) (simp_all add: ParseUpdate_parts [OF parts] update_parsed_def Let_def)
qed

lemma ParseUpdate_no_panic: "ParseUpdate b apl e \<noteq> None"
  using ParseUpdate_returns [of b apl e] by auto

section \<open>What is written is parsed back\<close>

definition update_ok :: "AfiSafi list \<Rightarrow> bool \<Rightarrow> BGPMessageUpdate \<Rightarrow> bool" where
  "update_ok apl e m \<longleftrightarrow>
     EnableAddPath m = InAfiSafi AFI_IPV4 SAFI_UNICAST apl \<and>
     list_all (nlri_ok AFI_IPV4 (EnableAddPath m)) (WithdrawnRoutes m) \<and>
     list_all (\<lambda>a. attr_ok apl e (deref a)) (PathAttributes m) \<and>
     list_all (nlri_ok AFI_IPV4 (EnableAddPath m)) (upd_NLRI m) \<and>
     Update_LenContent m \<le> 4077"

definition update_norm :: "bool \<Rightarrow> BGPMessageUpdate \<Rightarrow> BGPMessageUpdate" where
  "update_norm e m = m\<lparr>PathAttributes := map (\<lambda>a. Val (attr_norm e (deref a))) (PathAttributes m)\<rparr>"

lemma Update_Write_ok:
  assumes "update_ok apl e m"
  obtains w a n where
    "Update_Write m = Some (WriteBGPHeader MESSAGE_UPDATE (of_nat (Update_LenContent m)) @
       be16 (of_nat (length w)) @ w @ be16 (of_nat (length a)) @ a @ n)"
    "write_all (NLRI_Write (EnableAddPath m)) (WithdrawnRoutes m) = Some w"
    "write_all (\<lambda>a. Attr_Write (deref a)) (PathAttributes m) = Some a"
    "write_all (NLRI_Write (EnableAddPath m)) (upd_NLRI m) = Some n"
    "Update_LenContent m = 4 + length w + length a + length n"
proof -
  from assms obtain w a n where
    w: "write_all (NLRI_Write (EnableAddPath m)) (WithdrawnRoutes m) = Some w" and
    a: "write_all (\<lambda>a. Attr_Write (deref a)) (PathAttributes m) = Some a" and
    n: "write_all (NLRI_Write (EnableAddPath m)) (upd_NLRI m) = Some n"
    using write_all_NLRI_ok write_all_attrs_ok unfolding update_ok_def by metis
  have "list_all (\<lambda>a. attr_sized (deref a)) (PathAttributes m)"
    using assms by (auto simp: update_ok_def list_all_iff intro: attr_ok_sized)
  then have len: "length w = LenWithdrawn m" "length a = LenPathAttribute m"
    "length n = (\<Sum>n\<leftarrow>upd_NLRI m. NLRI_Len n (EnableAddPath m))"
    using w a n by (simp_all add: LenWithdrawn_def LenPathAttribute_def write_all_NLRI_length write_all_attrs_length)
  then show ?thesis
    using w a n by (intro that [OF _ w a n]) (simp_all add: Update_Write_def Update_LenContent_def)
qed

lemma ParseUpdate_Write:
  assumes "update_ok apl e m" and "Update_Write m = Some bs"
  shows "ParseUpdate (drop 19 bs) apl e = Some (Some (update_norm e m), None)"
proof -
  from assms(1) obtain w a n where bs:
    "Update_Write m = Some (WriteBGPHeader MESSAGE_UPDATE (of_nat (Update_LenContent m)) @
       be16 (of_nat (length w)) @ w @ be16 (of_nat (length a)) @ a @ n)" and
    w: "write_all (NLRI_Write (EnableAddPath m)) (WithdrawnRoutes m) = Some w" and
    a: "write_all (\<lambda>a. Attr_Write (deref a)) (PathAttributes m) = Some a" and
    n: "write_all (NLRI_Write (EnableAddPath m)) (upd_NLRI m) = Some n" and
    len: "Update_LenContent m = 4 + length w + length a + length n"
    by (rule Update_Write_ok)
  have parts: "update_parts (drop 19 bs) w a n"
    using bs assms len by (simp add: update_parts_def update_ok_def GetBGPHeaderLen_def)
  have ap: "EnableAddPath m = InAfiSafi AFI_IPV4 SAFI_UNICAST apl"
    and ok: "list_all (nlri_ok AFI_IPV4 (EnableAddPath m)) (WithdrawnRoutes m)"
      "list_all (nlri_ok AFI_IPV4 (EnableAddPath m)) (upd_NLRI m)"
      "list_all (\<lambda>a. attr_ok apl e (deref a)) (PathAttributes m)"
    using assms(1) unfolding update_ok_def by blast+
  have "ParseNLRI w AFI_IPV4 SAFI_UNICAST (InAfiSafi AFI_IPV4 SAFI_UNICAST apl) = Some (WithdrawnRoutes m, None)"
    "ParseNLRI n AFI_IPV4 SAFI_UNICAST (InAfiSafi AFI_IPV4 SAFI_UNICAST apl) = Some (upd_NLRI m, None)"
    using ParseNLRI_Write [OF disjI1 [OF refl] ok(1) w] ParseNLRI_Write [OF disjI1 [OF refl] ok(2) n]
    unfolding ap by simp_all
  moreover have "ParsePathAttribute a apl e = Some (map (\<lambda>a. Val (attr_norm e (deref a))) (PathAttributes m), None)"
    by (rule ParsePathAttribute_Write [OF ok(3) a])
  ultimately show ?thesis
    using ap by (simp add: ParseUpdate_parts [OF parts] update_norm_def Let_def)
qed

lemma ParseUpdate_example:
  "ParseUpdate [0, 0, 0, 0, 8, 10] [] False = Some (Some
     \<lparr>WithdrawnRoutes = [], PathAttributes = [],
      upd_NLRI = [\<lparr>Prefix = \<lparr>IP = [10, 0, 0, 0], Mask = [0xff, 0, 0, 0]\<rparr>, PathId = 0\<rparr>],
      EnableAddPath = False\<rparr>, None)"
proof -
  let ?ns = "[\<lparr>Prefix = \<lparr>IP = [10, 0, 0, 0], Mask = [0xff, 0, 0, 0]\<rparr>, PathId = 0\<rparr>]"
  have "ParseNLRI [8, 10] AFI_IPV4 SAFI_UNICAST False = Some (?ns, None)"
    by (rule ParseNLRI_Write)
      (simp_all add: nlri_ok_def NLRI_Write_def GetSplitLen_def IPMask_Size_def prefix_bytes_def
        subslice_def afi_asize_def cidr_mask_def cidr_byte_def upt_rec replicate_numeral)
  moreover have "ParseNLRI [] AFI_IPV4 SAFI_UNICAST False = Some ([], None)"
    by (rule ParseNLRI_Write) simp_all
  moreover have "ParsePathAttribute [] [] False = Some ([], None)"
    using ParsePathAttribute_Write [of "[]" False "[]"] by simp
  moreover have "update_parts [0, 0, 0, 0, 8, 10] [] [] [8, 10]"
    by (simp add: update_parts_def be16_def)
  ultimately show ?thesis
    by (simp add: ParseUpdate_parts)
qed

lemma Update_wire:
  assumes "update_ok apl e m"
  shows "\<exists>bs. Update_Write m = Some bs \<and> length bs = Update_Len m \<and>
    ParsePacketHeader bs = Some (MESSAGE_UPDATE, of_nat (length bs - 19), None) \<and>
    ParseUpdate (drop 19 bs) apl e = Some (Some (update_norm e m), None)"
proof -
  from assms obtain w a n where bs:
    "Update_Write m = Some (WriteBGPHeader MESSAGE_UPDATE (of_nat (Update_LenContent m)) @
       be16 (of_nat (length w)) @ w @ be16 (of_nat (length a)) @ a @ n)" and
    len: "Update_LenContent m = 4 + length w + length a + length n"
    by (rule Update_Write_ok)
  let ?bs = "WriteBGPHeader MESSAGE_UPDATE (of_nat (Update_LenContent m)) @
       be16 (of_nat (length w)) @ w @ be16 (of_nat (length a)) @ a @ n"
  have "length ?bs = Update_Len m" "length ?bs - 19 = Update_LenContent m"
    by (simp_all add: Update_Len_def len GetBGPHeaderLen_def)
  moreover have "unat (of_nat (Update_LenContent m) :: u16) \<le> 4077"
    using assms by (simp add: update_ok_def)
  then have "ParsePacketHeader ?bs = Some (MESSAGE_UPDATE, of_nat (Update_LenContent m), None)"
    by (rule ParsePacketHeader_Write)
  ultimately show ?thesis
    using bs ParseUpdate_Write [OF assms bs] by metis
qed

section \<open>Properties\<close>

text \<open>
  C13: On every input, for every add-path negotiation and AS number width, \<open>ParseUpdate\<close> returns:
  no loop runs forever and no access is out of range. Without an error there is a message, and
  every message it returns, also next to an error, has well-formed prefixes and attributes.
\<close>

theorem ParseUpdate_safe:
  "\<exists>m err. ParseUpdate b apl e = Some (m, err) \<and> (m = None \<longrightarrow> err \<noteq> None) \<and>
    (\<forall>m'. m = Some m' \<longrightarrow> update_parsed apl e m')"
  by (rule ParseUpdate_returns)

theorem ParseUpdate_safe_witness:
  "\<exists>m. ParseUpdate [0, 0, 0, 0, 8, 10] [] False = Some (Some m, None) \<and> update_parsed [] False m \<and>
    upd_NLRI m = [\<lparr>Prefix = \<lparr>IP = [10, 0, 0, 0], Mask = [0xff, 0, 0, 0]\<rparr>, PathId = 0\<rparr>]"
  using ParseUpdate_safe [of "[0, 0, 0, 0, 8, 10]" "[]" False] by (simp add: ParseUpdate_example)


lemma CraftUpdateMessage_ok: "update_ok [] False (CraftUpdateMessage 0)"
  by (simp add: update_ok_def CraftUpdateMessage_def seg_ok_def mp_nlri_ok_def nlri_ok_def
      IPMask_Size_cidr afi_asize_def prefix_bytes_def Update_LenContent_def LenWithdrawn_def
      LenPathAttribute_def AttributeHeaderLen_def ASPATH_LenContent_def Segment_LenContent_def
      LenSets_def MP_REACH_ContentLen_def GetNextHopLen_def NLRI_Len_def GetSplitLen_def
      IPtoBytes_def To4_def To16_def nil_empty_def v4InV6Prefix_def)


text \<open>
  C17: An UPDATE accepted by \<open>ParseUpdate\<close> is the bytes of its withdrawn prefixes, a block of
  attributes, and the bytes of its announced prefixes: writing the prefixes it returns reproduces
  both parts exactly, so no prefix is invented, dropped or changed.
\<close>

theorem ParseUpdate_prefixes_exact:
  assumes "ParseUpdate b apl e = Some (Some m, None)"
  shows "\<exists>w a n. b = be16 (of_nat (length w)) @ w @ be16 (of_nat (length a)) @ a @ n \<and>
    write_all (NLRI_Write (EnableAddPath m)) (WithdrawnRoutes m) = Some w \<and>
    write_all (NLRI_Write (EnableAddPath m)) (upd_NLRI m) = Some n \<and>
    ParsePathAttribute a apl e = Some (PathAttributes m, None)"
proof -
  from assms have "\<exists>w a n. update_parts b w a n"
    using ParseUpdate_malformed [of b apl e] by (metis option.distinct(1) option.inject prod.inject)
  then obtain w a n where parts: "update_parts b w a n" by blast
  let ?ap = "InAfiSafi AFI_IPV4 SAFI_UNICAST apl"
  obtain wr e1 where w: "ParseNLRI w AFI_IPV4 SAFI_UNICAST ?ap = Some (wr, e1)"
    "e1 = None \<longrightarrow> write_all (NLRI_Write ?ap) wr = Some w"
    using ParseNLRI_returns by blast
  obtain as e2 where a: "ParsePathAttribute a apl e = Some (as, e2)"
    using ParsePathAttribute_returns by blast
  obtain ns e3 where n: "ParseNLRI n AFI_IPV4 SAFI_UNICAST ?ap = Some (ns, e3)"
    "e3 = None \<longrightarrow> write_all (NLRI_Write ?ap) ns = Some n"
    using ParseNLRI_returns by blast
  from assms w a n have "e1 = None" "e2 = None" "e3 = None" and
    m: "m = \<lparr>WithdrawnRoutes = wr, PathAttributes = as, upd_NLRI = ns, EnableAddPath = ?ap\<rparr>"
    by (cases e1; cases e2; simp add: ParseUpdate_parts [OF parts] Let_def)+
  with w a n parts show ?thesis
    by (intro exI [of _ w] exI [of _ a] exI [of _ n]) (simp add: update_parts_def)
qed

theorem ParseUpdate_prefixes_exact_witness:
  "\<exists>w a n. [0, 0, 0, 0, 8, 10 :: byte] = be16 (of_nat (length w)) @ w @ be16 (of_nat (length a)) @ a @ n \<and>
    write_all (NLRI_Write False) [\<lparr>Prefix = \<lparr>IP = [10, 0, 0, 0], Mask = [0xff, 0, 0, 0]\<rparr>, PathId = 0\<rparr>] = Some n"
  using ParseUpdate_prefixes_exact [OF ParseUpdate_example]
  by (simp only: BGPMessageUpdate.simps) blast

end
