(* ===== verification/Bgp_Packet.thy ===== *)
theory Bgp_Packet
  imports Bgp_Open Bgp_Update
begin

text \<open>
  Whole messages: \<open>ParsePacket\<close> of \<^verbatim>\<open>messages/messages.go\<close>, which dispatches on the type byte of
  the header, the writers of all messages behind the interface \<^verbatim>\<open>SerializableInterface\<close>, and the
  fuzzing entry point \<^verbatim>\<open>messages/fuzzing.go\<close>. A parser that fails returns a nil pointer inside a
  non-nil interface: the constructors hold an option. Lemmas: every message the library can
  send, except ROUTE-REFRESH, is read back; the entry points never panic.
\<close>

section \<open>Messages\<close>

datatype Message =
    OpenMsg "BGPMessageOpen option"
  | UpdateMsg "BGPMessageUpdate option"
  | NotificationMsg "BGPMessageNotification option"
  | KeepAliveMsg
  | RouteRefreshMsg BGPMessageRouteRefresh

definition ParsePacket :: "byte \<Rightarrow> bytes \<Rightarrow> (Message option \<times> bgp_error option) go" where
  "ParsePacket bgptype b =
     (if bgptype = MESSAGE_OPEN then
        do { (m, err) \<leftarrow> ParseOpen b; Some (Some (OpenMsg m), err) }
      else if bgptype = MESSAGE_UPDATE then
        do { (m, err) \<leftarrow> ParseUpdate b [] False; Some (Some (UpdateMsg m), err) }
      else if bgptype = MESSAGE_NOTIFICATION then
        do { (m, err) \<leftarrow> ParseNotification b; Some (Some (NotificationMsg m), err) }
      else if bgptype = MESSAGE_KEEPALIVE then Some (Some KeepAliveMsg, None)
      else Some (None, Some (ErrUnknownType bgptype)))"

text \<open>\<^verbatim>\<open>Write\<close> and \<^verbatim>\<open>Len\<close> of the interface; on a nil pointer both panic.\<close>

fun Message_Write :: "Message \<Rightarrow> bytes go" where
  "Message_Write (OpenMsg (Some m)) = Open_Write m"
| "Message_Write (UpdateMsg (Some m)) = Update_Write m"
| "Message_Write (NotificationMsg (Some m)) = Some (Notification_Write m)"
| "Message_Write KeepAliveMsg = Some KeepAlive_Write"
| "Message_Write (RouteRefreshMsg m) = Some (RouteRefresh_Write m)"
| "Message_Write _ = None"

fun Message_Len :: "Message \<Rightarrow> nat go" where
  "Message_Len (OpenMsg (Some m)) = Some (Open_Len m)"
| "Message_Len (UpdateMsg (Some m)) = Some (Update_Len m)"
| "Message_Len (NotificationMsg (Some m)) = Some (Notification_Len m)"
| "Message_Len KeepAliveMsg = Some KeepAlive_Len"
| "Message_Len (RouteRefreshMsg m) = Some (RouteRefresh_Len m)"
| "Message_Len _ = None"

section \<open>Fuzz\<close>

definition Fuzz :: "bytes \<Rightarrow> int go" where
  "Fuzz blob = do {
     (bgptype, _, err) \<leftarrow> ParsePacketHeader blob;
     if err = None then
       if bgptype = MESSAGE_UPDATE then do {
         body \<leftarrow> subslice blob (16 + 3) (length blob);
         (_, err1) \<leftarrow> ParseUpdate body [] False;
         (_, err2) \<leftarrow> ParseUpdate body [\<lparr>as_Afi = 1, as_Safi = 1\<rparr>] False;
         (_, err3) \<leftarrow> ParseUpdate body [\<lparr>as_Afi = 2, as_Safi = 2\<rparr>] False;
         if err1 = None \<or> err2 = None \<or> err3 = None then Some 1 else Some 0
       }
       else if bgptype = MESSAGE_OPEN then do {
         body \<leftarrow> subslice blob (16 + 3) (length blob);
         (pkt, err) \<leftarrow> ParseOpen body;
         if err \<noteq> None then Some 0
         else do { _ \<leftarrow> Message_Len (OpenMsg pkt); Some 1 }
       }
       else if bgptype = MESSAGE_NOTIFICATION then do {
         body \<leftarrow> subslice blob 16 (length blob);
         (_, err) \<leftarrow> ParseNotification body;
         if err \<noteq> None then Some 0 else Some 1
       }
       else Some 0
     else Some 0
   }"

section \<open>Absence of panic\<close>

lemma ParsePacketHeader_long:
  "ParsePacketHeader b = Some (t, n, None) \<Longrightarrow> 19 \<le> length b"
  by (auto simp: ParsePacketHeader_def split: if_splits)

lemma ParsePacket_returns: "\<exists>m err. ParsePacket t b = Some (m, err) \<and> (m = None \<longrightarrow> err \<noteq> None)"
proof -
  obtain om oe where "ParseOpen b = Some (om, oe)" using ParseOpen_returns by blast
  moreover obtain um ue where "ParseUpdate b [] False = Some (um, ue)" using ParseUpdate_returns by blast
  moreover obtain nm ne where "ParseNotification b = Some (nm, ne)"
    using ParseNotification_no_panic [of b] by fastforce
  ultimately show ?thesis by (simp add: ParsePacket_def)
qed

lemma Fuzz_returns: "\<exists>r. Fuzz blob = Some r \<and> r \<in> {0, 1}"
proof -
  obtain t n err where h: "ParsePacketHeader blob = Some (t, n, err)"
    using ParsePacketHeader_no_panic [of blob] by (cases "ParsePacketHeader blob") auto
  show ?thesis
  proof (cases err)
    case (Some e)
    with h show ?thesis by (simp add: Fuzz_def)
  next
    case None
    with h have len: "19 \<le> length blob" by (simp add: ParsePacketHeader_long)
    obtain m0 e0 where o': "ParseOpen (drop 19 blob) = Some (m0, e0)" "m0 = None \<longleftrightarrow> e0 \<noteq> None"
      using ParseOpen_returns by blast
    obtain m1 e1 where u1: "ParseUpdate (drop 19 blob) [] False = Some (m1, e1)"
      using ParseUpdate_returns by blast
    obtain m2 e2 where u2: "ParseUpdate (drop 19 blob) [\<lparr>as_Afi = 1, as_Safi = 1\<rparr>] False = Some (m2, e2)"
      using ParseUpdate_returns by blast
    obtain m3 e3 where u3: "ParseUpdate (drop 19 blob) [\<lparr>as_Afi = 2, as_Safi = 2\<rparr>] False = Some (m3, e3)"
      using ParseUpdate_returns by blast
    obtain m4 e4 where n': "ParseNotification (drop 16 blob) = Some (m4, e4)"
      using ParseNotification_no_panic [of "drop 16 blob"] by fastforce
    from h None len o' u1 u2 u3 n' show ?thesis
      by (cases m0) (auto simp: Fuzz_def subslice_def)
  qed
qed

section \<open>What is written is parsed back\<close>

text \<open>The messages a session can carry.\<close>

fun message_ok :: "Message \<Rightarrow> bool" where
  "message_ok (OpenMsg (Some m)) = open_ok m"
| "message_ok (UpdateMsg (Some m)) = update_ok [] False m"
| "message_ok (NotificationMsg (Some m)) = (length (ErrorData m) \<le> 4075)"
| "message_ok KeepAliveMsg = True"
| "message_ok _ = False"

fun message_norm :: "Message \<Rightarrow> Message" where
  "message_norm (OpenMsg (Some m)) = OpenMsg (Some (open_norm m))"
| "message_norm (UpdateMsg (Some m)) = UpdateMsg (Some (update_norm False m))"
| "message_norm m = m"

lemma Message_Len_bounds:
  "message_ok m \<Longrightarrow> Message_Len m = Some l \<Longrightarrow> 19 \<le> l \<and> l \<le> 4096"
  by (cases m rule: message_ok.cases)
    (auto simp: open_ok_def update_ok_def Open_Len_def Open_LenContent_def Update_Len_def
      Notification_Len_def KeepAlive_Len_def GetBGPHeaderLen_def)

lemma Message_wire:
  assumes "message_ok m"
  shows "\<exists>bs t. Message_Write m = Some bs \<and> Message_Len m = Some (length bs) \<and>
    ParsePacketHeader bs = Some (t, of_nat (length bs - 19), None) \<and>
    ParsePacket t (drop 19 bs) = Some (Some (message_norm m), None)"
  using assms
proof (cases m rule: message_ok.cases)
  case (1 o')
  with assms have "open_ok o'" by simp
  from Open_wire [OF this] obtain bs where "Open_Write o' = Some bs" and w:
    "length bs = Open_Len o'" "ParsePacketHeader bs = Some (MESSAGE_OPEN, of_nat (length bs - 19), None)"
    "ParseOpen (drop 19 bs) = Some (Some (open_norm o'), None)" by blast
  with 1 show ?thesis
    by (intro exI [of _ bs] exI [of _ MESSAGE_OPEN]) (simp add: ParsePacket_def)
next
  case (2 u)
  with assms have "update_ok [] False u" by simp
  from Update_wire [OF this] obtain bs where "Update_Write u = Some bs" and w:
    "length bs = Update_Len u" "ParsePacketHeader bs = Some (MESSAGE_UPDATE, of_nat (length bs - 19), None)"
    "ParseUpdate (drop 19 bs) [] False = Some (Some (update_norm False u), None)" by blast
  with 2 show ?thesis
    by (intro exI [of _ bs] exI [of _ MESSAGE_UPDATE]) (simp add: ParsePacket_def)
next
  case (3 n)
  have "unat (of_nat (2 + length (ErrorData n)) :: u16) \<le> 4077"
    using 3 assms by (subst unat_of_nat16) simp_all
  then have "ParsePacketHeader (Notification_Write n) =
      Some (MESSAGE_NOTIFICATION, of_nat (length (Notification_Write n) - 19), None)"
    unfolding Notification_Write_def
    by (subst ParsePacketHeader_Write) (simp_all add: GetBGPHeaderLen_def)
  with 3 ParseNotification_Write [of n] show ?thesis
    by (intro exI [of _ "Notification_Write n"] exI [of _ MESSAGE_NOTIFICATION])
      (simp add: ParsePacket_def length_Notification_Write)
next
  case 4
  then show ?thesis
    using ParsePacketHeader_Write [of 0 MESSAGE_KEEPALIVE "[]"]
    by (simp add: ParsePacket_def KeepAlive_Write_def KeepAlive_Len_def GetBGPHeaderLen_def)
qed simp_all

section \<open>Properties\<close>



text \<open>
  \<open>ParsePacket\<close> returns on every type byte and every body, and never returns nil for both the
  message and the error.
\<close>

theorem ParsePacket_safe:
  "\<exists>m err. ParsePacket t b = Some (m, err) \<and> (m, err) \<noteq> (None, None)"
  using ParsePacket_returns [of t b] by fastforce

text \<open>
  The fuzzing entry point never panics, whatever the input, and returns 0 or 1.
\<close>

theorem Fuzz_safe:
  "\<exists>r. Fuzz blob = Some r \<and> r \<in> {0, 1}"
  by (rule Fuzz_returns)

text \<open>
  A ROUTE-REFRESH is the one message the library writes and cannot read: its header is
  accepted, with type 5 and four bytes of body, and \<open>ParsePacket\<close> rejects that type.
\<close>

theorem RouteRefresh_not_parsed:
  "ParsePacketHeader (RouteRefresh_Write m) = Some (MESSAGE_ROUTEREFRESH, 4, None) \<and>
   ParsePacket MESSAGE_ROUTEREFRESH (drop 19 (RouteRefresh_Write m)) =
     Some (None, Some (ErrUnknownType MESSAGE_ROUTEREFRESH))"
  by (simp add: RouteRefresh_Write_def ParsePacketHeader_Write ParsePacket_def)

end
