(* ===== verification/Neighbor.thy ===== *)
theory Neighbor
  imports Bgp_Packet
begin

text \<open>
  A BGP neighbor (\<^verbatim>\<open>server/server.go\<close>): its state, add-path negotiation, the reaction to an OPEN,
  the finite state machine \<open>EvolveState\<close>, sending and receiving.

  The neighbor is one record, passed from operation to operation; an operation that can panic
  returns an option. What the operations take from outside is an argument: the clock (\<open>env_clock i\<close>
  is the reading at the \<open>i\<close>-th call site), whether the dial succeeds, whether another goroutine waits
  in its select when a signal is offered without blocking, and the answers of the user's event
  handler, which is taken not to change the neighbor. Durations and times are nanoseconds. A send
  on \<^verbatim>\<open>OutQueue\<close> appends: waiting for room in the channel is not modelled. Calls of the handlers
  are recorded in \<open>n_Events\<close>, in order.
\<close>

section \<open>State\<close>

datatype fsm =
  STATE_IDLE | STATE_CONNECT | STATE_ACTIVE | STATE_OPENSENT | STATE_OPENCONFIRM | STATE_ESTABLISHED

record State =
  CurState :: fsm
  OpenReceived :: bool
  st_Time :: int

datatype event =
    EvNewNeighbor BGPMessageOpen
  | EvNotification "BGPMessageNotification option"
  | EvDisconnected
  | EvProcessReceived Message
  | EvUpdate bytes

record Neighbor =
  n_Addr :: bytes
  n_Port :: nat
  n_State :: State
  n_Afi :: u16
  n_Safi :: byte
  Connected :: bool
  Reconnect :: bool
  LastKeepAliveSent :: int
  PeerEnableKeepAlive :: bool
  PeerHoldTime :: int
  PeerMultiprotocolList :: "(u16 \<times> byte) list"
  PeerAddPathList :: "AddPath list"
  PeerASN :: u32
  PeerRouteRefresh :: bool
  Peer2Bytes :: bool
  PeerIdentifier :: bytes
  LocalLastKeepAliveRecv :: int
  LocalEnableKeepAlive :: bool
  LocalHoldTime :: int
  n_Identifier :: bytes
  n_ASN :: u32
  MultiprotocolList :: "(u16 \<times> byte) list"
  AddPathList :: "AddPath list"
  n_RouteRefresh :: bool
  SendAddPath :: "AfiSafi list"
  DecodeAddPath :: "AfiSafi list"
  ReplicateASN :: bool
  Passive :: bool
  RemoveOnDisconnect :: bool
  OutQueue :: "Message list"
  n_update :: "Message list"
  n_Managed :: bool
  n_Removed :: bool
  n_LifeStopped :: bool
  n_SenderStopped :: bool
  n_Events :: "event list"

record Env =
  env_clock :: "nat \<Rightarrow> int"
  env_dial :: bool
  env_life_waits :: bool
  env_sender_waits :: bool

record EventHandler =
  he_NewNeighbor :: "BGPMessageOpen \<Rightarrow> Neighbor \<Rightarrow> bool"
  he_ProcessReceived :: "Message \<Rightarrow> Neighbor \<Rightarrow> bool \<times> bool"

text \<open>The result of \<open>he_ProcessReceived\<close>: the boolean and whether there is an error.\<close>

abbreviation second :: int where "second \<equiv> 1000000000"

section \<open>Small operations\<close>

definition UpdateState :: "fsm \<Rightarrow> int \<Rightarrow> Neighbor \<Rightarrow> Neighbor" where
  "UpdateState newstate now n = n\<lparr>n_State := (n_State n)\<lparr>CurState := newstate, st_Time := now\<rparr>\<rparr>"

definition log_event :: "event \<Rightarrow> Neighbor \<Rightarrow> Neighbor" where
  "log_event ev n = n\<lparr>n_Events := n_Events n @ [ev]\<rparr>"

definition Connect :: "bool \<Rightarrow> Neighbor \<Rightarrow> Neighbor \<times> bool" where
  "Connect ok n = (if ok then (n\<lparr>Connected := True\<rparr>, True) else (n, False))"

definition Disconnect :: "Env \<Rightarrow> EventHandler option \<Rightarrow> Neighbor \<Rightarrow> Neighbor" where
  "Disconnect env h n =
     (let n = n\<lparr>Connected := False, n_State := (n_State n)\<lparr>OpenReceived := False\<rparr>\<rparr>;
          n = UpdateState STATE_IDLE (env_clock env 5) n;
          n = (if h \<noteq> None then log_event EvDisconnected n else n)
      in if RemoveOnDisconnect n \<and> n_Managed n then
           n\<lparr>n_LifeStopped := n_LifeStopped n \<or> env_life_waits env,
             n_SenderStopped := n_SenderStopped n \<or> env_sender_waits env,
             n_Removed := True\<rparr>
         else n)"

definition Refresh :: "AfiSafi \<Rightarrow> Neighbor \<Rightarrow> Neighbor \<times> bool" where
  "Refresh afisafi n =
     (if PeerRouteRefresh n
      then (n\<lparr>OutQueue := OutQueue n @ [RouteRefreshMsg \<lparr>rr_AfiSafi = afisafi\<rparr>]\<rparr>, True)
      else (n, False))"

definition RefreshAll :: "Neighbor \<Rightarrow> Neighbor \<times> bool" where
  "RefreshAll n =
     (let (n, ok) = Refresh \<lparr>as_Afi = AFI_IPV4, as_Safi = SAFI_UNICAST\<rparr> n
      in if \<not> ok then (n, False) else Refresh \<lparr>as_Afi = AFI_IPV6, as_Safi = SAFI_UNICAST\<rparr> n)"

text \<open>\<open>CraftUpdate\<close> ignores its arguments; \<open>SendRoute\<close> queues what it returns.\<close>

definition CraftUpdate ::
  "AfiSafi \<Rightarrow> NLRI list \<Rightarrow> NLRI list \<Rightarrow> bytes \<Rightarrow> u32 list \<Rightarrow> u32 list \<Rightarrow> u32 \<Rightarrow> u32 \<Rightarrow>
    BGPMessageUpdate" where
  "CraftUpdate afisafi nlri withdraw nextHop communities aspath med locpref =
     \<lparr>WithdrawnRoutes = [], PathAttributes = [], upd_NLRI = [], EnableAddPath = False\<rparr>"

definition SendRoute ::
  "AfiSafi \<Rightarrow> NLRI list \<Rightarrow> NLRI list \<Rightarrow> bytes \<Rightarrow> u32 list \<Rightarrow> u32 list \<Rightarrow> u32 \<Rightarrow> u32 \<Rightarrow>
    Neighbor \<Rightarrow> Neighbor" where
  "SendRoute afisafi nlri withdraw nextHop communities aspath med locpref n =
     n\<lparr>OutQueue := OutQueue n @
       [UpdateMsg (Some (CraftUpdate afisafi nlri withdraw nextHop communities aspath med locpref))]\<rparr>"

section \<open>Add-path negotiation\<close>

definition EqualsAfiSafi :: "AddPath \<Rightarrow> AddPath \<Rightarrow> bool" where
  "EqualsAfiSafi ap ap2 \<longleftrightarrow> ap_Afi ap = ap_Afi ap2 \<and> ap_Safi ap = ap_Safi ap2"

primrec foldM_go :: "('a \<Rightarrow> 's \<Rightarrow> 's go) \<Rightarrow> 'a list \<Rightarrow> 's \<Rightarrow> 's go" where
  "foldM_go f [] s = Some s"
| "foldM_go f (x # xs) s = do { s \<leftarrow> f x s; foldM_go f xs s }"

text \<open>
  One iteration of the outer loop. The inner loop stops at the first remote entry of the same
  family; the code then reads \<^verbatim>\<open>remote[i]\<close>, with the index of the local entry.
\<close>

definition compare_one ::
  "AddPath list \<Rightarrow> AddPath list \<Rightarrow> nat \<Rightarrow> AfiSafi list \<times> AfiSafi list \<Rightarrow>
    (AfiSafi list \<times> AfiSafi list) go" where
  "compare_one local remote i = (\<lambda>(send, recv). do {
     l \<leftarrow> idx local i;
     (case find (EqualsAfiSafi l) remote of
        None \<Rightarrow> Some (send, recv)
      | Some r \<Rightarrow>
          if ap_TxRx l OR ap_TxRx r = 3 then do {
            ri \<leftarrow> idx remote i;
            let recv = (if ap_TxRx ri AND 2 \<noteq> 0 \<and> ap_TxRx l AND 1 \<noteq> 0
                  then recv @ [\<lparr>as_Afi = ap_Afi l, as_Safi = ap_Safi l\<rparr>] else recv);
                send = (if ap_TxRx ri AND 1 \<noteq> 0 \<and> ap_TxRx l AND 2 \<noteq> 0
                  then send @ [\<lparr>as_Afi = ap_Afi l, as_Safi = ap_Safi l\<rparr>] else send) in
            Some (send, recv)
          } else Some (send, recv))
   })"

definition CompareAddPath :: "AddPath list \<Rightarrow> AddPath list \<Rightarrow> (AfiSafi list \<times> AfiSafi list) go" where
  "CompareAddPath local remote = foldM_go (compare_one local remote) [0..<length local] ([], [])"

section \<open>UpdateFromOpen\<close>

definition apply_cap :: "BGPCapabilityIf \<Rightarrow> Neighbor \<Rightarrow> Neighbor go" where
  "apply_cap c n =
     (case c of
        Val (BGPCapability_MP afi safi) \<Rightarrow>
          Some (n\<lparr>PeerMultiprotocolList := MultiprotocolList n @ [(afi, safi)]\<rparr>)
      | Val (BGPCapability_ADDPATH l) \<Rightarrow>
          let n = n\<lparr>PeerAddPathList := l\<rparr> in do {
            (send, recv) \<leftarrow> CompareAddPath (AddPathList n) (PeerAddPathList n);
            Some (n\<lparr>SendAddPath := send, DecodeAddPath := recv\<rparr>)
          }
      | Val (BGPCapability_ASN asn) \<Rightarrow> Some (n\<lparr>Peer2Bytes := False, PeerASN := asn\<rparr>)
      | Val BGPCapability_ROUTEREFRESH \<Rightarrow> Some (n\<lparr>PeerRouteRefresh := True\<rparr>)
      | _ \<Rightarrow> Some n)"

text \<open>The type assertion \<^verbatim>\<open>Data.(messages.BGPCapabilities)\<close> panics on nil and on a pointer.\<close>

definition apply_param :: "BGPParameter \<Rightarrow> Neighbor \<Rightarrow> Neighbor go" where
  "apply_param p n =
     (if param_Type p = PARAMETER_CAPA then
        case param_Data p of Some (Val capas) \<Rightarrow> foldM_go apply_cap capas n | _ \<Rightarrow> None
      else Some n)"

definition UpdateFromOpen :: "BGPMessageOpen \<Rightarrow> Neighbor \<Rightarrow> Neighbor go" where
  "UpdateFromOpen pkt n =
     foldM_go apply_param (Parameters pkt)
       (n\<lparr>PeerASN := ucast (open_ASN pkt), PeerIdentifier := Identifier pkt, Peer2Bytes := True\<rparr>)"

section \<open>EvolveState\<close>

text \<open>The reaction to a packet (the first switch).\<close>

fun evolve_packet :: "Env \<Rightarrow> EventHandler option \<Rightarrow> Message option \<Rightarrow> Neighbor \<Rightarrow> Neighbor go" where
  "evolve_packet env h (Some (OpenMsg (Some pkt))) n =
     (let n = (if HoldTime pkt \<noteq> 0
            then n\<lparr>PeerHoldTime := uint (HoldTime pkt) * second, PeerEnableKeepAlive := True\<rparr> else n);
          n = (if ReplicateASN n then n\<lparr>n_ASN := PeerASN n\<rparr> else n) in do {
        n \<leftarrow> UpdateFromOpen pkt n;
        let n = n\<lparr>n_State := (n_State n)\<lparr>OpenReceived := True\<rparr>\<rparr> in
        (case h of
           None \<Rightarrow> Some n
         | Some eh \<Rightarrow>
             let ret = he_NewNeighbor eh pkt n; n = log_event (EvNewNeighbor pkt) n in
             Some (if \<not> ret then Disconnect env h n else n))
      })"
| "evolve_packet env h (Some (OpenMsg None)) n = None"
| "evolve_packet env h (Some KeepAliveMsg) n =
     Some (if CurState (n_State n) = STATE_OPENCONFIRM
       then UpdateState STATE_ESTABLISHED (env_clock env 0) n else n)"
| "evolve_packet env h (Some (NotificationMsg m)) n =
     (let n = (if h \<noteq> None then log_event (EvNotification m) n else n)
      in Some (Disconnect env h n))"
| "evolve_packet env h _ n = Some n"

definition send_keepalive :: "Env \<Rightarrow> Neighbor \<Rightarrow> Neighbor" where
  "send_keepalive env n =
     (if PeerEnableKeepAlive n \<and>
         LastKeepAliveSent n + PeerHoldTime n div second div 3 < env_clock env 2
      then n\<lparr>OutQueue := OutQueue n @ [KeepAliveMsg], LastKeepAliveSent := env_clock env 3\<rparr>
      else n)"

text \<open>The state machine (the second switch).\<close>

definition evolve_fsm :: "Env \<Rightarrow> Neighbor \<Rightarrow> Neighbor" where
  "evolve_fsm env n =
     (case CurState (n_State n) of
        STATE_IDLE \<Rightarrow>
          if \<not> Passive n then
            case Connect (env_dial env) n of (n, ok) \<Rightarrow>
              if ok then UpdateState STATE_ACTIVE (env_clock env 0) n else n
          else n
      | STATE_ACTIVE \<Rightarrow>
          if \<not> Passive n \<or> OpenReceived (n_State n) then
            let ht = (if LocalEnableKeepAlive n then word_of_int (LocalHoldTime n div second) else 0);
                open = CraftOpenMessage (n_ASN n) ht (nil_empty (To4 (n_Identifier n)))
                  (MultiprotocolList n) (AddPathList n) (n_RouteRefresh n);
                n = n\<lparr>OutQueue := OutQueue n @ [OpenMsg (Some open)]\<rparr>;
                n = n\<lparr>OutQueue := OutQueue n @ [KeepAliveMsg]\<rparr>
            in UpdateState STATE_OPENSENT (env_clock env 0) n
          else n
      | STATE_OPENSENT \<Rightarrow>
          if OpenReceived (n_State n) then UpdateState STATE_OPENCONFIRM (env_clock env 0) n else n
      | STATE_ESTABLISHED \<Rightarrow> send_keepalive env n
      | STATE_OPENCONFIRM \<Rightarrow> send_keepalive env n
      | STATE_CONNECT \<Rightarrow> n)"

definition check_hold :: "Env \<Rightarrow> EventHandler option \<Rightarrow> Neighbor \<Rightarrow> Neighbor" where
  "check_hold env h n =
     (if CurState (n_State n) \<noteq> STATE_IDLE \<and> CurState (n_State n) \<noteq> STATE_ACTIVE \<and>
         LocalEnableKeepAlive n \<and> LocalLastKeepAliveRecv n + LocalHoldTime n < env_clock env 4
      then Disconnect env h n else n)"

definition EvolveState :: "Env \<Rightarrow> EventHandler option \<Rightarrow> Message option \<Rightarrow> Neighbor \<Rightarrow> Neighbor go" where
  "EvolveState env h pkt n = do {
     n \<leftarrow> evolve_packet env h pkt n;
     let n = (if pkt \<noteq> None then n\<lparr>LocalLastKeepAliveRecv := env_clock env 1\<rparr> else n);
         n = evolve_fsm env n in
     Some (check_hold env h n)
   }"

section \<open>Sending and receiving\<close>

text \<open>
  The sender takes the oldest message and writes its bytes to the socket; \<open>ok\<close> is the outcome of
  that write.
\<close>

definition sender_iter ::
  "Env \<Rightarrow> EventHandler option \<Rightarrow> bool \<Rightarrow> Neighbor \<Rightarrow> (bytes \<times> Neighbor) go" where
  "sender_iter env h ok n =
     (case OutQueue n of
        [] \<Rightarrow> Some ([], n)
      | msg # rest \<Rightarrow> do {
          buf \<leftarrow> Message_Write msg;
          let n = n\<lparr>OutQueue := rest\<rparr> in
          Some (buf, if \<not> ok then Disconnect env h n else n)
        })"

text \<open>
  \<open>readFromSocket\<close>: the socket is the stream of bytes still to come and, for each call of
  \<^verbatim>\<open>Read\<close>, how many bytes that call delivers at most and whether it reports an error. The
  result is the bytes read, the error, and the rest of the socket; with no more calls the read
  waits forever.
\<close>

type_synonym socket = "bytes \<times> (nat \<times> bool) list"

fun read_socket :: "nat \<Rightarrow> bytes \<Rightarrow> bytes \<Rightarrow> (nat \<times> bool) list \<Rightarrow> (bytes \<times> bool \<times> socket) go" where
  "read_socket len msg stream reads =
     (if length msg < len then
        case reads of
          [] \<Rightarrow> None
        | (k, err) # reads' \<Rightarrow>
            let i = min k (min (len - length msg) (length stream));
                msg = msg @ take i stream; stream = drop i stream in
            if err then Some (msg @ replicate (len - length msg) 0, True, stream, reads')
            else read_socket len msg stream reads'
      else Some (msg, False, stream, reads))"

definition readFromSocket :: "nat \<Rightarrow> socket \<Rightarrow> (bytes \<times> bool \<times> socket) go" where
  "readFromSocket len s = read_socket len [] (fst s) (snd s)"

text \<open>
  One iteration of the receive loop on a connected neighbor: read the header, read the body if
  the header announces one, then hand over the packet. The channel \<^verbatim>\<open>update\<close> holds five
  packets; a sixth is dropped. \<open>uh\<close> says whether an update handler is set.
\<close>

definition receive_dispatch ::
  "Env \<Rightarrow> EventHandler option \<Rightarrow> bool \<Rightarrow> byte \<Rightarrow> bytes \<Rightarrow> Neighbor \<Rightarrow> Neighbor go" where
  "receive_dispatch env h uh bgptype msg n =
     (let n = (if bgptype \<noteq> MESSAGE_NOTIFICATION
            then n\<lparr>LocalLastKeepAliveRecv := env_clock env 1\<rparr> else n) in
      if bgptype \<noteq> MESSAGE_UPDATE then do {
        (p, err) \<leftarrow> ParsePacket bgptype msg;
        (case p of
           Some p \<Rightarrow>
             if err \<noteq> None then Some (Disconnect env h n)
             else
               let (go_on, n) =
                 (case h of
                    None \<Rightarrow> (True, n)
                  | Some eh \<Rightarrow>
                      (case he_ProcessReceived eh p n of (continueskip, e) \<Rightarrow>
                        (continueskip \<and> \<not> e, log_event (EvProcessReceived p) n)))
               in Some (if go_on \<and> length (n_update n) < 5
                 then n\<lparr>n_update := n_update n @ [p]\<rparr> else n)
         | None \<Rightarrow> Some (Disconnect env h n))
      }
      else Some (if uh then log_event (EvUpdate msg) n else n))"

definition receive_iter ::
  "Env \<Rightarrow> EventHandler option \<Rightarrow> bool \<Rightarrow> socket \<Rightarrow> Neighbor \<Rightarrow> (Neighbor \<times> socket) go" where
  "receive_iter env h uh s n = do {
     (msg, err, s) \<leftarrow> readFromSocket 19 s;
     if err then Some (Disconnect env h n, s)
     else do {
       (bgptype, toread, perr) \<leftarrow> ParsePacketHeader msg;
       (msg, err, s) \<leftarrow>
         (if toread > 0 then readFromSocket (unat toread) s else Some (msg, perr \<noteq> None, s));
       if err then Some (Disconnect env h n, s)
       else do {
         n \<leftarrow> receive_dispatch env h uh bgptype msg n;
         Some (n, s)
       }
     }
   }"

section \<open>New neighbors\<close>

definition NewNeighbor ::
  "bytes \<Rightarrow> nat \<Rightarrow> bytes \<Rightarrow> u32 \<Rightarrow> bool \<Rightarrow> int \<Rightarrow> bool \<Rightarrow> Neighbor" where
  "NewNeighbor addr port identifier asn addpath holdtime routerefresh =
     \<lparr>n_Addr = addr, n_Port = port,
      n_State = \<lparr>CurState = STATE_IDLE, OpenReceived = False, st_Time = 0\<rparr>,
      n_Afi = (if To4 addr = None then AFI_IPV6 else AFI_IPV4), n_Safi = SAFI_UNICAST,
      Connected = False, Reconnect = True,
      LastKeepAliveSent = 0, PeerEnableKeepAlive = False, PeerHoldTime = 0,
      PeerMultiprotocolList = [], PeerAddPathList = [], PeerASN = 0, PeerRouteRefresh = False,
      Peer2Bytes = False, PeerIdentifier = [],
      LocalLastKeepAliveRecv = 0,
      LocalEnableKeepAlive = (holdtime \<ge> 3),
      LocalHoldTime = (if holdtime \<ge> 3 then holdtime * second else 0),
      n_Identifier = identifier, n_ASN = asn,
      MultiprotocolList = [(AFI_IPV4, SAFI_UNICAST), (AFI_IPV6, SAFI_UNICAST)],
      AddPathList =
        (if addpath then
           [\<lparr>ap_Afi = AFI_IPV4, ap_Safi = SAFI_UNICAST, ap_TxRx = 3\<rparr>,
            \<lparr>ap_Afi = AFI_IPV6, ap_Safi = SAFI_UNICAST, ap_TxRx = 3\<rparr>]
         else []),
      n_RouteRefresh = routerefresh, SendAddPath = [], DecodeAddPath = [],
      ReplicateASN = False, Passive = False, RemoveOnDisconnect = False,
      OutQueue = [], n_update = [], n_Managed = False, n_Removed = False,
      n_LifeStopped = False, n_SenderStopped = False, n_Events = []\<rparr>"

definition NewNeighborFromConn ::
  "bytes \<Rightarrow> nat \<Rightarrow> bytes \<Rightarrow> u32 \<Rightarrow> bool \<Rightarrow> int \<Rightarrow> bool \<Rightarrow> int \<Rightarrow> Neighbor" where
  "NewNeighborFromConn addr port identifier asn addpath holdtime routerefresh now =
     (let n = NewNeighbor addr port identifier asn addpath holdtime routerefresh;
          n = n\<lparr>Passive := True\<rparr>;
          n = UpdateState STATE_ACTIVE now n
      in n\<lparr>Reconnect := False\<rparr>)"

section \<open>Add-path negotiation\<close>

lemma foldM_go_append:
  "foldM_go f (xs @ ys) s = do { s \<leftarrow> foldM_go f xs s; foldM_go f ys s }"
  by (induction xs arbitrary: s) simp_all

lemma foldM_go_None:
  assumes "\<And>x s. x \<in> set xs \<Longrightarrow> f x s = None \<longleftrightarrow> P x"
  shows "foldM_go f xs s = None \<longleftrightarrow> (\<exists>x \<in> set xs. P x)"
  using assms by (induction xs arbitrary: s) (auto simp: bind_eq_None_conv split: Option.bind_splits)

lemma foldM_go_inv:
  assumes "\<And>x s s'. x \<in> set xs \<Longrightarrow> I s \<Longrightarrow> f x s = Some s' \<Longrightarrow> I s'"
  shows "I s \<Longrightarrow> foldM_go f xs s = Some s' \<Longrightarrow> I s'"
  using assms
proof (induction xs arbitrary: s)
  case Nil
  then show ?case by simp
next
  case (Cons x xs)
  from Cons.prems(2) obtain t where "f x s = Some t" "foldM_go f xs t = Some s'"
    by (auto simp: bind_eq_Some_conv)
  moreover from this Cons.prems have "I t" by (meson list.set_intros(1))
  ultimately show ?case using Cons.IH [of t] Cons.prems(3) by (meson list.set_intros(2))
qed

lemma foldM_go_total:
  assumes "\<And>x s. x \<in> set xs \<Longrightarrow> I s \<Longrightarrow> \<exists>s'. f x s = Some s' \<and> I s'"
  shows "I s \<Longrightarrow> \<exists>s'. foldM_go f xs s = Some s' \<and> I s'"
  using assms
proof (induction xs arbitrary: s)
  case Nil
  then show ?case by simp
next
  case (Cons x xs)
  from Cons.prems obtain s' where "f x s = Some s'" "I s'" by fastforce
  with Cons show ?case by auto
qed

text \<open>The remote entry an entry is compared with, when both together allow both directions.\<close>

definition ap_match :: "AddPath list \<Rightarrow> AddPath \<Rightarrow> AddPath option" where
  "ap_match remote l =
     (case find (EqualsAfiSafi l) remote of
        None \<Rightarrow> None
      | Some r \<Rightarrow> if ap_TxRx l OR ap_TxRx r = 3 then Some r else None)"

text \<open>The negotiation the code means: directions of the matching remote entry.\<close>

definition ap_negotiated :: "byte \<Rightarrow> byte \<Rightarrow> AddPath list \<Rightarrow> AddPath list \<Rightarrow> AfiSafi list" where
  "ap_negotiated rbit lbit local remote =
     map (\<lambda>l. \<lparr>as_Afi = ap_Afi l, as_Safi = ap_Safi l\<rparr>)
       (filter (\<lambda>l. \<exists>r. ap_match remote l = Some r \<and> ap_TxRx r AND rbit \<noteq> 0 \<and> ap_TxRx l AND lbit \<noteq> 0) local)"

abbreviation "negotiated_send \<equiv> ap_negotiated 1 2"
abbreviation "negotiated_recv \<equiv> ap_negotiated 2 1"

definition aligned :: "AddPath list \<Rightarrow> AddPath list \<Rightarrow> bool" where
  "aligned local remote \<longleftrightarrow>
     (\<forall>i < length local. \<forall>r. ap_match remote (local ! i) = Some r \<longrightarrow> i < length remote \<and> remote ! i = r)"

lemma compare_one_None:
  "i < length local \<Longrightarrow> compare_one local remote i s = None \<longleftrightarrow>
    ap_match remote (local ! i) \<noteq> None \<and> length remote \<le> i"
  by (cases s) (auto simp: compare_one_def ap_match_def idx_def Let_def split: option.splits)

lemma CompareAddPath_None_iff:
  "CompareAddPath local remote = None \<longleftrightarrow>
    (\<exists>i < length local. ap_match remote (local ! i) \<noteq> None \<and> length remote \<le> i)"
  unfolding CompareAddPath_def
  by (subst foldM_go_None [where P = "\<lambda>i. ap_match remote (local ! i) \<noteq> None \<and> length remote \<le> i"])
    (auto simp: compare_one_None)

lemma compare_one_aligned:
  assumes "i < length local" and "aligned local remote"
  shows "compare_one local remote i (send, recv) = Some
    (send @ negotiated_send [local ! i] remote, recv @ negotiated_recv [local ! i] remote)"
proof (cases "ap_match remote (local ! i)")
  case None
  with assms(1) show ?thesis
    by (auto simp: compare_one_def ap_match_def ap_negotiated_def split: option.splits if_splits)
next
  case (Some r)
  with assms have "i < length remote" "remote ! i = r" by (auto simp: aligned_def)
  moreover from Some have "find (EqualsAfiSafi (local ! i)) remote = Some r" "ap_TxRx (local ! i) OR ap_TxRx r = 3"
    by (auto simp: ap_match_def split: option.splits if_splits)
  ultimately show ?thesis
    using assms(1) Some by (simp add: compare_one_def ap_negotiated_def)
qed

lemma ap_negotiated_append: "ap_negotiated a b (xs @ ys) r = ap_negotiated a b xs r @ ap_negotiated a b ys r"
  by (simp add: ap_negotiated_def)

lemma CompareAddPath_aligned_value:
  assumes "aligned local remote"
  shows "CompareAddPath local remote = Some (negotiated_send local remote, negotiated_recv local remote)"
proof -
  have "foldM_go (compare_one local remote) [0..<k] ([], []) =
      Some (negotiated_send (take k local) remote, negotiated_recv (take k local) remote)"
    if "k \<le> length local" for k
    using that
  proof (induction k)
    case 0
    then show ?case by (simp add: ap_negotiated_def)
  next
    case (Suc k)
    then show ?case
      using compare_one_aligned [OF _ assms, of k]
      by (simp add: foldM_go_append take_Suc_conv_app_nth ap_negotiated_append)
  qed
  then show ?thesis by (simp add: CompareAddPath_def)
qed

lemma distinct_families_find:
  assumes "distinct (map (\<lambda>x. (ap_Afi x, ap_Safi x)) xs)" and "x \<in> set xs"
    and "EqualsAfiSafi l x"
  shows "find (EqualsAfiSafi l) xs = Some x"
  using assms
proof (induction xs)
  case Nil
  then show ?case by simp
next
  case (Cons y ys)
  show ?case
  proof (cases "x = y")
    case False
    with Cons.prems have "x \<in> set ys" by simp
    moreover from this Cons.prems have "(ap_Afi y, ap_Safi y) \<noteq> (ap_Afi x, ap_Safi x)"
      by auto
    ultimately show ?thesis using Cons by (auto simp: EqualsAfiSafi_def)
  qed (use Cons.prems in simp)
qed

lemma ap_match_sym:
  assumes "distinct (map (\<lambda>x. (ap_Afi x, ap_Safi x)) as)" and "distinct (map (\<lambda>x. (ap_Afi x, ap_Safi x)) bs)"
    and "a \<in> set as" and "ap_match bs a = Some b"
  shows "b \<in> set bs" and "ap_match as b = Some a" and "ap_Afi b = ap_Afi a" "ap_Safi b = ap_Safi a"
proof -
  from assms(4) have f: "find (EqualsAfiSafi a) bs = Some b" and o': "ap_TxRx a OR ap_TxRx b = 3"
    by (auto simp: ap_match_def split: option.splits if_splits)
  from f have b: "b \<in> set bs" "EqualsAfiSafi a b"
    by (auto simp: find_Some_iff)
  then show "b \<in> set bs" "ap_Afi b = ap_Afi a" "ap_Safi b = ap_Safi a"
    by (simp_all add: EqualsAfiSafi_def)
  have "find (EqualsAfiSafi b) as = Some a"
    using assms(1,3) b by (intro distinct_families_find) (auto simp: EqualsAfiSafi_def)
  with o' show "ap_match as b = Some a"
    by (simp add: ap_match_def or.commute)
qed

lemma negotiated_agree_one:
  assumes "distinct (map (\<lambda>x. (ap_Afi x, ap_Safi x)) as)" and "distinct (map (\<lambda>x. (ap_Afi x, ap_Safi x)) bs)"
    and "f \<in> set (ap_negotiated x y as bs)"
  shows "f \<in> set (ap_negotiated y x bs as)"
proof -
  from assms(3) obtain a b where a: "a \<in> set as" "ap_match bs a = Some b"
    "ap_TxRx b AND x \<noteq> 0" "ap_TxRx a AND y \<noteq> 0" "f = \<lparr>as_Afi = ap_Afi a, as_Safi = ap_Safi a\<rparr>"
    by (auto simp: ap_negotiated_def)
  from ap_match_sym [OF assms(1,2) a(1,2)] a show ?thesis
    by (auto simp: ap_negotiated_def intro!: image_eqI [of _ _ b])
qed

section \<open>The reaction to an OPEN\<close>

text \<open>What \<open>UpdateFromOpen\<close> leaves alone.\<close>

definition open_frame :: "Neighbor \<Rightarrow> Neighbor \<Rightarrow> bool" where
  "open_frame n n' \<longleftrightarrow>
     n' = n\<lparr>PeerMultiprotocolList := PeerMultiprotocolList n', PeerAddPathList := PeerAddPathList n',
       SendAddPath := SendAddPath n', DecodeAddPath := DecodeAddPath n', Peer2Bytes := Peer2Bytes n',
       PeerASN := PeerASN n', PeerRouteRefresh := PeerRouteRefresh n', PeerIdentifier := PeerIdentifier n'\<rparr>"

lemma open_frame_refl: "open_frame n n"
  by (simp add: open_frame_def)

lemma open_frame_trans: "open_frame a b \<Longrightarrow> open_frame b c \<Longrightarrow> open_frame a c"
  by (cases a; cases b; cases c) (simp add: open_frame_def)

lemma open_frame_simps:
  assumes "open_frame n n'"
  shows "n_State n' = n_State n" "Connected n' = Connected n" "OutQueue n' = OutQueue n"
    "Passive n' = Passive n" "AddPathList n' = AddPathList n" "MultiprotocolList n' = MultiprotocolList n"
    "n_ASN n' = n_ASN n" "n_Events n' = n_Events n" "LocalHoldTime n' = LocalHoldTime n"
    "LocalEnableKeepAlive n' = LocalEnableKeepAlive n" "PeerHoldTime n' = PeerHoldTime n"
    "PeerEnableKeepAlive n' = PeerEnableKeepAlive n" "n_Identifier n' = n_Identifier n"
    "n_RouteRefresh n' = n_RouteRefresh n" "n_update n' = n_update n"
    "LocalLastKeepAliveRecv n' = LocalLastKeepAliveRecv n" "LastKeepAliveSent n' = LastKeepAliveSent n"
    "RemoveOnDisconnect n' = RemoveOnDisconnect n" "n_Managed n' = n_Managed n"
    "n_LifeStopped n' = n_LifeStopped n" "n_SenderStopped n' = n_SenderStopped n" "n_Removed n' = n_Removed n"
    "ReplicateASN n' = ReplicateASN n"
  by (subst assms [unfolded open_frame_def], simp)+

lemma apply_cap_frame: "apply_cap c n = Some n' \<Longrightarrow> open_frame n n'"
  by (cases n) (auto simp: apply_cap_def open_frame_def Let_def split: iface.splits BGPCap.splits Option.bind_splits)

lemma apply_param_frame: "apply_param p n = Some n' \<Longrightarrow> open_frame n n'"
  using foldM_go_inv [where I = "open_frame n", OF open_frame_trans [OF _ apply_cap_frame] open_frame_refl]
  by (auto simp: apply_param_def open_frame_refl split: if_splits option.splits iface.splits)

lemma UpdateFromOpen_frame:
  assumes "UpdateFromOpen pkt n = Some n'"
  shows "open_frame n n'"
proof -
  let ?n = "n\<lparr>PeerASN := ucast (open_ASN pkt), PeerIdentifier := Identifier pkt, Peer2Bytes := True\<rparr>"
  have "open_frame n ?n" by (cases n) (simp add: open_frame_def)
  moreover have "open_frame ?n n'"
    using foldM_go_inv [where I = "open_frame ?n", OF open_frame_trans [OF _ apply_param_frame] open_frame_refl]
      assms by (auto simp: UpdateFromOpen_def)
  ultimately show ?thesis by (rule open_frame_trans)
qed

text \<open>The add-path lists of the capability parameters of a message.\<close>

definition open_addpaths :: "BGPMessageOpen \<Rightarrow> AddPath list set" where
  "open_addpaths pkt = {l. \<exists>p \<in> set (Parameters pkt). \<exists>capas. param_Type p = PARAMETER_CAPA \<and>
     param_Data p = Some (Val capas) \<and> Val (BGPCapability_ADDPATH l) \<in> set capas}"

lemma apply_cap_total:
  assumes "\<And>l. c = Val (BGPCapability_ADDPATH l) \<Longrightarrow> CompareAddPath (AddPathList n) l \<noteq> None"
  shows "\<exists>n'. apply_cap c n = Some n'"
  using assms by (cases c) (auto simp: apply_cap_def Let_def split: BGPCap.splits)

lemma UpdateFromOpen_total:
  assumes "list_all param_parsed (Parameters pkt)"
    and "\<And>l. l \<in> open_addpaths pkt \<Longrightarrow> CompareAddPath (AddPathList n) l \<noteq> None"
  shows "\<exists>n'. UpdateFromOpen pkt n = Some n'"
proof -
  let ?I = "\<lambda>s :: Neighbor. AddPathList s = AddPathList n"
  have "\<exists>s'. apply_param p s = Some s' \<and> ?I s'" if p: "p \<in> set (Parameters pkt)" and I: "?I s" for p and s :: Neighbor
  proof (cases "param_Type p = PARAMETER_CAPA")
    case False
    with I show ?thesis by (simp add: apply_param_def)
  next
    case True
    with p assms(1) obtain capas where capas: "param_Data p = Some (Val capas)"
      by (force simp: list_all_iff param_parsed_def is_Val_def split: option.splits)
    have "\<exists>s'. foldM_go apply_cap capas s = Some s' \<and> ?I s'"
    proof (rule foldM_go_total [where I = ?I, OF _ I])
      fix c and t :: Neighbor assume c: "c \<in> set capas" and t: "AddPathList t = AddPathList n"
      have "CompareAddPath (AddPathList t) l \<noteq> None" if "c = Val (BGPCapability_ADDPATH l)" for l
        using assms(2) [of l] that c p True capas t by (auto simp: open_addpaths_def)
      then obtain t' where "apply_cap c t = Some t'"
        using apply_cap_total by blast
      with t open_frame_simps [OF apply_cap_frame [OF this]]
      show "\<exists>t'. apply_cap c t = Some t' \<and> AddPathList t' = AddPathList n" by simp
    qed
    with True capas show ?thesis by (simp add: apply_param_def)
  qed
  then have "\<exists>s'. foldM_go apply_param (Parameters pkt) s = Some s' \<and> ?I s'" if "?I s" for s
    using that by (intro foldM_go_total [where I = ?I]) blast+
  from this [of "n\<lparr>PeerASN := ucast (open_ASN pkt), PeerIdentifier := Identifier pkt, Peer2Bytes := True\<rparr>"]
  show ?thesis by (auto simp: UpdateFromOpen_def)
qed

section \<open>What a packet does to the state\<close>

abbreviation st :: "Neighbor \<Rightarrow> fsm" where "st n \<equiv> CurState (n_State n)"
abbreviation opened :: "Neighbor \<Rightarrow> bool" where "opened n \<equiv> OpenReceived (n_State n)"

fun is_open :: "Message option \<Rightarrow> bool" where
  "is_open (Some (OpenMsg m)) = True"
| "is_open _ = False"

lemma Disconnect_simps [simp]:
  "st (Disconnect env h n) = STATE_IDLE" "\<not> opened (Disconnect env h n)" "\<not> Connected (Disconnect env h n)"
  "OutQueue (Disconnect env h n) = OutQueue n" "Passive (Disconnect env h n) = Passive n"
  "n_Events (Disconnect env h n) = n_Events n @ (if h = None then [] else [EvDisconnected])"
  "LocalEnableKeepAlive (Disconnect env h n) = LocalEnableKeepAlive n"
  "LocalHoldTime (Disconnect env h n) = LocalHoldTime n"
  "LocalLastKeepAliveRecv (Disconnect env h n) = LocalLastKeepAliveRecv n"
  "n_update (Disconnect env h n) = n_update n" "AddPathList (Disconnect env h n) = AddPathList n"
  by (auto simp: Disconnect_def UpdateState_def log_event_def Let_def)

lemma UpdateState_simps [simp]:
  "st (UpdateState s t n) = s" "opened (UpdateState s t n) = opened n" "Connected (UpdateState s t n) = Connected n"
  "OutQueue (UpdateState s t n) = OutQueue n" "Passive (UpdateState s t n) = Passive n"
  "n_Events (UpdateState s t n) = n_Events n" "LocalEnableKeepAlive (UpdateState s t n) = LocalEnableKeepAlive n"
  "LocalHoldTime (UpdateState s t n) = LocalHoldTime n"
  "LocalLastKeepAliveRecv (UpdateState s t n) = LocalLastKeepAliveRecv n"
  "n_update (UpdateState s t n) = n_update n" "AddPathList (UpdateState s t n) = AddPathList n"
  by (simp_all add: UpdateState_def)

lemma log_event_simps [simp]:
  "n_State (log_event ev n) = n_State n" "Connected (log_event ev n) = Connected n"
  "OutQueue (log_event ev n) = OutQueue n" "Passive (log_event ev n) = Passive n"
  "n_Events (log_event ev n) = n_Events n @ [ev]" "LocalEnableKeepAlive (log_event ev n) = LocalEnableKeepAlive n"
  "LocalHoldTime (log_event ev n) = LocalHoldTime n"
  "LocalLastKeepAliveRecv (log_event ev n) = LocalLastKeepAliveRecv n"
  "n_update (log_event ev n) = n_update n" "AddPathList (log_event ev n) = AddPathList n"
  by (simp_all add: log_event_def)

lemma evolve_packet_effect:
  assumes "evolve_packet env h pkt n = Some n1"
  shows "OutQueue n1 = OutQueue n \<and> Passive n1 = Passive n \<and> LocalEnableKeepAlive n1 = LocalEnableKeepAlive n \<and>
    LocalHoldTime n1 = LocalHoldTime n \<and> n_update n1 = n_update n \<and> AddPathList n1 = AddPathList n \<and>
    LocalLastKeepAliveRecv n1 = LocalLastKeepAliveRecv n \<and>
    (st n1 = STATE_IDLE \<and> \<not> opened n1 \<and> \<not> Connected n1 \<and> pkt \<noteq> None \<or>
     pkt = Some KeepAliveMsg \<and> st n = STATE_OPENCONFIRM \<and> st n1 = STATE_ESTABLISHED \<and>
       opened n1 = opened n \<and> Connected n1 = Connected n \<or>
     \<not> (pkt = Some KeepAliveMsg \<and> st n = STATE_OPENCONFIRM) \<and> st n1 = st n \<and>
       opened n1 = (opened n \<or> is_open pkt) \<and> Connected n1 = Connected n)"
  using assms
  by (cases "(env, h, pkt, n)" rule: evolve_packet.cases)
    (auto simp: Let_def open_frame_simps [OF UpdateFromOpen_frame] split: Option.bind_splits if_splits option.splits)

section \<open>One call of EvolveState\<close>

lemma send_keepalive_simps [simp]:
  "n_State (send_keepalive env n) = n_State n" "Connected (send_keepalive env n) = Connected n"
  "Passive (send_keepalive env n) = Passive n" "n_Events (send_keepalive env n) = n_Events n"
  "LocalEnableKeepAlive (send_keepalive env n) = LocalEnableKeepAlive n"
  "LocalHoldTime (send_keepalive env n) = LocalHoldTime n"
  "LocalLastKeepAliveRecv (send_keepalive env n) = LocalLastKeepAliveRecv n"
  "n_update (send_keepalive env n) = n_update n" "AddPathList (send_keepalive env n) = AddPathList n"
  by (simp_all add: send_keepalive_def)

lemma evolve_fsm_effect:
  "n_Events (evolve_fsm env n) = n_Events n \<and> opened (evolve_fsm env n) = opened n \<and>
   (Connected (evolve_fsm env n) \<longleftrightarrow> Connected n \<or> st n = STATE_IDLE \<and> st (evolve_fsm env n) = STATE_ACTIVE) \<and>
   st (evolve_fsm env n) =
     (case st n of
        STATE_IDLE \<Rightarrow> if \<not> Passive n \<and> env_dial env then STATE_ACTIVE else STATE_IDLE
      | STATE_ACTIVE \<Rightarrow> if \<not> Passive n \<or> opened n then STATE_OPENSENT else STATE_ACTIVE
      | STATE_OPENSENT \<Rightarrow> if opened n then STATE_OPENCONFIRM else STATE_OPENSENT
      | s \<Rightarrow> s)"
  by (cases "st n") (simp_all add: evolve_fsm_def Connect_def Let_def)

text \<open>The three stages of a call.\<close>

lemma EvolveState_stages:
  assumes "EvolveState env h pkt n = Some n'"
  obtains n1 where "evolve_packet env h pkt n = Some n1"
    "n' = check_hold env h (evolve_fsm env
       (if pkt \<noteq> None then n1\<lparr>LocalLastKeepAliveRecv := env_clock env 1\<rparr> else n1))"
  using assms by (auto simp: EvolveState_def Let_def split: Option.bind_splits if_splits)

lemma check_hold_cases:
  "check_hold env h n = n \<or> st n \<notin> {STATE_IDLE, STATE_ACTIVE} \<and> check_hold env h n = Disconnect env h n"
  by (auto simp: check_hold_def)

definition nb_inv :: "Neighbor \<Rightarrow> bool" where
  "nb_inv n \<longleftrightarrow>
     st n \<noteq> STATE_CONNECT \<and>
     (Connected n \<longleftrightarrow> st n \<noteq> STATE_IDLE) \<and>
     (st n \<in> {STATE_OPENCONFIRM, STATE_ESTABLISHED} \<longrightarrow> opened n)"

text \<open>The transitions of the state machine in one call, with their guards.\<close>

fun fsm_edge :: "Message option \<Rightarrow> bool \<Rightarrow> bool \<Rightarrow> fsm \<Rightarrow> fsm \<Rightarrow> bool" where
  "fsm_edge pkt passive opn STATE_IDLE s' = (s' = STATE_IDLE \<or> s' = STATE_ACTIVE \<and> \<not> passive)"
| "fsm_edge pkt passive opn STATE_ACTIVE s' =
     (s' = STATE_ACTIVE \<and> (passive \<longrightarrow> \<not> opn) \<or> s' = STATE_IDLE \<or>
      s' = STATE_OPENSENT \<and> (passive \<longrightarrow> opn \<or> is_open pkt))"
| "fsm_edge pkt passive opn STATE_OPENSENT s' =
     (s' = STATE_OPENSENT \<and> \<not> opn \<and> \<not> is_open pkt \<or> s' = STATE_IDLE \<or> s' = STATE_ACTIVE \<and> pkt \<noteq> None \<or>
      s' = STATE_OPENCONFIRM \<and> (opn \<or> is_open pkt))"
| "fsm_edge pkt passive opn STATE_OPENCONFIRM s' =
     (s' = STATE_OPENCONFIRM \<and> pkt \<noteq> Some KeepAliveMsg \<or> s' = STATE_IDLE \<or> s' = STATE_ACTIVE \<and> pkt \<noteq> None \<or>
      s' = STATE_ESTABLISHED \<and> pkt = Some KeepAliveMsg)"
| "fsm_edge pkt passive opn STATE_ESTABLISHED s' =
     (s' = STATE_ESTABLISHED \<or> s' = STATE_IDLE \<or> s' = STATE_ACTIVE \<and> pkt \<noteq> None)"
| "fsm_edge pkt passive opn STATE_CONNECT s' = False"

lemma EvolveState_effect:
  assumes "EvolveState env h pkt n = Some n'" and "nb_inv n"
  shows "nb_inv n' \<and> fsm_edge pkt (Passive n) (opened n) (st n) (st n')"
proof -
  obtain n1 where n1: "evolve_packet env h pkt n = Some n1"
    "n' = check_hold env h (evolve_fsm env
       (if pkt \<noteq> None then n1\<lparr>LocalLastKeepAliveRecv := env_clock env 1\<rparr> else n1))"
    using assms(1) by (rule EvolveState_stages)
  define n2 where "n2 = (if pkt \<noteq> None then n1\<lparr>LocalLastKeepAliveRecv := env_clock env 1\<rparr> else n1)"
  have n2: "st n2 = st n1" "opened n2 = opened n1" "Connected n2 = Connected n1" "Passive n2 = Passive n1"
    by (simp_all add: n2_def)
  note eff = evolve_packet_effect [OF n1(1)] and fsm = evolve_fsm_effect [of env n2]
  let ?n3 = "evolve_fsm env n2"
  have inv3: "nb_inv ?n3" and edge3: "fsm_edge pkt (Passive n) (opened n) (st n) (st ?n3)"
    using eff fsm assms(2) n2 unfolding nb_inv_def
    by (cases "st n"; cases "st n1"; auto split: if_splits)+
  have "n' = check_hold env h ?n3" by (simp add: n1(2) n2_def)
  with check_hold_cases [of env h ?n3] consider "n' = ?n3"
    | "st ?n3 \<notin> {STATE_IDLE, STATE_ACTIVE}" "n' = Disconnect env h ?n3" by auto
  then show ?thesis
  proof cases
    case 1
    with inv3 edge3 show ?thesis by simp
  next
    case 2
    with edge3 show ?thesis by (cases "st n") (auto simp: nb_inv_def)
  qed
qed

section \<open>The goroutines of a neighbor\<close>

definition ProcessIncomingRequest ::
  "bytes \<Rightarrow> nat \<Rightarrow> bytes \<Rightarrow> u32 \<Rightarrow> bool \<Rightarrow> int \<Rightarrow> bool \<Rightarrow> int \<Rightarrow> Neighbor" where
  "ProcessIncomingRequest addr port identifier asn addpath holdtime routerefresh now =
     (NewNeighborFromConn addr port identifier asn addpath holdtime routerefresh now)
       \<lparr>Connected := True, RemoveOnDisconnect := True, n_Managed := True\<rparr>"

text \<open>
  One iteration of the life routine (a packet or the one-second tick), of the sender or of the
  receive routine. A goroutine that is running does not wait in its own select, so a signal
  offered to it without blocking is lost.
\<close>

inductive nb_step :: "EventHandler option \<Rightarrow> bool \<Rightarrow> Neighbor \<Rightarrow> Neighbor \<Rightarrow> bool"
  for h :: "EventHandler option" and uh :: bool where
  life_packet: "n_update n = p # ps \<Longrightarrow> \<not> n_LifeStopped n \<Longrightarrow> \<not> env_life_waits env \<Longrightarrow>
    EvolveState env h (Some p) (n\<lparr>n_update := ps\<rparr>) = Some n' \<Longrightarrow> nb_step h uh n n'"
| life_tick: "\<not> n_LifeStopped n \<Longrightarrow> \<not> env_life_waits env \<Longrightarrow>
    EvolveState env h None n = Some n' \<Longrightarrow> nb_step h uh n n'"
| sender: "OutQueue n \<noteq> [] \<Longrightarrow> \<not> n_SenderStopped n \<Longrightarrow> \<not> env_sender_waits env \<Longrightarrow>
    sender_iter env h ok n = Some (buf, n') \<Longrightarrow> nb_step h uh n n'"
| receive: "Connected n \<Longrightarrow> receive_iter env h uh s n = Some (n', s') \<Longrightarrow> nb_step h uh n n'"

inductive reachable :: "EventHandler option \<Rightarrow> bool \<Rightarrow> Neighbor \<Rightarrow> Neighbor \<Rightarrow> bool"
  for h :: "EventHandler option" and uh :: bool where
  start: "reachable h uh n n"
| step: "reachable h uh n n' \<Longrightarrow> nb_step h uh n' n'' \<Longrightarrow> reachable h uh n n''"

definition initial :: "Neighbor \<Rightarrow> bool" where
  "initial n \<longleftrightarrow>
     (\<exists>addr port ident asn addpath holdtime rr.
        n = NewNeighbor addr port ident asn addpath holdtime rr) \<or>
     (\<exists>addr port ident asn addpath holdtime rr now.
        n = ProcessIncomingRequest addr port ident asn addpath holdtime rr now)"

text \<open>What the events say of the session: the OPEN that began it, if it has not ended.\<close>

definition session_of :: "event list \<Rightarrow> BGPMessageOpen option" where
  "session_of evs = foldl (\<lambda>acc ev. case ev of EvNewNeighbor m \<Rightarrow> Some m | EvDisconnected \<Rightarrow> None | _ \<Rightarrow> acc) None evs"

lemma session_of_simps [simp]:
  "session_of [] = None" "session_of (evs @ [EvNewNeighbor m]) = Some m"
  "session_of (evs @ [EvDisconnected]) = None" "session_of (evs @ [EvNotification x]) = session_of evs"
  "session_of (evs @ [EvProcessReceived p]) = session_of evs" "session_of (evs @ [EvUpdate b]) = session_of evs"
  by (simp_all add: session_of_def)

definition consent :: "EventHandler option \<Rightarrow> Neighbor \<Rightarrow> bool" where
  "consent h n \<longleftrightarrow> (h \<noteq> None \<and> opened n \<longrightarrow> session_of (n_Events n) \<noteq> None)"

lemma consent_Disconnect [simp]: "consent h (Disconnect env h n)"
  by (simp add: consent_def)

lemma evolve_packet_consent:
  assumes "evolve_packet env h pkt n = Some n1" and "consent h n"
  shows "consent h n1"
  using assms
  by (cases "(env, h, pkt, n)" rule: evolve_packet.cases)
    (auto simp: Let_def consent_def open_frame_simps [OF UpdateFromOpen_frame]
      split: Option.bind_splits if_splits option.splits)

lemma EvolveState_consent:
  assumes "EvolveState env h pkt n = Some n'" and "consent h n"
  shows "consent h n'"
proof -
  obtain n1 where n1: "evolve_packet env h pkt n = Some n1"
    "n' = check_hold env h (evolve_fsm env
       (if pkt \<noteq> None then n1\<lparr>LocalLastKeepAliveRecv := env_clock env 1\<rparr> else n1))"
    using assms(1) by (rule EvolveState_stages)
  define n2 where "n2 = (if pkt \<noteq> None then n1\<lparr>LocalLastKeepAliveRecv := env_clock env 1\<rparr> else n1)"
  have "consent h n2"
    using evolve_packet_consent [OF n1(1) assms(2)] by (simp add: n2_def consent_def)
  with evolve_fsm_effect [of env n2] have "consent h (evolve_fsm env n2)"
    by (simp add: consent_def)
  then show ?thesis
    using check_hold_cases [of env h "evolve_fsm env n2"] n1(2) by (auto simp: n2_def)
qed

text \<open>The other goroutines change the state only by disconnecting.\<close>

definition quiet_frame :: "Neighbor \<Rightarrow> Neighbor \<Rightarrow> bool" where
  "quiet_frame n n' \<longleftrightarrow> n_State n' = n_State n \<and> Connected n' = Connected n \<and>
     session_of (n_Events n') = session_of (n_Events n) \<and> Passive n' = Passive n"

lemma receive_dispatch_cases:
  assumes "receive_dispatch env h uh t msg n = Some n'"
  shows "quiet_frame n n' \<or> (\<exists>m. n' = Disconnect env h m)"
  using assms
  by (auto simp: receive_dispatch_def Let_def quiet_frame_def
      split: if_splits option.splits prod.splits Option.bind_splits)

lemma receive_iter_cases:
  assumes "receive_iter env h uh s n = Some (n', s')"
  shows "quiet_frame n n' \<or> (\<exists>m. n' = Disconnect env h m)"
  using assms receive_dispatch_cases
  by (auto simp: receive_iter_def split: if_splits Option.bind_splits) blast+

lemma sender_iter_cases:
  assumes "sender_iter env h ok n = Some (buf, n')"
  shows "quiet_frame n n' \<or> (\<exists>m. n' = Disconnect env h m)"
  using assms by (auto simp: sender_iter_def quiet_frame_def Let_def split: list.splits Option.bind_splits if_splits)

lemma quiet_inv:
  assumes "quiet_frame n n' \<or> (\<exists>m. n' = Disconnect env h m)" and "nb_inv n" and "consent h n"
  shows "nb_inv n' \<and> consent h n'"
  using assms by (auto simp: quiet_frame_def nb_inv_def consent_def)

lemma nb_step_inv:
  assumes "nb_step h uh n n'" and "nb_inv n" and "consent h n"
  shows "nb_inv n' \<and> consent h n'"
  using assms(1)
proof (cases rule: nb_step.cases)
  case (life_packet p ps env)
  moreover have "nb_inv (n\<lparr>n_update := ps\<rparr>)" "consent h (n\<lparr>n_update := ps\<rparr>)"
    using assms(2,3) by (simp_all add: nb_inv_def consent_def)
  ultimately show ?thesis
    using EvolveState_effect EvolveState_consent by blast
next
  case (life_tick env)
  then show ?thesis
    using assms(2,3) EvolveState_effect EvolveState_consent by blast
next
  case (sender env ok buf)
  then show ?thesis
    using quiet_inv [OF sender_iter_cases assms(2,3)] by blast
next
  case (receive env s s')
  then show ?thesis
    using quiet_inv [OF receive_iter_cases assms(2,3)] by blast
qed

lemma initial_inv: "initial n \<Longrightarrow> nb_inv n \<and> consent h n"
  by (auto simp: initial_def nb_inv_def consent_def NewNeighbor_def ProcessIncomingRequest_def
      NewNeighborFromConn_def Let_def UpdateState_def)

lemma reachable_inv:
  assumes "reachable h uh n n'" and "initial n"
  shows "nb_inv n' \<and> consent h n'"
  using assms by (induction rule: reachable.induct) (auto dest: initial_inv nb_step_inv)

section \<open>Absence of panic without add-path\<close>

fun packet_ok :: "Message \<Rightarrow> bool" where
  "packet_ok (OpenMsg (Some m)) = list_all param_parsed (Parameters m)"
| "packet_ok (OpenMsg None) = False"
| "packet_ok _ = True"

definition sendable :: "Message \<Rightarrow> bool" where
  "sendable m \<longleftrightarrow> Message_Write m \<noteq> None"

definition calm :: "Neighbor \<Rightarrow> bool" where
  "calm n \<longleftrightarrow> AddPathList n = [] \<and> To4 (n_Identifier n) \<noteq> None \<and>
     list_all packet_ok (n_update n) \<and> list_all sendable (OutQueue n)"

lemma ParsePacket_packet_ok:
  "ParsePacket t b = Some (Some p, None) \<Longrightarrow> packet_ok p"
  using ParseOpen_returns [of b]
  by (auto simp: ParsePacket_def split: if_splits Option.bind_splits)

lemma evolve_packet_ident: "evolve_packet env h pkt n = Some n1 \<Longrightarrow> n_Identifier n1 = n_Identifier n"
  by (cases "(env, h, pkt, n)" rule: evolve_packet.cases)
    (auto simp: Let_def open_frame_simps [OF UpdateFromOpen_frame] Disconnect_def log_event_def UpdateState_def
      split: Option.bind_splits if_splits option.splits)

text \<open>The neighbor as it is when \<open>UpdateFromOpen\<close> is called.\<close>

definition before_open :: "BGPMessageOpen \<Rightarrow> Neighbor \<Rightarrow> Neighbor" where
  "before_open pkt n =
     (let n = (if HoldTime pkt \<noteq> 0
            then n\<lparr>PeerHoldTime := uint (HoldTime pkt) * second, PeerEnableKeepAlive := True\<rparr> else n)
      in if ReplicateASN n then n\<lparr>n_ASN := PeerASN n\<rparr> else n)"

lemma before_open_simps [simp]:
  "AddPathList (before_open pkt n) = AddPathList n" "MultiprotocolList (before_open pkt n) = MultiprotocolList n"
  "n_State (before_open pkt n) = n_State n" "PeerRouteRefresh (before_open pkt n) = PeerRouteRefresh n"
  by (simp_all add: before_open_def Let_def)

lemma evolve_open:
  "evolve_packet env h (Some (OpenMsg (Some pkt))) n = do {
     n \<leftarrow> UpdateFromOpen pkt (before_open pkt n);
     let n = n\<lparr>n_State := (n_State n)\<lparr>OpenReceived := True\<rparr>\<rparr> in
     (case h of
        None \<Rightarrow> Some n
      | Some eh \<Rightarrow>
          let ret = he_NewNeighbor eh pkt n; n = log_event (EvNewNeighbor pkt) n in
          Some (if \<not> ret then Disconnect env h n else n))
   }"
  by (simp add: before_open_def Let_def)

lemma evolve_packet_total:
  assumes "calm n" and "case pkt of None \<Rightarrow> True | Some p \<Rightarrow> packet_ok p"
  shows "\<exists>n1. evolve_packet env h pkt n = Some n1"
proof (cases "\<exists>m. pkt = Some (OpenMsg (Some m))")
  case True
  then obtain m where m: "pkt = Some (OpenMsg (Some m))" by blast
  with assms have params: "list_all param_parsed (Parameters m)" by simp
  obtain n1 where "UpdateFromOpen m (before_open m n) = Some n1"
    using UpdateFromOpen_total [OF params, of "before_open m n"] assms(1)
    by (auto simp: CompareAddPath_def calm_def)
  with m show ?thesis
    by (auto simp: evolve_open Let_def split: option.splits simp del: evolve_packet.simps)
next
  case False
  with assms(2) show ?thesis
    by (cases "(env, h, pkt, n)" rule: evolve_packet.cases) auto
qed

lemma Craft_sendable: "To4 ident \<noteq> None \<Longrightarrow>
    sendable (OpenMsg (Some (CraftOpenMessage asn ht (nil_empty (To4 ident)) mp ap rr)))"
  using To4_result_length [of ident]
  by (auto simp: sendable_def Open_Write_def CraftOpenMessage_def Let_def subslice_def nil_empty_def)

lemma calm_evolve_fsm: "calm n \<Longrightarrow> calm (evolve_fsm env n)"
  using Craft_sendable [of "n_Identifier n"]
  by (cases "st n")
    (auto simp: evolve_fsm_def calm_def Connect_def Let_def send_keepalive_def UpdateState_def, simp_all add: sendable_def)

lemma calm_Disconnect [simp]: "calm (Disconnect env h n) = calm n"
  by (simp add: calm_def) (simp add: Disconnect_def Let_def UpdateState_def log_event_def)

lemma EvolveState_calm:
  assumes "calm n" and "case pkt of None \<Rightarrow> True | Some p \<Rightarrow> packet_ok p"
  shows "\<exists>n'. EvolveState env h pkt n = Some n' \<and> calm n'"
proof -
  obtain n1 where n1: "evolve_packet env h pkt n = Some n1"
    using evolve_packet_total [OF assms] by blast
  with evolve_packet_effect [OF n1] evolve_packet_ident [OF n1] assms(1) have "calm n1"
    by (simp add: calm_def)
  define n2 where "n2 = (if pkt \<noteq> None then n1\<lparr>LocalLastKeepAliveRecv := env_clock env 1\<rparr> else n1)"
  have "calm n2" using \<open>calm n1\<close> by (simp add: n2_def calm_def)
  then have "calm (check_hold env h (evolve_fsm env n2))"
    using check_hold_cases [of env h "evolve_fsm env n2"] calm_evolve_fsm [of n2 env] by auto
  with n1 show ?thesis by (simp add: EvolveState_def n2_def Let_def)
qed

lemma sender_iter_calm:
  assumes "calm n"
  shows "\<exists>buf n'. sender_iter env h ok n = Some (buf, n') \<and> calm n'"
proof (cases "OutQueue n")
  case Nil
  with assms show ?thesis by (simp add: sender_iter_def)
next
  case (Cons m ms)
  with assms obtain buf where "Message_Write m = Some buf"
    by (auto simp: calm_def sendable_def)
  moreover have "calm (n\<lparr>OutQueue := ms\<rparr>)"
    using assms Cons by (simp add: calm_def)
  ultimately show ?thesis
    using Cons by (simp add: sender_iter_def Let_def)
qed

lemma receive_dispatch_calm:
  assumes "calm n"
  shows "\<exists>n'. receive_dispatch env h uh t msg n = Some n' \<and> calm n'"
proof -
  obtain p err where p: "ParsePacket t msg = Some (p, err)"
    using ParsePacket_returns by blast
  let ?n = "if t \<noteq> MESSAGE_NOTIFICATION then n\<lparr>LocalLastKeepAliveRecv := env_clock env 1\<rparr> else n"
  have ok: "packet_ok q" if "p = Some q" "err = None" for q
    using ParsePacket_packet_ok p that by simp
  have c: "calm ?n" using assms by (simp add: calm_def)
  then have push: "calm ((log_event ev ?n)\<lparr>n_update := n_update ?n @ [q]\<rparr>)" "calm (log_event ev ?n)"
      "calm (?n\<lparr>n_update := n_update ?n @ [q]\<rparr>)" if "packet_ok q" for q ev
    using that by (simp_all add: calm_def log_event_def)
  show ?thesis
  proof (cases "t = MESSAGE_UPDATE")
    case True
    have "calm (log_event (EvUpdate msg) ?n)" using c by (simp add: calm_def log_event_def)
    with c True show ?thesis by (simp add: receive_dispatch_def Let_def)
  next
    case False
    show ?thesis
    proof (cases "err = None \<and> p \<noteq> None")
      case True
      with False p c ok push show ?thesis
        by (cases h) (auto simp: receive_dispatch_def Let_def split: prod.splits)
    next
      case fail: False
      with False p c show ?thesis
        by (auto simp: receive_dispatch_def Let_def split: option.splits)
    qed
  qed
qed

lemma receive_iter_calm:
  assumes "calm n" and "receive_iter env h uh s n = Some (n', s')"
  shows "calm n'"
  using assms receive_dispatch_calm [OF assms(1)]
  by (auto simp: receive_iter_def split: if_splits Option.bind_splits) (metis option.inject)+

lemma nb_step_calm:
  assumes "nb_step h uh n n'" and "calm n"
  shows "calm n'"
  using assms(1)
proof (cases rule: nb_step.cases)
  case (life_packet p ps env)
  moreover have "calm (n\<lparr>n_update := ps\<rparr>)" "packet_ok p"
    using assms(2) life_packet(1) by (simp_all add: calm_def)
  ultimately show ?thesis
    using EvolveState_calm [of "n\<lparr>n_update := ps\<rparr>" "Some p" env h] by auto
next
  case (life_tick env)
  then show ?thesis
    using EvolveState_calm [OF assms(2), of None env h] by auto
next
  case (sender env ok buf)
  then show ?thesis
    using sender_iter_calm [OF assms(2), of env h ok] by auto
next
  case (receive env s s')
  then show ?thesis
    using receive_iter_calm [OF assms(2)] by blast
qed

lemma reachable_calm: "reachable h uh n n' \<Longrightarrow> calm n \<Longrightarrow> calm n'"
  by (induction rule: reachable.induct) (auto dest: nb_step_calm)

lemma initial_calm:
  "To4 ident \<noteq> None \<Longrightarrow> calm (NewNeighbor addr port ident asn False holdtime rr)"
  "To4 ident \<noteq> None \<Longrightarrow> calm (ProcessIncomingRequest addr port ident asn False holdtime rr now)"
  by (simp_all add: calm_def NewNeighbor_def ProcessIncomingRequest_def NewNeighborFromConn_def
      UpdateState_def Let_def)

section \<open>The effect of an OPEN\<close>

lemma apply_MPs:
  "foldM_go apply_cap (map (\<lambda>(afi, safi). Val (BGPCapability_MP afi safi)) mps @ rest) n =
    foldM_go apply_cap rest
      (if mps = [] then n else n\<lparr>PeerMultiprotocolList := MultiprotocolList n @ [last mps]\<rparr>)"
  by (induction mps arbitrary: n) (auto simp: apply_cap_def)

text \<open>The capabilities of a crafted OPEN as the peer's parser sees them.\<close>

definition parsed_caps :: "u32 \<Rightarrow> (u16 \<times> byte) list \<Rightarrow> AddPath list \<Rightarrow> bool \<Rightarrow> BGPCapabilities" where
  "parsed_caps asn mps aps rr =
     [Val (BGPCapability_ASN asn)] @ map (\<lambda>(afi, safi). Val (BGPCapability_MP afi safi)) mps @
     (if aps = [] then [] else [Val (BGPCapability_ADDPATH aps)]) @
     (if rr then [Val BGPCapability_ROUTEREFRESH] else [])"

lemma apply_parsed_caps:
  assumes "aps = [] \<or> CompareAddPath (AddPathList n) aps = Some (sd, rcv)"
  shows "\<exists>n'. foldM_go apply_cap (parsed_caps asn mps aps rr) n = Some n' \<and>
    PeerASN n' = asn \<and> \<not> Peer2Bytes n' \<and> PeerIdentifier n' = PeerIdentifier n \<and>
    PeerRouteRefresh n' = (rr \<or> PeerRouteRefresh n) \<and>
    PeerMultiprotocolList n' = (if mps = [] then PeerMultiprotocolList n else MultiprotocolList n @ [last mps]) \<and>
    (aps \<noteq> [] \<longrightarrow> PeerAddPathList n' = aps \<and> SendAddPath n' = sd \<and> DecodeAddPath n' = rcv)"
proof -
  have "foldM_go apply_cap (parsed_caps asn mps aps rr) n =
      foldM_go apply_cap
        ((if aps = [] then [] else [Val (BGPCapability_ADDPATH aps)]) @
         (if rr then [Val BGPCapability_ROUTEREFRESH] else []))
        (let n = n\<lparr>Peer2Bytes := False, PeerASN := asn\<rparr>
         in if mps = [] then n else n\<lparr>PeerMultiprotocolList := MultiprotocolList n @ [last mps]\<rparr>)"
    unfolding parsed_caps_def by (simp add: apply_MPs apply_cap_def)
  with assms show ?thesis
    by (cases "aps = []"; cases rr; cases "mps = []") (simp_all add: apply_cap_def Let_def)
qed

section \<open>Runs\<close>

text \<open>The life routine fed with a sequence of packets and ticks.\<close>

definition run :: "EventHandler option \<Rightarrow> (Env \<times> Message option) list \<Rightarrow> Neighbor \<Rightarrow> Neighbor go" where
  "run h = foldM_go (\<lambda>(env, pkt). EvolveState env h pkt)"

text \<open>No packet and no hold-timer expiry moves a neighbor out of OPENCONFIRM but a KEEPALIVE, a
  NOTIFICATION or a rejected OPEN.\<close>

lemma tick_OPENCONFIRM:
  assumes "st n = STATE_OPENCONFIRM" and "\<not> LocalEnableKeepAlive n"
  shows "\<exists>n'. EvolveState env h None n = Some n' \<and> st n' = STATE_OPENCONFIRM \<and> \<not> LocalEnableKeepAlive n'"
  using assms by (simp add: EvolveState_def evolve_fsm_def check_hold_def)

lemma ticks_OPENCONFIRM:
  assumes "st n = STATE_OPENCONFIRM" and "\<not> LocalEnableKeepAlive n" and "list_all (\<lambda>x. snd x = None) es"
  shows "\<exists>n'. run h es n = Some n' \<and> st n' = STATE_OPENCONFIRM"
  using assms
proof (induction es arbitrary: n)
  case Nil
  then show ?case by (simp add: run_def)
next
  case (Cons e es)
  obtain n1 where "EvolveState (fst e) h None n = Some n1" "st n1 = STATE_OPENCONFIRM" "\<not> LocalEnableKeepAlive n1"
    using tick_OPENCONFIRM [OF Cons.prems(1,2)] by blast
  with Cons show ?case by (cases e) (auto simp: run_def)
qed

text \<open>A passive neighbor that gets the OPEN and the KEEPALIVE its peer sends.\<close>

lemma passive_handshake:
  assumes "st n = STATE_ACTIVE" and "UpdateFromOpen pkt (before_open pkt n) = Some n0"
    and "\<not> LocalEnableKeepAlive n"
  shows "\<exists>n'. run None [(e1, Some (OpenMsg (Some pkt))), (e2, Some KeepAliveMsg)] n = Some n' \<and>
    st n' = STATE_OPENCONFIRM \<and> \<not> LocalEnableKeepAlive n'"
proof -
  note fr = open_frame_simps [OF UpdateFromOpen_frame [OF assms(2)]]
  define n1 where "n1 = check_hold e1 None (evolve_fsm e1
    (n0\<lparr>n_State := (n_State n0)\<lparr>OpenReceived := True\<rparr>, LocalLastKeepAliveRecv := env_clock e1 1\<rparr>))"
  have "EvolveState e1 None (Some (OpenMsg (Some pkt))) n = Some n1"
    using assms(2) by (simp add: EvolveState_def evolve_open n1_def Let_def del: evolve_packet.simps)
  moreover have "LocalEnableKeepAlive (before_open pkt n) = LocalEnableKeepAlive n"
    by (simp add: before_open_def Let_def)
  then have "st n1 = STATE_OPENSENT" "opened n1" "\<not> LocalEnableKeepAlive n1"
    using assms(1,3) fr by (simp_all add: n1_def evolve_fsm_def check_hold_def Let_def)
  then have "\<exists>n'. EvolveState e2 None (Some KeepAliveMsg) n1 = Some n' \<and> st n' = STATE_OPENCONFIRM \<and>
      \<not> LocalEnableKeepAlive n'"
    by (simp add: EvolveState_def evolve_fsm_def check_hold_def)
  ultimately show ?thesis by (simp add: run_def)
qed

section \<open>Reading from the socket\<close>

lemma read_socket_takes:
  assumes "length msg \<le> len" and "list_all (\<lambda>r. 0 < fst r \<and> \<not> snd r) reads"
    and "len - length msg \<le> length stream" and "len - length msg \<le> length reads"
  shows "\<exists>c \<le> len - length msg. read_socket len msg stream reads =
    Some (msg @ take (len - length msg) stream, False, drop (len - length msg) stream, drop c reads)"
  using assms
proof (induction reads arbitrary: msg stream)
  case Nil
  then show ?case by simp
next
  case (Cons r reads)
  show ?case
  proof (cases "length msg < len")
    case False
    with Cons.prems(1) show ?thesis by simp
  next
    case True
    obtain k where r: "r = (k, False)" "0 < k" using Cons.prems(2) by (cases r) auto
    define i where "i = min k (len - length msg)"
    have i: "0 < i" "i \<le> len - length msg" "i \<le> length stream"
      using r(2) True Cons.prems(3) by (auto simp: i_def)
    have "\<exists>c \<le> len - length (msg @ take i stream). read_socket len (msg @ take i stream) (drop i stream) reads =
      Some ((msg @ take i stream) @ take (len - length (msg @ take i stream)) (drop i stream), False,
        drop (len - length (msg @ take i stream)) (drop i stream), drop c reads)"
      using i Cons.prems by (intro Cons.IH) (simp_all add: min_absorb2)
    then obtain c where c: "c \<le> len - length (msg @ take i stream)"
      "read_socket len (msg @ take i stream) (drop i stream) reads =
      Some ((msg @ take i stream) @ take (len - length (msg @ take i stream)) (drop i stream), False,
        drop (len - length (msg @ take i stream)) (drop i stream), drop c reads)"
      by blast
    moreover have "read_socket len msg stream (r # reads) =
        read_socket len (msg @ take i stream) (drop i stream) reads"
      using True r(1) Cons.prems(3)
      by (subst read_socket.simps) (simp add: i_def Let_def min_absorb1 del: read_socket.simps)
    moreover have "take i stream @ take (len - length (msg @ take i stream)) (drop i stream) =
        take (len - length msg) stream"
      using i take_add [of i "len - length msg - i" stream] by (simp add: min_absorb2)
    moreover have "drop (len - length (msg @ take i stream)) (drop i stream) = drop (len - length msg) stream"
      using i by (simp add: min_absorb2)
    moreover have "Suc c \<le> len - length msg" using c(1) i by (simp add: min_absorb2)
    ultimately show ?thesis
      by (metis append.assoc drop_Suc_Cons)
  qed
qed

lemma readFromSocket_takes:
  assumes "list_all (\<lambda>r. 0 < fst r \<and> \<not> snd r) reads" and "len \<le> length stream" and "len \<le> length reads"
  shows "\<exists>c \<le> len. readFromSocket len (stream, reads) = Some (take len stream, False, drop len stream, drop c reads)"
  using read_socket_takes [of "[]" len reads stream] assms by (simp add: readFromSocket_def)

lemma same_families_aligned:
  assumes "map (\<lambda>x. (ap_Afi x, ap_Safi x)) as = map (\<lambda>x. (ap_Afi x, ap_Safi x)) bs"
    and "distinct (map (\<lambda>x. (ap_Afi x, ap_Safi x)) bs)"
  shows "aligned as bs"
  unfolding aligned_def
proof (intro allI impI)
  fix i r assume i: "i < length as" and r: "ap_match bs (as ! i) = Some r"
  have len: "length as = length bs"
    using arg_cong [OF assms(1), of length] by simp
  have "(ap_Afi (as ! i), ap_Safi (as ! i)) = (ap_Afi (bs ! i), ap_Safi (bs ! i))"
    using i len arg_cong [OF assms(1), of "\<lambda>xs. xs ! i"] by simp
  then have "find (EqualsAfiSafi (as ! i)) bs = Some (bs ! i)"
    using i len by (intro distinct_families_find [OF assms(2)]) (auto simp: EqualsAfiSafi_def)
  with r i len show "i < length bs \<and> bs ! i = r"
    by (auto simp: ap_match_def split: if_splits)
qed

lemma evolve_packet_life:
  "evolve_packet env h pkt n = Some n1 \<Longrightarrow> \<not> env_life_waits env \<Longrightarrow> n_LifeStopped n1 = n_LifeStopped n"
  by (cases "(env, h, pkt, n)" rule: evolve_packet.cases)
    (auto simp: Let_def open_frame_simps [OF UpdateFromOpen_frame] Disconnect_def log_event_def UpdateState_def
      split: Option.bind_splits if_splits option.splits)

text \<open>An environment for the examples: a constant clock, a dial that succeeds, and no goroutine waiting.\<close>

definition sample_env :: "int \<Rightarrow> Env" where
  "sample_env t = \<lparr>env_clock = \<lambda>i. t, env_dial = True, env_life_waits = False, env_sender_waits = False\<rparr>"

lemma sample_env_simps [simp]:
  "env_clock (sample_env t) i = t" "env_dial (sample_env t)" "\<not> env_life_waits (sample_env t)"
  "\<not> env_sender_waits (sample_env t)"
  by (simp_all add: sample_env_def)

section \<open>Properties\<close>

text \<open>
  C9: In every state a neighbor reaches, dialled or accepted, whatever the interleaving of its
  life, sender and receive routines, the clock, the peer's bytes and the event handler's answers:
  it is connected exactly when it is not idle, it never is in the unused state CONNECT, and in
  OPENCONFIRM and ESTABLISHED the peer's OPEN has been received and, with an event handler, was
  announced to it as a new neighbor with no disconnection announced since.
\<close>

theorem Session_invariant:
  assumes "initial n" and "reachable h uh n n'"
  shows "(Connected n' \<longleftrightarrow> CurState (n_State n') \<noteq> STATE_IDLE) \<and> CurState (n_State n') \<noteq> STATE_CONNECT \<and>
    (CurState (n_State n') \<in> {STATE_OPENCONFIRM, STATE_ESTABLISHED} \<longrightarrow>
      OpenReceived (n_State n') \<and> (h \<noteq> None \<longrightarrow> session_of (n_Events n') \<noteq> None))"
  using reachable_inv [OF assms(2,1)] by (auto simp: nb_inv_def consent_def)

theorem Session_invariant_witness:
  "\<exists>n'. reachable None False (NewNeighbor [10, 0, 0, 1] 179 [10, 0, 0, 2] 65001 False 90 True) n' \<and>
    CurState (n_State n') = STATE_ACTIVE \<and> Connected n'"
proof -
  let ?n = "NewNeighbor [10, 0, 0, 1] 179 [10, 0, 0, 2] 65001 False 90 True"
  let ?env = "sample_env 5"
  obtain n' where e: "EvolveState ?env None None ?n = Some n'" "CurState (n_State n') = STATE_ACTIVE"
    by (simp add: EvolveState_def evolve_fsm_def NewNeighbor_def Connect_def UpdateState_def check_hold_def)
  have i: "initial ?n" unfolding initial_def by blast
  have r: "reachable None False ?n n'"
    by (rule reachable.step [OF reachable.start]) (rule nb_step.life_tick [OF _ _ e(1)], simp_all add: NewNeighbor_def)
  from Session_invariant [OF i r] e r show ?thesis by auto
qed

text \<open>
  C12: One call of \<open>EvolveState\<close> moves the state machine only along the edges of \<open>fsm_edge\<close>, from
  any state a neighbor reaches: ESTABLISHED is entered only from OPENCONFIRM and on a KEEPALIVE,
  OPENCONFIRM only from OPENSENT with the peer's OPEN, OPENSENT only from ACTIVE (a passive
  neighbor only with the peer's OPEN), and everything else is a stay or a disconnection.
\<close>

theorem EvolveState_transitions:
  assumes "initial n" and "reachable h uh n n'" and "EvolveState env h pkt n' = Some n''"
  shows "fsm_edge pkt (Passive n') (OpenReceived (n_State n')) (CurState (n_State n')) (CurState (n_State n''))"
  using EvolveState_effect [OF assms(3)] reachable_inv [OF assms(2,1)] by blast

theorem EvolveState_transitions_witness:
  "\<exists>n''. EvolveState (sample_env 5)
      None None (NewNeighbor [10, 0, 0, 1] 179 [10, 0, 0, 2] 65001 False 90 True) = Some n'' \<and>
    fsm_edge None False False STATE_IDLE (CurState (n_State n''))"
proof -
  let ?n = "NewNeighbor [10, 0, 0, 1] 179 [10, 0, 0, 2] 65001 False 90 True"
  let ?env = "sample_env 5"
  obtain n' where e: "EvolveState ?env None None ?n = Some n'"
    by (simp add: EvolveState_def)
  have i: "initial ?n" unfolding initial_def by blast
  from EvolveState_transitions [of ?n None False ?n, OF i reachable.start e] e
  show ?thesis by (simp add: NewNeighbor_def)
qed



text \<open>
  The add-path comparison panics exactly when some local entry matches a remote entry of its
  family (both directions covered) but has an index beyond the remote list: the code reads the
  remote list at the index of the local one.
\<close>

theorem CompareAddPath_panics_iff:
  "CompareAddPath local remote = None \<longleftrightarrow>
    (\<exists>i < length local. ap_match remote (local ! i) \<noteq> None \<and> length remote \<le> i)"
  by (rule CompareAddPath_None_iff)

text \<open>
  C22: Hence a peer crashes a speaker that has add-path enabled with one OPEN: a well-formed
  message that announces add-path for IPv6 unicast only is accepted by the parser, and reacting to
  it panics, in every state.
\<close>

theorem AddPath_open_crashes:
  assumes "length ident = 4" and "t \<in> {0, 1, 2, 3}"
    and "m = \<lparr>Version = 4, open_ASN = asn, HoldTime = hold, Identifier = ident,
      Parameters = [\<lparr>param_Type = PARAMETER_CAPA, param_Data = Some (Val
        [Val (BGPCapability_ADDPATH [\<lparr>ap_Afi = AFI_IPV6, ap_Safi = SAFI_UNICAST, ap_TxRx = t\<rparr>])])\<rparr>]\<rparr>"
    and "AddPathList n = AddPathList (NewNeighbor addr port ident' asn' True holdtime rr)"
  shows "\<exists>bs. Open_Write m = Some bs \<and> ParsePacket MESSAGE_OPEN (drop 19 bs) = Some (Some (OpenMsg (Some m)), None) \<and>
    EvolveState env h (Some (OpenMsg (Some m))) n = None"
proof -
  have "open_ok m"
    using assms(1,3) by (simp add: open_ok_def param_ok_def LenParams_def Param_Len_def AddPath_Len_def)
  then obtain bs where bs: "Open_Write m = Some bs" "ParseOpen (drop 19 bs) = Some (Some (open_norm m), None)"
    using Open_wire by blast
  moreover have "open_norm m = m"
    using assms(3) by (simp add: open_norm_def param_norm_def)
  moreover have "CompareAddPath (AddPathList n)
      [\<lparr>ap_Afi = AFI_IPV6, ap_Safi = SAFI_UNICAST, ap_TxRx = t\<rparr>] = None"
    unfolding CompareAddPath_None_iff assms(4) using assms(2)
    by (intro exI [of _ 1]) (auto simp: NewNeighbor_def ap_match_def EqualsAfiSafi_def)
  then have "UpdateFromOpen m (before_open m n) = None"
    using assms(3) by (simp add: UpdateFromOpen_def apply_param_def apply_cap_def)
  ultimately show ?thesis
    by (simp add: ParsePacket_def EvolveState_def evolve_open del: evolve_packet.simps)
qed

theorem AddPath_open_crashes_witness:
  "EvolveState (sample_env 5) None (Some (OpenMsg (Some
     \<lparr>Version = 4, open_ASN = 1, HoldTime = 90, Identifier = [10, 0, 0, 1],
      Parameters = [\<lparr>param_Type = PARAMETER_CAPA, param_Data = Some (Val
        [Val (BGPCapability_ADDPATH [\<lparr>ap_Afi = AFI_IPV6, ap_Safi = SAFI_UNICAST, ap_TxRx = 1\<rparr>])])\<rparr>]\<rparr>)))
    (NewNeighbor [10, 0, 0, 1] 179 [10, 0, 0, 2] 65001 True 90 True) = None"
proof -
  have "length [10, 0, 0, 1 :: byte] = 4" "(1 :: byte) \<in> {0, 1, 2, 3}" by simp_all
  from AddPath_open_crashes [OF this refl refl, where h = None] show ?thesis by blast
qed

text \<open>
  C23: Two speakers that list the same families in the same order, as two speakers of this library
  do, agree: both comparisons return, each gives the directions of the matching entries, and a
  family is sent with path identifiers by one exactly if the other decodes it with them.
\<close>

theorem CompareAddPath_agree:
  assumes "map (\<lambda>x. (ap_Afi x, ap_Safi x)) as = map (\<lambda>x. (ap_Afi x, ap_Safi x)) bs"
    and "distinct (map (\<lambda>x. (ap_Afi x, ap_Safi x)) as)"
  shows "\<exists>sa ra sb rb. CompareAddPath as bs = Some (sa, ra) \<and> CompareAddPath bs as = Some (sb, rb) \<and>
    sa = negotiated_send as bs \<and> ra = negotiated_recv as bs \<and> set sa = set rb \<and> set ra = set sb"
proof -
  have d: "distinct (map (\<lambda>x. (ap_Afi x, ap_Safi x)) bs)"
    using assms by simp
  have "aligned as bs" "aligned bs as"
    using same_families_aligned assms d by auto
  then show ?thesis
    using negotiated_agree_one [OF assms(2) d] negotiated_agree_one [OF d assms(2)]
    by (auto simp: CompareAddPath_aligned_value)
qed

theorem CompareAddPath_agree_witness:
  "\<exists>sa ra. CompareAddPath [\<lparr>ap_Afi = AFI_IPV4, ap_Safi = SAFI_UNICAST, ap_TxRx = 3\<rparr>]
      [\<lparr>ap_Afi = AFI_IPV4, ap_Safi = SAFI_UNICAST, ap_TxRx = 1\<rparr>] = Some (sa, ra) \<and>
    sa = [\<lparr>as_Afi = AFI_IPV4, as_Safi = SAFI_UNICAST\<rparr>] \<and> ra = []"
  using CompareAddPath_agree [of "[\<lparr>ap_Afi = AFI_IPV4, ap_Safi = SAFI_UNICAST, ap_TxRx = 3\<rparr>]"
      "[\<lparr>ap_Afi = AFI_IPV4, ap_Safi = SAFI_UNICAST, ap_TxRx = 1\<rparr>]"]
  by (auto simp: ap_negotiated_def ap_match_def EqualsAfiSafi_def)

text \<open>
  C20: What a speaker sends in its OPEN is what its peer learns: written, parsed and applied, the
  crafted message sets the peer's AS number to the 4-byte one, selects 4-byte AS numbers, records
  the identifier, route refresh and the add-path list with the negotiated families. Of the
  multiprotocol families only the last is recorded, after the receiver's own list.
\<close>

theorem Peer_learns_open:
  assumes "length identifier = 4" and "craft_caps_len mps aps rr < 254"
    and "aps = [] \<or> CompareAddPath (AddPathList n) aps = Some (send, recv)"
  shows "\<exists>bs m n'. Open_Write (CraftOpenMessage asn holdtime identifier mps aps rr) = Some bs \<and>
    ParseOpen (drop 19 bs) = Some (Some m, None) \<and> UpdateFromOpen m n = Some n' \<and>
    PeerASN n' = asn \<and> \<not> Peer2Bytes n' \<and> PeerIdentifier n' = identifier \<and>
    PeerRouteRefresh n' = (rr \<or> PeerRouteRefresh n) \<and>
    PeerMultiprotocolList n' = (if mps = [] then PeerMultiprotocolList n else MultiprotocolList n @ [last mps]) \<and>
    (aps \<noteq> [] \<longrightarrow> PeerAddPathList n' = aps \<and> SendAddPath n' = send \<and> DecodeAddPath n' = recv)"
proof -
  let ?m = "\<lparr>Version = 4, open_ASN = (if unat asn < 65536 then ucast asn else 23456), HoldTime = holdtime,
    Identifier = identifier,
    Parameters = [\<lparr>param_Type = PARAMETER_CAPA, param_Data = Some (Val (parsed_caps asn mps aps rr))\<rparr>]\<rparr>"
  obtain bs where bs: "Open_Write (CraftOpenMessage asn holdtime identifier mps aps rr) = Some bs"
    "ParseOpen (drop 19 bs) = Some (Some ?m, None)"
    using CraftOpenMessage_wire [OF assms(1,2), of asn holdtime] unfolding parsed_caps_def by blast
  let ?n = "n\<lparr>PeerASN := ucast (open_ASN ?m), PeerIdentifier := Identifier ?m, Peer2Bytes := True\<rparr>"
  have "aps = [] \<or> CompareAddPath (AddPathList ?n) aps = Some (send, recv)"
    using assms(3) by simp
  from apply_parsed_caps [OF this, of asn mps rr] obtain n' where
    "foldM_go apply_cap (parsed_caps asn mps aps rr) ?n = Some n'" and props:
    "PeerASN n' = asn" "\<not> Peer2Bytes n'" "PeerIdentifier n' = PeerIdentifier ?n"
    "PeerRouteRefresh n' = (rr \<or> PeerRouteRefresh ?n)"
    "PeerMultiprotocolList n' = (if mps = [] then PeerMultiprotocolList ?n else MultiprotocolList ?n @ [last mps])"
    "aps \<noteq> [] \<longrightarrow> PeerAddPathList n' = aps \<and> SendAddPath n' = send \<and> DecodeAddPath n' = recv"
    by blast
  then have "UpdateFromOpen ?m n = Some n'"
    by (simp add: UpdateFromOpen_def apply_param_def)
  with bs props show ?thesis by (intro exI [of _ bs] exI [of _ ?m] exI [of _ n']) simp
qed

theorem Peer_learns_open_witness:
  "\<exists>bs m n'. Open_Write (CraftOpenMessage 4200000000 90 [10, 0, 0, 1]
      [(AFI_IPV4, SAFI_UNICAST), (AFI_IPV6, SAFI_UNICAST)] [] True) = Some bs \<and>
    ParseOpen (drop 19 bs) = Some (Some m, None) \<and>
    UpdateFromOpen m (NewNeighbor [10, 0, 0, 1] 179 [10, 0, 0, 2] 65001 False 90 True) = Some n' \<and>
    PeerASN n' = 4200000000 \<and>
    PeerMultiprotocolList n' =
      [(AFI_IPV4, SAFI_UNICAST), (AFI_IPV6, SAFI_UNICAST), (AFI_IPV6, SAFI_UNICAST)]"
  using Peer_learns_open [of "[10, 0, 0, 1]" "[(AFI_IPV4, SAFI_UNICAST), (AFI_IPV6, SAFI_UNICAST)]" "[]" True
      "NewNeighbor [10, 0, 0, 1] 179 [10, 0, 0, 2] 65001 False 90 True" "[]" "[]" 4200000000 90]
  by (simp add: craft_caps_len_def NewNeighbor_def) blast

text \<open>
  The hold timer works: a tick at which the last message of the peer is older than the local
  hold time disconnects a neighbor whose session has begun, and tells the event handler.
\<close>

theorem Hold_timer_disconnects:
  assumes "CurState (n_State n) \<in> {STATE_OPENSENT, STATE_OPENCONFIRM, STATE_ESTABLISHED}"
    and "LocalEnableKeepAlive n" and "LocalLastKeepAliveRecv n + LocalHoldTime n < env_clock env 4"
  shows "\<exists>n'. EvolveState env h None n = Some n' \<and> CurState (n_State n') = STATE_IDLE \<and> \<not> Connected n' \<and>
    (h \<noteq> None \<longrightarrow> last (n_Events n') = EvDisconnected)"
proof -
  have "st (evolve_fsm env n) \<notin> {STATE_IDLE, STATE_ACTIVE}" "LocalEnableKeepAlive (evolve_fsm env n)"
    "LocalLastKeepAliveRecv (evolve_fsm env n) + LocalHoldTime (evolve_fsm env n) < env_clock env 4"
    using assms by (auto simp: evolve_fsm_def)
  then have "check_hold env h (evolve_fsm env n) = Disconnect env h (evolve_fsm env n)"
    by (simp add: check_hold_def)
  then show ?thesis by (simp add: EvolveState_def)
qed

theorem Hold_timer_disconnects_witness:
  "\<exists>n'. EvolveState (sample_env (91 * second))
      None None (UpdateState STATE_ESTABLISHED 0 (NewNeighbor [10, 0, 0, 1] 179 [10, 0, 0, 2] 65001 False 90 True)) =
      Some n' \<and> CurState (n_State n') = STATE_IDLE"
  using Hold_timer_disconnects [of "UpdateState STATE_ESTABLISHED 0
      (NewNeighbor [10, 0, 0, 1] 179 [10, 0, 0, 2] 65001 False 90 True)"
      "sample_env (91 * second)" None]
  by (auto simp: NewNeighbor_def UpdateState_def)

text \<open>
  The keepalive interval is computed in nanoseconds instead of seconds: whatever hold time the
  peer announced, every tick that comes 21846 nanoseconds or more after the last KEEPALIVE sends
  another, although a third of the hold time is meant.
\<close>

theorem Keepalive_every_tick:
  assumes "CurState (n_State n) \<in> {STATE_OPENCONFIRM, STATE_ESTABLISHED}"
    and "PeerEnableKeepAlive n" and "PeerHoldTime n = uint (hold :: u16) * second"
    and "LastKeepAliveSent n + 21846 \<le> env_clock env 2"
  shows "\<exists>n'. EvolveState env h None n = Some n' \<and> OutQueue n' = OutQueue n @ [KeepAliveMsg]"
proof -
  have "uint hold \<le> 65535"
    using uint_lt2p [of hold] by simp
  then have "LastKeepAliveSent n + PeerHoldTime n div second div 3 < env_clock env 2"
    using assms(3,4) by simp
  then have "OutQueue (evolve_fsm env n) = OutQueue n @ [KeepAliveMsg]"
    using assms(1,2) by (auto simp: evolve_fsm_def send_keepalive_def)
  then have "OutQueue (check_hold env h (evolve_fsm env n)) = OutQueue n @ [KeepAliveMsg]"
    using check_hold_cases [of env h "evolve_fsm env n"] by auto
  then show ?thesis by (simp add: EvolveState_def)
qed

theorem Keepalive_every_tick_witness:
  "\<exists>n'. EvolveState (sample_env (1000000 * second + 30000))
      None None ((UpdateState STATE_ESTABLISHED 0 (NewNeighbor [10, 0, 0, 1] 179 [10, 0, 0, 2] 65001 False 0 True))
        \<lparr>PeerEnableKeepAlive := True, PeerHoldTime := uint (90 :: u16) * second,
         LastKeepAliveSent := 1000000 * second\<rparr>) = Some n' \<and>
    OutQueue n' = [KeepAliveMsg]"
  using Keepalive_every_tick [of "(UpdateState STATE_ESTABLISHED 0
        (NewNeighbor [10, 0, 0, 1] 179 [10, 0, 0, 2] 65001 False 0 True))
        \<lparr>PeerEnableKeepAlive := True, PeerHoldTime := uint (90 :: u16) * second,
         LastKeepAliveSent := 1000000 * second\<rparr>" 90
      "sample_env (1000000 * second + 30000)" None]
  by (auto simp: NewNeighbor_def UpdateState_def)

text \<open>
  C37: Without keepalives (hold time 0 on the local side) an accepted neighbor never comes up on
  the handshake alone: after the peer's OPEN and KEEPALIVE, both well timed, it is in OPENCONFIRM,
  because the KEEPALIVE is consumed before that state is entered, and no number of ticks moves it.
\<close>

theorem Passive_handshake_stuck:
  assumes "CurState (n_State n) = STATE_ACTIVE" and "UpdateFromOpen pkt (before_open pkt n) \<noteq> None"
    and "\<not> LocalEnableKeepAlive n" and "list_all (\<lambda>x. snd x = None) ticks"
  shows "\<exists>n'. run None ([(e1, Some (OpenMsg (Some pkt))), (e2, Some KeepAliveMsg)] @ ticks) n = Some n' \<and>
    CurState (n_State n') = STATE_OPENCONFIRM"
proof -
  obtain n0 where "UpdateFromOpen pkt (before_open pkt n) = Some n0"
    using assms(2) by auto
  from passive_handshake [OF assms(1) this assms(3), of e1 e2] obtain n1 where
    "run None [(e1, Some (OpenMsg (Some pkt))), (e2, Some KeepAliveMsg)] n = Some n1"
    "st n1 = STATE_OPENCONFIRM" "\<not> LocalEnableKeepAlive n1" by blast
  with ticks_OPENCONFIRM [OF this(2,3) assms(4)] show ?thesis
    by (simp add: run_def foldM_go_append del: append.simps)
qed

theorem Passive_handshake_stuck_witness:
  "\<exists>n'. run None ([(sample_env 5, Some (OpenMsg (Some (CraftOpenMessage 65002 0 [10, 0, 0, 1] [] [] False
        \<lparr>Parameters := []\<rparr>)))), (sample_env 5, Some KeepAliveMsg)] @ replicate 1000 (sample_env 5, None))
      (ProcessIncomingRequest [10, 0, 0, 1] 179 [10, 0, 0, 2] 65001 False 0 True 0) = Some n' \<and>
    CurState (n_State n') = STATE_OPENCONFIRM"
  by (rule Passive_handshake_stuck)
    (simp_all add: ProcessIncomingRequest_def NewNeighborFromConn_def NewNeighbor_def UpdateState_def
      Let_def UpdateFromOpen_def list_all_iff)

text \<open>
  C29: \<open>readFromSocket\<close> does not depend on how the network cuts the stream: however many positive
  amounts the reads deliver, without an error it returns exactly the bytes asked for and leaves
  the rest of the stream.
\<close>

theorem readFromSocket_segmentation:
  assumes "list_all (\<lambda>r. 0 < fst r \<and> \<not> snd r) reads" and "len \<le> length stream" and "len \<le> length reads"
  shows "\<exists>c \<le> len. readFromSocket len (stream, reads) = Some (take len stream, False, drop len stream, drop c reads)"
  by (rule readFromSocket_takes [OF assms])

theorem readFromSocket_segmentation_witness:
  "\<exists>c \<le> 3. readFromSocket 3 ([1, 2, 3, 4], [(1, False), (5, False), (1, False)]) =
    Some ([1, 2, 3], False, [4], drop c [(1, False), (5, False), (1, False)])"
  using readFromSocket_segmentation [of "[(1, False), (5, False), (1, False)]" 3 "[1, 2, 3, 4]"] by simp

text \<open>
  A life routine that disconnects its own neighbor is not stopped by it: the stop signal is
  offered without blocking to the very goroutine that offers it, so it is lost, and the routine
  goes on ticking after the neighbor was removed from the manager.
\<close>

theorem Life_routine_survives_disconnect:
  assumes "EvolveState env h pkt n = Some n'" and "\<not> env_life_waits env"
  shows "n_LifeStopped n' = n_LifeStopped n"
proof -
  obtain n1 where n1: "evolve_packet env h pkt n = Some n1"
    "n' = check_hold env h (evolve_fsm env
       (if pkt \<noteq> None then n1\<lparr>LocalLastKeepAliveRecv := env_clock env 1\<rparr> else n1))"
    using assms(1) by (rule EvolveState_stages)
  have "n_LifeStopped (evolve_fsm env m) = n_LifeStopped m" for m
    by (cases "st m") (auto simp: evolve_fsm_def Connect_def UpdateState_def send_keepalive_def Let_def)
  moreover have "n_LifeStopped (check_hold env h m) = n_LifeStopped m" for m
    using assms(2) by (simp add: check_hold_def Disconnect_def UpdateState_def log_event_def Let_def)
  ultimately show ?thesis
    using evolve_packet_life [OF n1(1) assms(2)] n1(2) by simp
qed

theorem Life_routine_survives_disconnect_witness:
  "\<exists>n'. EvolveState (sample_env 5) None (Some (NotificationMsg None))
      (ProcessIncomingRequest [10, 0, 0, 1] 179 [10, 0, 0, 2] 65001 False 0 True 0) = Some n' \<and>
    n_Removed n' \<and> \<not> n_LifeStopped n'"
proof -
  let ?n = "ProcessIncomingRequest [10, 0, 0, 1] 179 [10, 0, 0, 2] 65001 False 0 True 0"
  obtain n' where e: "EvolveState (sample_env 5) None (Some (NotificationMsg None)) ?n = Some n'" "n_Removed n'"
    by (simp add: EvolveState_def evolve_fsm_def check_hold_def Disconnect_def UpdateState_def Let_def
        ProcessIncomingRequest_def NewNeighborFromConn_def NewNeighbor_def)
  moreover have "\<not> n_LifeStopped ?n"
    by (simp add: ProcessIncomingRequest_def NewNeighborFromConn_def NewNeighbor_def UpdateState_def Let_def)
  ultimately show ?thesis
    using Life_routine_survives_disconnect [OF e(1)] by simp
qed

text \<open>
  A header-only NOTIFICATION is not rejected: the receive routine parses its own header as the
  body and queues a notification with code and subcode 255.
\<close>

theorem Empty_notification_accepted:
  assumes "length (n_update n) < 5"
  shows "receive_iter env None uh (WriteBGPHeader MESSAGE_NOTIFICATION 0 @ rest, [(19, False)]) n =
    Some (n\<lparr>n_update := n_update n @ [NotificationMsg (Some
      \<lparr>ErrorCode = 0xff, ErrorSubcode = 0xff, ErrorData = drop 2 (WriteBGPHeader MESSAGE_NOTIFICATION 0)\<rparr>)]\<rparr>,
      (rest, []))"
proof -
  let ?h = "WriteBGPHeader MESSAGE_NOTIFICATION 0"
  have r: "readFromSocket 19 (?h @ rest, [(19, False)]) = Some (?h, False, rest, [])"
    by (simp add: readFromSocket_def GetBGPHeaderLen_def)
  have p: "ParsePacketHeader ?h = Some (MESSAGE_NOTIFICATION, 0, None)"
    using ParsePacketHeader_Write [of 0 MESSAGE_NOTIFICATION "[]"] by simp
  have b: "?h = 0xff # 0xff # drop 2 ?h"
    by (simp add: WriteBGPHeader_def bgpMarker_def replicate_numeral)
  have "ParsePacket MESSAGE_NOTIFICATION ?h = Some (Some (NotificationMsg (Some
      \<lparr>ErrorCode = 0xff, ErrorSubcode = 0xff, ErrorData = drop 2 ?h\<rparr>)), None)"
    by (subst (1) b) (simp add: ParsePacket_def ParseNotification_def subslice_def GetBGPHeaderLen_def)
  then have "receive_dispatch env None uh MESSAGE_NOTIFICATION ?h n = Some (n\<lparr>n_update := n_update n @
      [NotificationMsg (Some \<lparr>ErrorCode = 0xff, ErrorSubcode = 0xff, ErrorData = drop 2 ?h\<rparr>)]\<rparr>)"
    using assms by (simp add: receive_dispatch_def)
  with r p show ?thesis
    by (simp add: receive_iter_def)
qed

theorem Empty_notification_accepted_witness:
  "\<exists>n'. receive_iter (sample_env 5) None True (WriteBGPHeader MESSAGE_NOTIFICATION 0, [(19, False)])
      (NewNeighbor [10, 0, 0, 1] 179 [10, 0, 0, 2] 65001 False 90 True) = Some (n', ([], [])) \<and>
    length (n_update n') = 1"
  using Empty_notification_accepted [of "NewNeighbor [10, 0, 0, 1] 179 [10, 0, 0, 2] 65001 False 90 True"
      "sample_env 5" True "[]"]
  by (simp add: NewNeighbor_def)



lemma silent_tick:
  assumes "st n \<in> {STATE_IDLE, STATE_ACTIVE}" and "LocalEnableKeepAlive n"
    and "LocalLastKeepAliveRecv n + LocalHoldTime n < env_clock e 4"
  shows "\<exists>n'. EvolveState e h None n = Some n' \<and> st n' \<in> {STATE_IDLE, STATE_ACTIVE} \<and> LocalEnableKeepAlive n' \<and>
    LocalLastKeepAliveRecv n' = LocalLastKeepAliveRecv n \<and> LocalHoldTime n' = LocalHoldTime n"
proof -
  let ?n = "evolve_fsm e n"
  have keep: "LocalEnableKeepAlive ?n" "LocalLastKeepAliveRecv ?n = LocalLastKeepAliveRecv n"
    "LocalHoldTime ?n = LocalHoldTime n"
    using assms(1,2) by (auto simp: evolve_fsm_def Connect_def Let_def)
  have "st (check_hold e h ?n) \<in> {STATE_IDLE, STATE_ACTIVE}"
    using assms(3) keep by (simp add: check_hold_def)
  moreover have "LocalEnableKeepAlive (check_hold e h ?n)"
    "LocalLastKeepAliveRecv (check_hold e h ?n) = LocalLastKeepAliveRecv n"
    "LocalHoldTime (check_hold e h ?n) = LocalHoldTime n"
    using keep by (simp_all add: check_hold_def)
  ultimately show ?thesis by (simp add: EvolveState_def)
qed

lemma silent_ticks:
  assumes "st n \<in> {STATE_IDLE, STATE_ACTIVE}" and "LocalEnableKeepAlive n"
    and "list_all (\<lambda>(e, pkt). pkt = None \<and> LocalLastKeepAliveRecv n + LocalHoldTime n < env_clock e 4) es"
  shows "\<exists>n'. run h es n = Some n' \<and> st n' \<in> {STATE_IDLE, STATE_ACTIVE}"
  using assms
proof (induction es arbitrary: n)
  case Nil
  then show ?case by (simp add: run_def)
next
  case (Cons x es)
  obtain e where x: "x = (e, None)" "LocalLastKeepAliveRecv n + LocalHoldTime n < env_clock e 4"
    using Cons.prems(3) by (cases x) simp
  obtain n1 where n1: "EvolveState e h None n = Some n1" "st n1 \<in> {STATE_IDLE, STATE_ACTIVE}"
    "LocalEnableKeepAlive n1" "LocalLastKeepAliveRecv n1 = LocalLastKeepAliveRecv n" "LocalHoldTime n1 = LocalHoldTime n"
    using silent_tick [OF Cons.prems(1,2) x(2)] by blast
  have "\<exists>n'. run h es n1 = Some n' \<and> st n' \<in> {STATE_IDLE, STATE_ACTIVE}"
    using Cons.prems(3) n1 by (intro Cons.IH) simp_all
  with x n1(1) show ?case by (simp add: run_def)
qed



text \<open>
  Sending a route sends no route: whatever prefixes, withdrawals and attributes are passed to
  \<open>SendRoute\<close>, the sender puts the empty UPDATE of 23 bytes on the wire, which the peer's parser
  reads as a message without prefixes and attributes (the end-of-RIB marker).
\<close>

theorem SendRoute_sends_no_route:
  "OutQueue n = [] \<Longrightarrow>
    sender_iter env h True (SendRoute afisafi nlri withdraw nextHop communities aspath med locpref n) =
      Some (replicate 16 255 @ [0, 23, 2, 0, 0, 0, 0], n) \<and>
    ParseUpdate [0, 0, 0, 0] apl e =
      Some (Some \<lparr>WithdrawnRoutes = [], PathAttributes = [], upd_NLRI = [],
        EnableAddPath = InAfiSafi AFI_IPV4 SAFI_UNICAST apl\<rparr>, None)"
proof -
  let ?m = "\<lambda>x. \<lparr>WithdrawnRoutes = [], PathAttributes = [], upd_NLRI = [], EnableAddPath = x\<rparr>"
  have w: "Update_Write (?m x) = Some (replicate 16 255 @ [0, 23, 2, 0, 0, 0, 0])" for x
    by (simp add: Update_Write_def write_all_def WriteBGPHeader_def bgpMarker_def Update_LenContent_def
      LenWithdrawn_def LenPathAttribute_def be16_def)
  have "ParseUpdate [0, 0, 0, 0] apl e = Some (Some (?m (InAfiSafi AFI_IPV4 SAFI_UNICAST apl)), None)"
    using ParseUpdate_Write [of apl e "?m (InAfiSafi AFI_IPV4 SAFI_UNICAST apl)"] w
    by (simp add: update_ok_def update_norm_def Update_LenContent_def LenWithdrawn_def LenPathAttribute_def
      drop_append)
  moreover assume "OutQueue n = []"
  ultimately show ?thesis
    using w [of False] by (simp add: SendRoute_def sender_iter_def CraftUpdate_def)
qed

theorem SendRoute_sends_no_route_witness:
  "\<exists>n'. sender_iter (sample_env 0) None True
      (SendRoute \<lparr>as_Afi = 1, as_Safi = 1\<rparr> [\<lparr>Prefix = \<lparr>IP = [10, 0, 0, 0], Mask = [255, 0, 0, 0]\<rparr>, PathId = 0\<rparr>]
        [] [10, 0, 0, 1] [] [65001] 0 100
        (NewNeighbor [10, 0, 0, 1] 179 [10, 0, 0, 2] 65001 False 90 True)) =
      Some (replicate 16 255 @ [0, 23, 2, 0, 0, 0, 0], n')"
  using SendRoute_sends_no_route [of "NewNeighbor [10, 0, 0, 1] 179 [10, 0, 0, 2] 65001 False 90 True"]
  by (simp add: NewNeighbor_def)

end
