(* ===== verification/Worker_Pool.thy ===== *)
theory Worker_Pool
  imports Go_Prelude "HOL-Library.Multiset"
begin

text \<open>
  The worker pool of \<^verbatim>\<open>server/workerpool.go\<close> as a step relation. A worker either offers its
  message channel on the pool's \<^verbatim>\<open>inchan\<close> (\<open>Offering\<close>) or waits in its select for a message or the
  stop signal (\<open>Selecting\<close>). All channels are unbuffered, so each step is the rendezvous of two
  goroutines: \<open>Dispatch\<close> first receives a worker's channel, then sends the message on it. The
  interface \<^verbatim>\<open>Handler\<close> is the locale \<open>pool_handler\<close>: \<open>process\<close> tells whether handling a message
  fails. Lemmas: no message is lost, duplicated or invented; a worker never ends.
\<close>

section \<open>State and steps\<close>

datatype phase = Offering | Selecting

record 'm Pool =
  workers :: "phase list"
  pending :: "(nat \<times> 'm) multiset"
  dispatched :: "'m multiset"
  processed :: "(nat \<times> 'm) list"
  failed :: "(nat \<times> 'm) list"

definition CreatePool :: "nat \<Rightarrow> 'm Pool" where
  "CreatePool nworkers =
     \<lparr>workers = replicate nworkers Offering, pending = {#}, dispatched = {#}, processed = [], failed = []\<rparr>"

text \<open>The first rendezvous of \<open>Dispatch msg\<close>: it takes the channel of the offering worker \<open>i\<close>.\<close>

definition Dispatch_take :: "nat \<Rightarrow> 'm \<Rightarrow> 'm Pool \<Rightarrow> 'm Pool" where
  "Dispatch_take i msg p =
     p\<lparr>workers := (workers p)[i := Selecting], pending := add_mset (i, msg) (pending p),
       dispatched := add_mset msg (dispatched p)\<rparr>"

text \<open>The second: worker \<open>i\<close> receives the message, handles it and returns to the loop head.\<close>

definition Worker_process :: "(nat \<Rightarrow> 'm \<Rightarrow> bool) \<Rightarrow> nat \<Rightarrow> 'm \<Rightarrow> 'm Pool \<Rightarrow> 'm Pool" where
  "Worker_process process i msg p =
     p\<lparr>workers := (workers p)[i := Offering], pending := pending p - {#(i, msg)#},
       processed := processed p @ [(i, msg)],
       failed := (if process i msg then failed p @ [(i, msg)] else failed p)\<rparr>"

text \<open>The stop signal: the \<^verbatim>\<open>break\<close> leaves the select only, and the loop starts over.\<close>

definition Worker_stop :: "nat \<Rightarrow> 'm Pool \<Rightarrow> 'm Pool" where
  "Worker_stop i p = p\<lparr>workers := (workers p)[i := Offering]\<rparr>"

inductive pool_step :: "(nat \<Rightarrow> 'm \<Rightarrow> bool) \<Rightarrow> 'm Pool \<Rightarrow> 'm Pool \<Rightarrow> bool"
  for process :: "nat \<Rightarrow> 'm \<Rightarrow> bool" where
  take_channel: "i < length (workers p) \<Longrightarrow> workers p ! i = Offering \<Longrightarrow>
    pool_step process p (Dispatch_take i msg p)"
| handle: "i < length (workers p) \<Longrightarrow> workers p ! i = Selecting \<Longrightarrow> (i, msg) \<in># pending p \<Longrightarrow>
    pool_step process p (Worker_process process i msg p)"
| stop: "i < length (workers p) \<Longrightarrow> workers p ! i = Selecting \<Longrightarrow>
    pool_step process p (Worker_stop i p)"

inductive pool_reach :: "(nat \<Rightarrow> 'm \<Rightarrow> bool) \<Rightarrow> bool \<Rightarrow> 'm Pool \<Rightarrow> 'm Pool \<Rightarrow> bool"
  for process :: "nat \<Rightarrow> 'm \<Rightarrow> bool" and stops :: bool where
  refl: "pool_reach process stops p p"
| step: "pool_reach process stops p q \<Longrightarrow> pool_step process q r \<Longrightarrow>
    stops \<or> \<not> (\<exists>i. r = Worker_stop i q) \<Longrightarrow> pool_reach process stops p r"

inductive_cases pool_stepE: "pool_step process p q"

section \<open>The handler interface\<close>

text \<open>
  What the pool needs of a handler and promises in return, for an arbitrary test \<open>process\<close> of
  failure: messages are conserved, and the error callback is called for exactly the failures.
\<close>

locale pool_handler =
  fixes process :: "nat \<Rightarrow> 'm \<Rightarrow> bool"
    and accounted :: "'m Pool \<Rightarrow> bool"
  assumes accounted_start: "accounted (CreatePool n)"
    and accounted_take: "accounted p \<Longrightarrow> accounted (Dispatch_take i msg p)"
    and accounted_process: "accounted p \<Longrightarrow> (i, msg) \<in># pending p \<Longrightarrow> accounted (Worker_process process i msg p)"
    and accounted_stop: "accounted p \<Longrightarrow> accounted (Worker_stop i p)"
begin

lemma accounted_step: "pool_step process p q \<Longrightarrow> accounted p \<Longrightarrow> accounted q"
  by (erule pool_stepE) (auto intro: accounted_take accounted_process accounted_stop)

lemma accounted_reach: "pool_reach process stops p q \<Longrightarrow> accounted p \<Longrightarrow> accounted q"
  by (induction rule: pool_reach.induct) (auto intro: accounted_step)

lemma accounted_pool: "pool_reach process stops (CreatePool n) q \<Longrightarrow> accounted q"
  using accounted_reach accounted_start by blast

end

definition conserved :: "(nat \<Rightarrow> 'm \<Rightarrow> bool) \<Rightarrow> 'm Pool \<Rightarrow> bool" where
  "conserved process p \<longleftrightarrow>
     dispatched p = image_mset snd (pending p) + mset (map snd (processed p)) \<and>
     failed p = filter (\<lambda>(i, msg). process i msg) (processed p)"

lemma conserved_process:
  assumes "conserved process p" and "(i, msg) \<in># pending p"
  shows "conserved process (Worker_process process i msg p)"
proof -
  from assms(2) obtain q where "pending p = add_mset (i, msg) q"
    by (blast dest: multi_member_split)
  with assms(1) show ?thesis by (auto simp: conserved_def Worker_process_def)
qed

interpretation pool: pool_handler process "conserved process" for process
  by unfold_locales
    (auto simp: conserved_process, auto simp: conserved_def CreatePool_def Dispatch_take_def Worker_stop_def)

section \<open>Workers\<close>

lemma pool_step_workers: "pool_step process p q \<Longrightarrow> length (workers q) = length (workers p)"
  by (erule pool_stepE) (auto simp: Dispatch_take_def Worker_process_def Worker_stop_def)

lemma pool_reach_workers: "pool_reach process stops p q \<Longrightarrow> length (workers q) = length (workers p)"
  by (induction rule: pool_reach.induct) (auto dest: pool_step_workers)

text \<open>As long as nobody stops the pool, a worker selects exactly when one dispatcher holds its
  channel.\<close>

definition held :: "nat \<Rightarrow> 'm Pool \<Rightarrow> nat" where
  "held i p = size (filter_mset (\<lambda>x. fst x = i) (pending p))"

definition matched :: "'m Pool \<Rightarrow> bool" where
  "matched p \<longleftrightarrow> (\<forall>i. held i p = (if i < length (workers p) \<and> workers p ! i = Selecting then 1 else 0))"

lemma held_take: "held j (Dispatch_take i msg p) = held j p + (if i = j then 1 else 0)"
  by (simp add: held_def Dispatch_take_def)

lemma held_process:
  assumes "(i, msg) \<in># pending p"
  shows "held j p = held j (Worker_process process i msg p) + (if i = j then 1 else 0)"
proof -
  from assms obtain r where "pending p = add_mset (i, msg) r"
    by (blast dest: multi_member_split)
  then show ?thesis by (simp add: held_def Worker_process_def)
qed

lemma held_pos: "(i, msg) \<in># pending p \<Longrightarrow> held i p \<noteq> 0"
  using held_process [of i msg p i "\<lambda>_ _. True"] by simp

lemma matched_step:
  assumes "pool_step process p q" and "\<not> (\<exists>i. q = Worker_stop i p)" and "matched p"
  shows "matched q"
  using assms(1)
proof (cases rule: pool_step.cases)
  case (take_channel i msg)
  with assms(3) show ?thesis
    unfolding matched_def take_channel(1) held_take
    by (auto simp: Dispatch_take_def nth_list_update)
next
  case (handle i msg)
  have "held j q = (if j < length (workers q) \<and> workers q ! j = Selecting then 1 else 0)" for j
    using held_process [OF handle(4), of j process] handle assms(3)
    by (auto simp: matched_def Worker_process_def nth_list_update split: if_splits)
  then show ?thesis by (simp add: matched_def)
next
  case (stop i)
  with assms(2) show ?thesis by blast
qed

lemma matched_reach: "pool_reach process False p q \<Longrightarrow> matched p \<Longrightarrow> matched q"
  by (induction rule: pool_reach.induct) (auto dest: matched_step)

lemma matched_start: "matched (CreatePool n)"
  by (simp add: matched_def CreatePool_def held_def)

lemma pool_reach_stops: "pool_reach process stops p q \<Longrightarrow> pool_reach process True p q"
  by (induction rule: pool_reach.induct) (auto intro: pool_reach.intros)

lemma take_not_stop: "Dispatch_take i msg p \<noteq> Worker_stop j p"
  by (auto dest!: arg_cong [where f = dispatched] simp: Dispatch_take_def Worker_stop_def)

section \<open>Properties\<close>

text \<open>
  C24: The pool neither loses nor duplicates nor invents a message, under every interleaving of
  dispatchers, workers and stops: what was dispatched is what was processed plus what a dispatcher
  still holds, and the error callback is called exactly for the messages whose processing failed,
  in order.
\<close>

theorem Pool_conserves_messages:
  assumes "pool_reach process stops (CreatePool n) p"
  shows "dispatched p = image_mset snd (pending p) + mset (map snd (processed p)) \<and>
    failed p = filter (\<lambda>(i, msg). process i msg) (processed p)"
  using pool.accounted_pool [OF assms] by (simp add: conserved_def)

theorem Pool_conserves_messages_witness:
  "\<exists>p. pool_reach (\<lambda>i m. m = (7 :: nat)) True (CreatePool 1) p \<and> processed p = [(0, 7)] \<and> failed p = [(0, 7)] \<and>
    dispatched p = {#7#}"
proof -
  let ?f = "\<lambda>i m. m = (7 :: nat)" and ?p = "Dispatch_take 0 7 (CreatePool 1)"
  have "pool_step ?f (CreatePool 1) ?p"
    by (rule pool_step.take_channel) (simp_all add: CreatePool_def)
  moreover have "pool_step ?f ?p (Worker_process ?f 0 7 ?p)"
    by (rule pool_step.handle) (simp_all add: CreatePool_def Dispatch_take_def)
  ultimately have r: "pool_reach ?f True (CreatePool 1) (Worker_process ?f 0 7 ?p)"
    by (blast intro: pool_reach.intros)
  moreover have "processed (Worker_process ?f 0 7 ?p) = [(0, 7)]" "pending (Worker_process ?f 0 7 ?p) = {#}"
    by (simp_all add: Worker_process_def Dispatch_take_def CreatePool_def)
  ultimately show ?thesis
    using Pool_conserves_messages [OF r] by auto
qed

text \<open>
  C25: While nobody stops the pool, no dispatcher waits in vain: whoever holds a worker's channel
  finds that worker ready to receive, so its message can be handled at once.
\<close>

theorem Pool_dispatch_progress:
  assumes "pool_reach process False (CreatePool n) p" and "(i, msg) \<in># pending p"
  shows "pool_step process p (Worker_process process i msg p)"
proof -
  have "matched p" using matched_reach [OF assms(1) matched_start] .
  then have "i < length (workers p) \<and> workers p ! i = Selecting"
    using held_pos [OF assms(2)] by (auto simp: matched_def split: if_splits)
  with assms(2) show ?thesis by (blast intro: pool_step.handle)
qed

theorem Pool_dispatch_progress_witness:
  "pool_step (\<lambda>i m. False) (Dispatch_take 0 (7 :: nat) (CreatePool 1))
    (Worker_process (\<lambda>i m. False) 0 7 (Dispatch_take 0 7 (CreatePool 1)))"
proof (rule Pool_dispatch_progress)
  have "pool_step (\<lambda>i m. False) (CreatePool 1) (Dispatch_take 0 (7 :: nat) (CreatePool 1))"
    by (rule pool_step.take_channel) (simp_all add: CreatePool_def)
  then show "pool_reach (\<lambda>i m. False) False (CreatePool 1) (Dispatch_take 0 (7 :: nat) (CreatePool 1))"
    by (rule pool_reach.step [OF pool_reach.refl]) (simp add: take_not_stop)
qed (simp add: Dispatch_take_def)

text \<open>
  Stopping the pool stops no worker: every worker is still running after any number of stops,
  and a stop that overtakes a dispatcher leaves its message with no worker ready to take it.
\<close>

theorem Pool_stop_has_no_effect:
  assumes "pool_reach process stops (CreatePool n) p"
  shows "length (workers p) = n \<and>
    (\<forall>i < n. workers p ! i = Offering \<longrightarrow>
      (let q = Worker_stop i (Dispatch_take i msg p) in
        pool_reach process True (CreatePool n) q \<and> (i, msg) \<in># pending q \<and> workers q ! i = Offering))"
proof -
  have len: "length (workers p) = n"
    using pool_reach_workers [OF assms] by (simp add: CreatePool_def)
  have "pool_reach process True (CreatePool n) (Worker_stop i (Dispatch_take i msg p))"
    if "i < n" "workers p ! i = Offering" for i
  proof -
    have "pool_step process p (Dispatch_take i msg p)"
      using that len by (intro pool_step.take_channel) simp_all
    moreover have "pool_step process (Dispatch_take i msg p) (Worker_stop i (Dispatch_take i msg p))"
      using that len by (intro pool_step.stop) (simp_all add: Dispatch_take_def)
    ultimately show ?thesis
      using pool_reach_stops [OF assms] by (blast intro: pool_reach.intros)
  qed
  with len show ?thesis
    by (simp add: Let_def Worker_stop_def Dispatch_take_def)
qed

theorem Pool_stop_has_no_effect_witness:
  "pool_reach (\<lambda>i m. False) True (CreatePool 1) (Worker_stop 0 (Dispatch_take 0 (7 :: nat) (CreatePool 1)))"
  using Pool_stop_has_no_effect [OF pool_reach.refl [of "\<lambda>i m. False" False "CreatePool 1"], of "7 :: nat"]
  by (simp add: CreatePool_def Let_def)

end
