(* ===== verification/Manager.thy ===== *)
theory Manager
  imports Neighbor Worker_Pool
begin

text \<open>
  The manager of neighbors and servers (\<^verbatim>\<open>server/server.go\<close>) and the default update handler
  (\<^verbatim>\<open>server/update.go\<close>). Pointers to neighbors are numbers; the store gives the handlers each
  neighbor has. Address resolution (\<^verbatim>\<open>net.ResolveTCPAddr\<close>) is an argument. The update handler
  decodes an UPDATE body with the add-path families and AS number width its neighbor negotiated.
\<close>

section \<open>The manager\<close>

record Handlers =
  HandlerEvent :: "nat option"
  HandlerUpdate :: "nat option"

record Server =
  srv_Addr :: bytes
  srv_Port :: nat

record Manager =
  Neighbors :: "nat list"
  Servers :: "Server list"
  m_HandlerEvent :: "nat option"
  m_HandlerUpdate :: "nat option"
  m_ASN :: u32
  m_Identifier :: bytes
  m_AddPath :: bool
  m_HoldTime :: int
  m_RouteRefresh :: bool
  MemPool :: "nat list"
  nb_handlers :: "nat \<Rightarrow> Handlers"

definition NewManager :: "u32 \<Rightarrow> bytes \<Rightarrow> bool \<Rightarrow> bool \<Rightarrow> Manager" where
  "NewManager asn identifier addpath routerefresh =
     \<lparr>Neighbors = [], Servers = [], m_HandlerEvent = None, m_HandlerUpdate = None,
      m_ASN = asn, m_Identifier = identifier, m_AddPath = addpath, m_HoldTime = 90,
      m_RouteRefresh = routerefresh, MemPool = [],
      nb_handlers = \<lambda>_. \<lparr>HandlerEvent = None, HandlerUpdate = None\<rparr>\<rparr>"

primrec remove_loop :: "nat \<Rightarrow> nat list \<Rightarrow> nat list \<Rightarrow> nat list \<Rightarrow> nat list \<times> nat list" where
  "remove_loop n [] newlist pool = (newlist, pool)"
| "remove_loop n (x # xs) newlist pool =
     (if x \<noteq> n then remove_loop n xs (newlist @ [x]) pool
      else remove_loop n xs newlist (pool @ [n]))"

definition RemoveNeighbor :: "nat \<Rightarrow> Manager \<Rightarrow> Manager" where
  "RemoveNeighbor n m =
     (case remove_loop n (Neighbors m) [] (MemPool m) of (newlist, pool) \<Rightarrow>
        m\<lparr>Neighbors := newlist, MemPool := pool\<rparr>)"

definition AddNeighbor :: "nat \<Rightarrow> Manager \<Rightarrow> Manager" where
  "AddNeighbor n m = m\<lparr>Neighbors := Neighbors m @ [n]\<rparr>"

definition NewServer :: "(bytes \<times> nat) option \<Rightarrow> Manager \<Rightarrow> Manager \<times> bool" where
  "NewServer resolved m =
     (case resolved of
        None \<Rightarrow> (m, False)
      | Some (ip, port) \<Rightarrow> (m\<lparr>Servers := Servers m @ [\<lparr>srv_Addr = ip, srv_Port = port\<rparr>]\<rparr>, True))"

definition GetNeighbors :: "Manager \<Rightarrow> nat list" where
  "GetNeighbors m = map (\<lambda>i. Neighbors m ! i) [0..<length (Neighbors m)]"

definition ApplyUpdateHandlerToNeighbors :: "Manager \<Rightarrow> Manager" where
  "ApplyUpdateHandlerToNeighbors m =
     m\<lparr>nb_handlers := foldl (\<lambda>st n. st(n := (st n)\<lparr>HandlerUpdate := m_HandlerUpdate m\<rparr>))
       (nb_handlers m) (Neighbors m)\<rparr>"

definition SetEventHandler :: "nat option \<Rightarrow> Manager \<Rightarrow> Manager" where
  "SetEventHandler eh m =
     (let m = m\<lparr>m_HandlerEvent := eh\<rparr> in
      m\<lparr>nb_handlers := foldl (\<lambda>st n. st(n := (st n)\<lparr>HandlerEvent := eh\<rparr>)) (nb_handlers m) (Neighbors m)\<rparr>)"

text \<open>\<open>uh\<close> is the handler \<open>CreateDefaultUpdateHandler\<close> made; closing the old one stops its pool.\<close>

definition UseDefaultUpdateHandler :: "nat \<Rightarrow> Manager \<Rightarrow> Manager" where
  "UseDefaultUpdateHandler uh m =
     ApplyUpdateHandlerToNeighbors (m\<lparr>m_HandlerUpdate := Some uh\<rparr>)"

text \<open>The part of \<open>ProcessIncomingRequest\<close> that concerns the manager: the new neighbor \<open>n\<close> takes its
  handlers and is added.\<close>

definition accept_into :: "nat \<Rightarrow> Manager \<Rightarrow> Manager" where
  "accept_into n m =
     AddNeighbor n (m\<lparr>nb_handlers := (nb_handlers m)(n :=
       \<lparr>HandlerEvent = m_HandlerEvent m, HandlerUpdate = m_HandlerUpdate m\<rparr>)\<rparr>)"

lemma GetNeighbors_Neighbors [simp]: "GetNeighbors m = Neighbors m"
  by (simp add: GetNeighbors_def map_nth)

lemma remove_loop_value:
  "remove_loop n xs newlist pool =
    (newlist @ filter (\<lambda>x. x \<noteq> n) xs, pool @ replicate (count_list xs n) n)"
  by (induction xs arbitrary: newlist pool) (simp_all add: replicate_app_Cons_same)

lemma foldl_set_handlers:
  "foldl (\<lambda>st n. st(n := f (st n))) st0 ns = (\<lambda>n. if n \<in> set ns then (f ^^ count_list ns n) (st0 n) else st0 n)"
proof (induction ns rule: rev_induct)
  case Nil
  then show ?case by simp
next
  case (snoc x xs)
  then show ?case by (auto simp: fun_eq_iff count_list_0_iff)
qed

lemma handlers_uniform:
  assumes "\<And>h. f (f h) = f h"
  shows "foldl (\<lambda>st n. st(n := f (st n))) st0 ns n = (if n \<in> set ns then f (st0 n) else st0 n)"
proof -
  have "(f ^^ Suc k) h = f h" for k h
    by (induction k) (simp_all add: assms)
  then have "n \<in> set ns \<Longrightarrow> (f ^^ count_list ns n) (st0 n) = f (st0 n)"
    by (cases "count_list ns n") (auto simp: count_list_0_iff)
  then show ?thesis by (simp add: foldl_set_handlers)
qed

lemma SetEventHandler_handlers:
  "nb_handlers (SetEventHandler eh m) n =
    (if n \<in> set (Neighbors m) then (nb_handlers m n)\<lparr>HandlerEvent := eh\<rparr> else nb_handlers m n)"
  using handlers_uniform [of "\<lambda>h. h\<lparr>HandlerEvent := eh\<rparr>" "nb_handlers m" "Neighbors m" n]
  by (simp add: SetEventHandler_def Let_def)

lemma UseDefaultUpdateHandler_handlers:
  "nb_handlers (UseDefaultUpdateHandler uh m) n =
    (if n \<in> set (Neighbors m) then (nb_handlers m n)\<lparr>HandlerUpdate := Some uh\<rparr> else nb_handlers m n)"
  using handlers_uniform [of "\<lambda>h. h\<lparr>HandlerUpdate := Some uh\<rparr>" "nb_handlers m" "Neighbors m" n]
  by (simp add: UseDefaultUpdateHandler_def ApplyUpdateHandlerToNeighbors_def)

section \<open>The default update handler\<close>

record UpdateHandler =
  UpdateMsgCount :: "64 word"

datatype process_error = NullUpdate "bgp_error option" | UpdateError bgp_error

text \<open>
  \<open>Process\<close>: with an event handler set (\<open>eh\<close>), the decoded message is delivered to it, also when
  decoding stopped with an error. The result is the handler's state, the message delivered and the
  error. \<^verbatim>\<open>UpdateRib\<close>, called when the event handler agrees, has an empty body.
\<close>

definition Process ::
  "bool \<Rightarrow> bytes \<Rightarrow> Neighbor \<Rightarrow> UpdateHandler \<Rightarrow>
    (UpdateHandler \<times> BGPMessageUpdate option \<times> process_error option) go" where
  "Process eh msg n uh =
     (let uh = uh\<lparr>UpdateMsgCount := UpdateMsgCount uh + 1\<rparr> in do {
        (v, err) \<leftarrow> ParseUpdate msg (DecodeAddPath n) (Peer2Bytes n);
        (case v of
           None \<Rightarrow> Some (uh, None, Some (NullUpdate err))
         | Some v \<Rightarrow>
             let delivered = (if eh then Some v else None) in
             if err \<noteq> None then Some (uh, delivered, map_option UpdateError err)
             else Some (uh, delivered, None))
      })"

lemma Process_returns:
  "\<exists>v err. Process eh msg n uh = Some (uh\<lparr>UpdateMsgCount := UpdateMsgCount uh + 1\<rparr>, v, err) \<and>
    (\<forall>m. v = Some m \<longrightarrow> eh \<and> update_parsed (DecodeAddPath n) (Peer2Bytes n) m) \<and> (v = None \<and> eh \<longrightarrow> err \<noteq> None)"
proof -
  obtain m err where "ParseUpdate msg (DecodeAddPath n) (Peer2Bytes n) = Some (m, err)"
    "\<forall>m'. m = Some m' \<longrightarrow> update_parsed (DecodeAddPath n) (Peer2Bytes n) m'"
    using ParseUpdate_returns by blast
  then show ?thesis
    by (cases m; cases err) (auto simp: Process_def Let_def)
qed

lemma Process_Write:
  assumes "update_ok (DecodeAddPath n) (Peer2Bytes n) m" and "Update_Write m = Some bs"
  shows "Process True (drop 19 bs) n uh =
    Some (uh\<lparr>UpdateMsgCount := UpdateMsgCount uh + 1\<rparr>, Some (update_norm (Peer2Bytes n) m), None)"
  using ParseUpdate_Write [OF assms] by (simp add: Process_def)

section \<open>Properties\<close>

text \<open>
  Removing a neighbor removes every entry for it and nothing else, keeps the order of the
  others and puts the neighbor into the memory pool once per entry; after adding it again the list
  is the old one without it followed by it.
\<close>

theorem RemoveNeighbor_exact:
  "Neighbors (RemoveNeighbor n m) = filter (\<lambda>x. x \<noteq> n) (Neighbors m) \<and>
   MemPool (RemoveNeighbor n m) = MemPool m @ replicate (count_list (Neighbors m) n) n \<and>
   GetNeighbors (AddNeighbor n (RemoveNeighbor n m)) = filter (\<lambda>x. x \<noteq> n) (Neighbors m) @ [n]"
  by (simp add: RemoveNeighbor_def remove_loop_value AddNeighbor_def)

text \<open>
  Installing handlers reaches every neighbor of the manager and no other: setting the event
  handler and the default update handler gives each current neighbor both, and a neighbor accepted
  afterwards gets them too.
\<close>

theorem Handlers_installed:
  "(\<forall>x. nb_handlers (UseDefaultUpdateHandler uh (SetEventHandler eh m)) x =
      (if x \<in> set (Neighbors m) then \<lparr>HandlerEvent = eh, HandlerUpdate = Some uh\<rparr> else nb_handlers m x)) \<and>
   nb_handlers (accept_into n (UseDefaultUpdateHandler uh (SetEventHandler eh m))) n =
     \<lparr>HandlerEvent = eh, HandlerUpdate = Some uh\<rparr>"
  by (simp add: UseDefaultUpdateHandler_handlers SetEventHandler_handlers accept_into_def AddNeighbor_def) (simp add: SetEventHandler_def UseDefaultUpdateHandler_def ApplyUpdateHandlerToNeighbors_def Let_def)

text \<open>
  The update handler never panics: on any bytes it counts the message, delivers at most one
  message, only to an event handler and only with well-formed contents, and reports an error
  whenever the event handler gets nothing.
\<close>

theorem Process_safe:
  "\<exists>v err. Process eh msg n uh = Some (uh\<lparr>UpdateMsgCount := UpdateMsgCount uh + 1\<rparr>, v, err) \<and>
    (\<forall>m. v = Some m \<longrightarrow> eh \<and> update_parsed (DecodeAddPath n) (Peer2Bytes n) m) \<and> (v = None \<and> eh \<longrightarrow> err \<noteq> None)"
  by (rule Process_returns)

theorem Process_safe_witness:
  "\<exists>err. Process True [0] (NewNeighbor [10, 0, 0, 1] 179 [10, 0, 0, 2] 65001 False 90 True)
      \<lparr>UpdateMsgCount = 1\<rparr> = Some (\<lparr>UpdateMsgCount = 2\<rparr>, None, Some err)"
proof -
  let ?n = "NewNeighbor [10, 0, 0, 1] 179 [10, 0, 0, 2] 65001 False 90 True"
  have "ParseUpdate [0] (DecodeAddPath ?n) (Peer2Bytes ?n) = Some (None, Some (ErrUpdateSize 1))"
    by (simp add: ParseUpdate_def Let_def)
  then show ?thesis
    using Process_safe [of True "[0]" ?n "\<lparr>UpdateMsgCount = 1\<rparr>"] by (simp add: Process_def)
qed

end
