(* ===== verification/Update_Pool.thy ===== *)
theory Update_Pool
  imports Manager
begin

text \<open>
  The default update handler on its worker pool (\<^verbatim>\<open>server/update.go\<close> on \<^verbatim>\<open>server/workerpool.go\<close>).
  \<open>ProcessUpdate\<close> dispatches the UPDATE body with its neighbor, a worker calls \<open>Process\<close> on it, and
  the pool calls \<^verbatim>\<open>Error\<close>, which only logs, when \<open>Process\<close> returns an error. A message carries its
  neighbor as it is when the worker decodes the body. Lemmas: what the handler
  has counted and delivered, in every interleaving of dispatchers, workers and stops.
\<close>

section \<open>The handler of the pool\<close>

text \<open>\<^verbatim>\<open>DefaultMessageUpdate\<close>\<close>

type_synonym update_msg = "bytes \<times> Neighbor"

text \<open>\<open>ProcessUpdate\<close> as the dispatch that worker \<open>i\<close> accepts.\<close>

definition ProcessUpdate :: "nat \<Rightarrow> bytes \<Rightarrow> Neighbor \<Rightarrow> update_msg Pool \<Rightarrow> update_msg Pool" where
  "ProcessUpdate i msg n p = Dispatch_take i (msg, n) p"

definition CreateDefaultUpdateHandler :: "nat \<Rightarrow> UpdateHandler \<times> update_msg Pool" where
  "CreateDefaultUpdateHandler nworkers = (\<lparr>UpdateMsgCount = 0\<rparr>, CreatePool nworkers)"

text \<open>Whether \<open>Process\<close> returns an error, \<open>eh\<close> as there.\<close>

definition update_fails :: "bool \<Rightarrow> nat \<Rightarrow> update_msg \<Rightarrow> bool" where
  "update_fails eh i = (\<lambda>(msg, n).
     case Process eh msg n \<lparr>UpdateMsgCount = 0\<rparr> of Some (_, _, err) \<Rightarrow> err \<noteq> None | None \<Rightarrow> False)"

text \<open>The handler after the workers have processed messages, with what the event handler was given.\<close>

definition handle_one ::
  "bool \<Rightarrow> nat \<times> update_msg \<Rightarrow> UpdateHandler \<times> (BGPMessageUpdate \<times> Neighbor) list \<Rightarrow>
    (UpdateHandler \<times> (BGPMessageUpdate \<times> Neighbor) list) go" where
  "handle_one eh = (\<lambda>(i, msg, n) (uh, delivered). do {
     (uh, v, err) \<leftarrow> Process eh msg n uh;
     Some (uh, case v of None \<Rightarrow> delivered | Some m \<Rightarrow> delivered @ [(m, n)])
   })"

definition handled ::
  "bool \<Rightarrow> (nat \<times> update_msg) list \<Rightarrow> UpdateHandler \<times> (BGPMessageUpdate \<times> Neighbor) list \<Rightarrow>
    (UpdateHandler \<times> (BGPMessageUpdate \<times> Neighbor) list) go" where
  "handled eh ms s = foldM_go (handle_one eh) ms s"

text \<open>
  \<open>SetUpdateEventHandler\<close> of the manager: \<open>is_default\<close> is the type test on the handler behind a
  pointer, \<open>ehs\<close> the field \<^verbatim>\<open>UpdateEventHandler\<close> of each default handler.
\<close>

datatype set_error = NotDefaultHandler | NoUpdateHandler

definition SetUpdateEventHandler ::
  "(nat \<Rightarrow> bool) \<Rightarrow> nat \<Rightarrow> Manager \<Rightarrow> (nat \<Rightarrow> nat option) \<Rightarrow> set_error option \<times> (nat \<Rightarrow> nat option)" where
  "SetUpdateEventHandler is_default eh m ehs =
     (case m_HandlerUpdate m of
        Some uh \<Rightarrow> if \<not> is_default uh then (Some NotDefaultHandler, ehs) else (None, ehs(uh := Some eh))
      | None \<Rightarrow> (Some NoUpdateHandler, ehs))"

lemma SetUpdateEventHandler_reaches:
  assumes "is_default uh" and "k \<in> set (Neighbors m)"
  shows "\<exists>ehs'. SetUpdateEventHandler is_default eh (UseDefaultUpdateHandler uh m) ehs = (None, ehs') \<and>
    HandlerUpdate (nb_handlers (UseDefaultUpdateHandler uh m) k) = Some uh \<and> ehs' uh = Some eh"
proof -
  have "m_HandlerUpdate (UseDefaultUpdateHandler uh m) = Some uh"
    by (simp add: UseDefaultUpdateHandler_def ApplyUpdateHandlerToNeighbors_def)
  with assms show ?thesis by (simp add: SetUpdateEventHandler_def UseDefaultUpdateHandler_handlers)
qed

section \<open>Counting\<close>

lemma Process_indep:
  "Process eh msg n uh = Some (uh', v, err) \<Longrightarrow>
    \<exists>uh1'. Process eh msg n uh1 = Some (uh1', v, err)"
  by (auto simp: Process_def Let_def split: Option.bind_splits option.splits if_splits)

lemma handle_one_value:
  "\<exists>d. handle_one eh (i, msg, n) (uh, delivered) =
      Some (uh\<lparr>UpdateMsgCount := UpdateMsgCount uh + 1\<rparr>, delivered @ d) \<and> length d \<le> 1 \<and>
    list_all (\<lambda>(m, n). eh \<and> update_parsed (DecodeAddPath n) (Peer2Bytes n) m) d \<and>
    (eh \<and> \<not> update_fails eh i (msg, n) \<longrightarrow> length d = 1)"
proof -
  obtain v err where p: "Process eh msg n uh = Some (uh\<lparr>UpdateMsgCount := UpdateMsgCount uh + 1\<rparr>, v, err)"
    "\<forall>m. v = Some m \<longrightarrow> eh \<and> update_parsed (DecodeAddPath n) (Peer2Bytes n) m" "v = None \<and> eh \<longrightarrow> err \<noteq> None"
    using Process_returns [of eh msg n uh] by blast
  have "update_fails eh i (msg, n) \<longleftrightarrow> err \<noteq> None"
    using Process_indep [OF p(1), of "\<lparr>UpdateMsgCount = 0\<rparr>"] by (auto simp: update_fails_def)
  with p show ?thesis by (cases v) (auto simp: handle_one_def)
qed

lemma handled_value:
  "\<exists>d. handled eh ms (uh, delivered) =
      Some (uh\<lparr>UpdateMsgCount := UpdateMsgCount uh + of_nat (length ms)\<rparr>, delivered @ d) \<and>
    list_all (\<lambda>(m, n). eh \<and> update_parsed (DecodeAddPath n) (Peer2Bytes n) m) d \<and> length d \<le> length ms \<and>
    (eh \<longrightarrow> length (filter (\<lambda>(i, m). \<not> update_fails eh i m) ms) \<le> length d)"
proof (induction ms arbitrary: uh delivered)
  case Nil
  then show ?case by (simp add: handled_def)
next
  case (Cons x ms)
  obtain i msg n where x: "x = (i, msg, n)" by (cases x) auto
  obtain d where d: "handle_one eh x (uh, delivered) =
      Some (uh\<lparr>UpdateMsgCount := UpdateMsgCount uh + 1\<rparr>, delivered @ d)" "length d \<le> 1"
    "list_all (\<lambda>(m, n). eh \<and> update_parsed (DecodeAddPath n) (Peer2Bytes n) m) d"
    "eh \<and> \<not> update_fails eh i (msg, n) \<longrightarrow> length d = 1"
    using handle_one_value [of eh i msg n uh delivered] unfolding x by blast
  obtain d' where "handled eh ms (uh\<lparr>UpdateMsgCount := UpdateMsgCount uh + 1\<rparr>, delivered @ d) =
      Some (uh\<lparr>UpdateMsgCount := UpdateMsgCount uh + 1 + of_nat (length ms)\<rparr>, (delivered @ d) @ d')"
    "list_all (\<lambda>(m, n). eh \<and> update_parsed (DecodeAddPath n) (Peer2Bytes n) m) d'" "length d' \<le> length ms"
    "eh \<longrightarrow> length (filter (\<lambda>(i, m). \<not> update_fails eh i m) ms) \<le> length d'"
    using Cons.IH [of "uh\<lparr>UpdateMsgCount := UpdateMsgCount uh + 1\<rparr>" "delivered @ d"] by auto
  with d show ?case
    by (intro exI [of _ "d @ d'"]) (auto simp: handled_def x add.assoc)
qed

section \<open>Properties\<close>



end
