(* ===== verification/Speaker_System.thy ===== *)
theory Speaker_System
  imports Manager
begin

text \<open>
  The running speaker (\<^verbatim>\<open>server/server.go\<close>): one manager, the servers it has started and all
  neighbors, each with its goroutines. A step is a call of the manager's interface, a part of
  \<open>ProcessIncomingRequest\<close> or one iteration of one goroutine of one neighbor. Lemmas: the manager's
  list against the neighbors that exist, under every interleaving.
\<close>

section \<open>State and operations\<close>

text \<open>
  \<open>sys_nb\<close> holds the neighbors under their pointers, \<open>sys_adding\<close> those that \<open>ProcessIncomingRequest\<close>
  has started and not yet added, \<open>sys_running\<close> those whose goroutines run.
\<close>

record System =
  sys_manager :: Manager
  sys_nb :: "nat \<Rightarrow> Neighbor option"
  sys_adding :: "nat set"
  sys_listening :: "Server list"
  sys_running :: "nat set"

definition sys_init :: "u32 \<Rightarrow> bytes \<Rightarrow> bool \<Rightarrow> bool \<Rightarrow> System" where
  "sys_init asn identifier addpath routerefresh =
     \<lparr>sys_manager = NewManager asn identifier addpath routerefresh, sys_nb = \<lambda>_. None,
      sys_adding = {}, sys_listening = [], sys_running = {}\<rparr>"

text \<open>The user makes a neighbor and adds it to the manager.\<close>

definition new_neighbor :: "nat \<Rightarrow> Neighbor \<Rightarrow> System \<Rightarrow> System" where
  "new_neighbor k n s =
     s\<lparr>sys_nb := (sys_nb s)(k := Some n),
       sys_manager := AddNeighbor k ((sys_manager s)\<lparr>nb_handlers := (nb_handlers (sys_manager s))(k :=
         \<lparr>HandlerEvent = None, HandlerUpdate = None\<rparr>)\<rparr>)\<rparr>"

text \<open>\<open>Neighbor.Start\<close>\<close>

definition start_neighbor :: "nat \<Rightarrow> System \<Rightarrow> System" where
  "start_neighbor k s = s\<lparr>sys_running := insert k (sys_running s)\<rparr>"

definition StartServers :: "System \<Rightarrow> System" where
  "StartServers s = s\<lparr>sys_listening := sys_listening s @ Servers (sys_manager s)\<rparr>"

text \<open>\<open>Manager.Start\<close> up to its loop, which only waits.\<close>

definition ManagerStart :: "System \<Rightarrow> System" where
  "ManagerStart s = foldl (\<lambda>s k. start_neighbor k s) (StartServers s) (Neighbors (sys_manager s))"

text \<open>\<open>ProcessIncomingRequest\<close> up to \<open>n.Start()\<close>, then its last line.\<close>

definition accept_start :: "nat \<Rightarrow> bytes \<Rightarrow> nat \<Rightarrow> int \<Rightarrow> System \<Rightarrow> System" where
  "accept_start k addr port now s =
     (let m = sys_manager s;
          n = ProcessIncomingRequest addr port (m_Identifier m) (m_ASN m) (m_AddPath m) (m_HoldTime m)
            (m_RouteRefresh m) now
      in start_neighbor k (s\<lparr>sys_nb := (sys_nb s)(k := Some n),
           sys_manager := m\<lparr>nb_handlers := (nb_handlers m)(k :=
             \<lparr>HandlerEvent = m_HandlerEvent m, HandlerUpdate = m_HandlerUpdate m\<rparr>)\<rparr>,
           sys_adding := insert k (sys_adding s)\<rparr>))"

definition accept_add :: "nat \<Rightarrow> System \<Rightarrow> System" where
  "accept_add k s = s\<lparr>sys_manager := AddNeighbor k (sys_manager s), sys_adding := sys_adding s - {k}\<rparr>"

text \<open>
  One iteration of a goroutine of neighbor \<open>k\<close> that leaves it as \<open>n'\<close>. \<open>Disconnect\<close> calls
  \<open>RemoveNeighbor\<close> on an accepted neighbor, which the flag \<open>n_Removed\<close> records; it is cleared before
  the iteration.
\<close>

definition after_iteration :: "nat \<Rightarrow> Neighbor \<Rightarrow> System \<Rightarrow> System" where
  "after_iteration k n' s =
     s\<lparr>sys_nb := (sys_nb s)(k := Some n'),
       sys_manager := (if n_Removed n' then RemoveNeighbor k (sys_manager s) else sys_manager s)\<rparr>"

text \<open>\<open>handler\<close> gives the event handlers behind their pointers. With \<open>split\<close>, other steps may come
  between the two parts of \<open>ProcessIncomingRequest\<close>.\<close>

inductive sys_step :: "(nat \<Rightarrow> EventHandler) \<Rightarrow> bool \<Rightarrow> System \<Rightarrow> System \<Rightarrow> bool"
  for handler :: "nat \<Rightarrow> EventHandler" and split :: bool where
  sys_new: "sys_nb s k = None \<Longrightarrow> n = NewNeighbor addr port ident asn addpath holdtime rr \<Longrightarrow>
    sys_step handler split s (new_neighbor k n s)"
| sys_new_server: "NewServer resolved (sys_manager s) = (m, ok) \<Longrightarrow>
    sys_step handler split s (s\<lparr>sys_manager := m\<rparr>)"
| sys_event_handler: "sys_step handler split s (s\<lparr>sys_manager := SetEventHandler eh (sys_manager s)\<rparr>)"
| sys_update_handler: "sys_step handler split s (s\<lparr>sys_manager := UseDefaultUpdateHandler uh (sys_manager s)\<rparr>)"
| sys_start: "sys_step handler split s (ManagerStart s)"
| sys_start_neighbor: "sys_nb s k \<noteq> None \<Longrightarrow> sys_step handler split s (start_neighbor k s)"
| sys_accept: "sys_listening s \<noteq> [] \<Longrightarrow> sys_nb s k = None \<Longrightarrow>
    sys_step handler split s (accept_add k (accept_start k addr port now s))"
| sys_accept_start: "split \<Longrightarrow> sys_listening s \<noteq> [] \<Longrightarrow> sys_nb s k = None \<Longrightarrow>
    sys_step handler split s (accept_start k addr port now s)"
| sys_accept_add: "k \<in> sys_adding s \<Longrightarrow> sys_step handler split s (accept_add k s)"
| sys_run: "sys_nb s k = Some n \<Longrightarrow> k \<in> sys_running s \<Longrightarrow>
    nb_step (map_option handler (HandlerEvent (nb_handlers (sys_manager s) k)))
      (HandlerUpdate (nb_handlers (sys_manager s) k) \<noteq> None) (n\<lparr>n_Removed := False\<rparr>) n' \<Longrightarrow>
    sys_step handler split s (after_iteration k n' s)"

inductive_cases sys_stepE: "sys_step handler split s s'"

abbreviation sys_reach :: "(nat \<Rightarrow> EventHandler) \<Rightarrow> bool \<Rightarrow> System \<Rightarrow> System \<Rightarrow> bool" where
  "sys_reach handler split \<equiv> rtranclp (sys_step handler split)"

section \<open>Invariants of transition systems\<close>

locale step_invariant =
  fixes step :: "'s \<Rightarrow> 's \<Rightarrow> bool" and inv :: "'s \<Rightarrow> bool"
  assumes inv_step: "step s s' \<Longrightarrow> inv s \<Longrightarrow> inv s'"
begin

lemma inv_reach: "rtranclp step s s' \<Longrightarrow> inv s \<Longrightarrow> inv s'"
  by (induction rule: rtranclp_induct) (auto intro: inv_step)

end

section \<open>What an iteration does to an accepted neighbor\<close>

text \<open>An accepted neighbor never reconnects, and disconnecting removes it.\<close>

definition accepted :: "Neighbor \<Rightarrow> bool" where
  "accepted n \<longleftrightarrow> n_Managed n \<and> RemoveOnDisconnect n \<and> Passive n"

definition closes :: "Neighbor \<Rightarrow> Neighbor \<Rightarrow> bool" where
  "closes n n' \<longleftrightarrow> n_Managed n' = n_Managed n \<and> (\<not> n_Managed n \<longrightarrow> n_Removed n' = n_Removed n) \<and>
     (accepted n \<longrightarrow> accepted n' \<and>
       (Connected n' = Connected n \<and> n_Removed n' = n_Removed n \<or> \<not> Connected n' \<and> n_Removed n'))"

lemma closes_refl [simp]: "closes n n"
  by (simp add: closes_def)

lemma closes_trans: "closes a b \<Longrightarrow> closes b c \<Longrightarrow> closes a c"
  unfolding closes_def by (cases "accepted a"; cases "n_Managed a"; simp; elim conjE disjE; simp)

lemma closes_same:
  assumes "n_Managed n' = n_Managed n" "RemoveOnDisconnect n' = RemoveOnDisconnect n" "Passive n' = Passive n"
    "Connected n' = Connected n" "n_Removed n' = n_Removed n"
  shows "closes n n'"
  unfolding closes_def accepted_def assms by blast

lemma Disconnect_managed:
  "n_Managed (Disconnect env h n) = n_Managed n" "RemoveOnDisconnect (Disconnect env h n) = RemoveOnDisconnect n"
  "n_Removed (Disconnect env h n) \<longleftrightarrow> n_Removed n \<or> RemoveOnDisconnect n \<and> n_Managed n"
  by (auto simp: Disconnect_def UpdateState_def log_event_def Let_def)

lemma closes_Disconnect: "closes n m \<Longrightarrow> closes n (Disconnect env h m)"
  by (cases "n_Managed n") (simp_all add: closes_def accepted_def Disconnect_managed)

lemma evolve_packet_closes:
  assumes "evolve_packet env h pkt n = Some n1"
  shows "closes n n1"
proof -
  have update: "closes m (UpdateState s t m)" "closes m (log_event ev m)" for m s t ev
    by (auto intro: closes_same simp: UpdateState_def log_event_def)
  from assms show ?thesis
  proof (cases "(env, h, pkt, n)" rule: evolve_packet.cases)
    case (1 env' h' p n')
    with assms obtain m where m: "UpdateFromOpen p (before_open p n) = Some m"
      "closes (m\<lparr>n_State := (n_State m)\<lparr>OpenReceived := True\<rparr>\<rparr>) n1"
      by (auto simp: evolve_open Let_def update closes_Disconnect simp del: evolve_packet.simps
        split: Option.bind_splits option.splits if_splits)
    have "closes n (m\<lparr>n_State := (n_State m)\<lparr>OpenReceived := True\<rparr>\<rparr>)"
      by (rule closes_same) (simp_all add: open_frame_simps [OF UpdateFromOpen_frame [OF m(1)]] before_open_def Let_def)
    with m(2) show ?thesis by (blast intro: closes_trans)
  next
    case (4 env' h' m n')
    with assms show ?thesis by (auto simp: Let_def update closes_Disconnect)
  qed (auto simp: update)
qed

lemma evolve_fsm_frame:
  "n_Managed (evolve_fsm env n) = n_Managed n \<and> RemoveOnDisconnect (evolve_fsm env n) = RemoveOnDisconnect n \<and>
   Passive (evolve_fsm env n) = Passive n \<and> n_Removed (evolve_fsm env n) = n_Removed n"
  by (cases "st n") (simp_all add: evolve_fsm_def Connect_def UpdateState_def send_keepalive_def Let_def)

lemma evolve_fsm_closes: "closes n (evolve_fsm env n)"
  using evolve_fsm_frame [of env n] evolve_fsm_effect [of env n]
  by (auto simp: closes_def accepted_def split: fsm.splits if_splits)

lemma EvolveState_closes:
  assumes "EvolveState env h pkt n = Some n'"
  shows "closes n n'"
proof -
  obtain n1 where n1: "evolve_packet env h pkt n = Some n1"
    "n' = check_hold env h (evolve_fsm env
       (if pkt \<noteq> None then n1\<lparr>LocalLastKeepAliveRecv := env_clock env 1\<rparr> else n1))"
    using assms by (rule EvolveState_stages)
  have "closes n (if pkt \<noteq> None then n1\<lparr>LocalLastKeepAliveRecv := env_clock env 1\<rparr> else n1)"
    using closes_trans [OF evolve_packet_closes [OF n1(1)] closes_same] by auto
  then have "closes n (evolve_fsm env (if pkt \<noteq> None then n1\<lparr>LocalLastKeepAliveRecv := env_clock env 1\<rparr> else n1))"
    using closes_trans evolve_fsm_closes by blast
  then show ?thesis
    unfolding n1(2) using check_hold_cases closes_Disconnect by metis
qed

lemma dispatch_closes: "receive_dispatch env h uh t msg n = Some n' \<Longrightarrow> closes n n'"
  by (auto simp: receive_dispatch_def Let_def log_event_def intro!: closes_same closes_Disconnect
      split: if_splits option.splits prod.splits Option.bind_splits)

lemma receive_closes: "receive_iter env h uh s n = Some (n', s') \<Longrightarrow> closes n n'"
  using dispatch_closes
  by (auto simp: receive_iter_def intro!: closes_Disconnect split: if_splits Option.bind_splits)

lemma sender_closes:
  assumes "sender_iter env h ok n = Some (buf, n')"
  shows "closes n n'"
  using assms
  by (auto simp: sender_iter_def Let_def intro!: closes_same closes_Disconnect
    split: list.splits Option.bind_splits if_splits)

lemma nb_step_closes:
  assumes "nb_step h uh n n'"
  shows "closes n n'"
  using assms
proof (cases rule: nb_step.cases)
  case (life_packet p ps env)
  have "closes n (n\<lparr>n_update := ps\<rparr>)" by (rule closes_same) simp_all
  with life_packet show ?thesis using EvolveState_closes closes_trans by blast
qed (auto intro: EvolveState_closes receive_closes sender_closes)

lemma nb_step_nb_inv:
  assumes "nb_step h uh n n'" and "nb_inv n"
  shows "nb_inv n'"
proof -
  have quiet: "nb_inv n'" if "quiet_frame n n' \<or> (\<exists>env m. n' = Disconnect env h m)"
    using that assms(2) by (auto simp: quiet_frame_def nb_inv_def)
  from assms(1) show ?thesis
  proof (cases rule: nb_step.cases)
    case (life_packet p ps env)
    moreover have "nb_inv (n\<lparr>n_update := ps\<rparr>)" using assms(2) by (simp add: nb_inv_def)
    ultimately show ?thesis using EvolveState_effect by blast
  next
    case (receive env s s')
    from receive_iter_cases [OF this(2)] show ?thesis by (intro quiet) blast
  qed (use assms(2) EvolveState_effect sender_iter_cases quiet in blast)+
qed

section \<open>The manager's list\<close>

definition placed :: "bool \<Rightarrow> bool \<Rightarrow> Neighbor \<Rightarrow> bool" where
  "placed listed adding n \<longleftrightarrow> nb_inv n \<and> (adding \<longrightarrow> n_Managed n) \<and>
     (if n_Managed n then accepted n \<and> (Connected n \<longrightarrow> listed \<or> adding) else listed)"

definition sys_inv :: "System \<Rightarrow> bool" where
  "sys_inv s \<longleftrightarrow> distinct (Neighbors (sys_manager s)) \<and>
     (\<forall>k \<in> set (Neighbors (sys_manager s)). sys_nb s k \<noteq> None \<and> k \<notin> sys_adding s) \<and>
     (\<forall>k \<in> sys_adding s. sys_nb s k \<noteq> None) \<and>
     (\<forall>k n. sys_nb s k = Some n \<longrightarrow>
       placed (k \<in> set (Neighbors (sys_manager s))) (k \<in> sys_adding s) n)"

definition all_listed :: "System \<Rightarrow> bool" where
  "all_listed s \<longleftrightarrow> sys_adding s = {} \<and>
     (\<forall>k n. sys_nb s k = Some n \<and> n_Managed n \<longrightarrow>
       (k \<in> set (Neighbors (sys_manager s)) \<longleftrightarrow> Connected n) \<and>
       (k \<in> set (Neighbors (sys_manager s)) \<longrightarrow> nb_handlers (sys_manager s) k =
         \<lparr>HandlerEvent = m_HandlerEvent (sys_manager s), HandlerUpdate = m_HandlerUpdate (sys_manager s)\<rparr>))"

abbreviation sys_listed :: "System \<Rightarrow> bool" where
  "sys_listed s \<equiv> sys_inv s \<and> all_listed s"

lemma ManagerStart_value:
  "ManagerStart s = s\<lparr>sys_listening := sys_listening s @ Servers (sys_manager s),
     sys_running := sys_running s \<union> set (Neighbors (sys_manager s))\<rparr>"
proof -
  have "foldl (\<lambda>s k. start_neighbor k s) s ks = s\<lparr>sys_running := sys_running s \<union> set ks\<rparr>" for s ks
    by (induction ks arbitrary: s) (simp_all add: start_neighbor_def)
  then show ?thesis by (simp add: ManagerStart_def StartServers_def)
qed

lemma manager_calls [simp]:
  "Neighbors (SetEventHandler eh m) = Neighbors m" "Neighbors (UseDefaultUpdateHandler uh m) = Neighbors m"
  "m_HandlerEvent (SetEventHandler eh m) = eh" "m_HandlerUpdate (SetEventHandler eh m) = m_HandlerUpdate m"
  "m_HandlerEvent (UseDefaultUpdateHandler uh m) = m_HandlerEvent m"
  "m_HandlerUpdate (UseDefaultUpdateHandler uh m) = Some uh"
  "Neighbors (AddNeighbor k m) = Neighbors m @ [k]" "nb_handlers (AddNeighbor k m) = nb_handlers m"
  "m_HandlerEvent (AddNeighbor k m) = m_HandlerEvent m" "m_HandlerUpdate (AddNeighbor k m) = m_HandlerUpdate m"
  "Neighbors (RemoveNeighbor k m) = filter (\<lambda>x. x \<noteq> k) (Neighbors m)"
  "nb_handlers (RemoveNeighbor k m) = nb_handlers m"
  "m_HandlerEvent (RemoveNeighbor k m) = m_HandlerEvent m" "m_HandlerUpdate (RemoveNeighbor k m) = m_HandlerUpdate m"
  by (simp_all add: SetEventHandler_def UseDefaultUpdateHandler_def ApplyUpdateHandlerToNeighbors_def Let_def
    AddNeighbor_def RemoveNeighbor_def remove_loop_value)

lemma NewServer_keeps:
  "NewServer resolved m = (m', ok) \<Longrightarrow> Neighbors m' = Neighbors m \<and> nb_handlers m' = nb_handlers m \<and>
     m_HandlerEvent m' = m_HandlerEvent m \<and> m_HandlerUpdate m' = m_HandlerUpdate m"
  by (auto simp: NewServer_def split: option.splits)

lemma new_neighbor_values:
  "nb_inv (NewNeighbor addr port ident asn addpath holdtime rr)"
  "\<not> n_Managed (NewNeighbor addr port ident asn addpath holdtime rr)"
  "nb_inv (ProcessIncomingRequest addr port ident asn addpath holdtime rr now)"
  "accepted (ProcessIncomingRequest addr port ident asn addpath holdtime rr now)"
  "n_Managed (ProcessIncomingRequest addr port ident asn addpath holdtime rr now)"
  "Connected (ProcessIncomingRequest addr port ident asn addpath holdtime rr now)"
  by (simp_all add: nb_inv_def accepted_def NewNeighbor_def ProcessIncomingRequest_def NewNeighborFromConn_def
      Let_def UpdateState_def)

text \<open>An iteration of an existing neighbor.\<close>

lemma run_values:
  assumes "nb_step h uh (n\<lparr>n_Removed := False\<rparr>) n'" and "nb_inv n"
  shows "nb_inv n'" "n_Managed n' = n_Managed n" "\<not> n_Managed n \<Longrightarrow> \<not> n_Removed n'"
    "accepted n \<Longrightarrow> accepted n' \<and> (Connected n' = Connected n \<and> \<not> n_Removed n' \<or> \<not> Connected n' \<and> n_Removed n')"
  using nb_step_closes [OF assms(1)] nb_step_nb_inv [OF assms(1)] assms(2)
  by (auto simp: closes_def accepted_def nb_inv_def)


lemma sys_fresh:
  "sys_inv s \<Longrightarrow> sys_nb s k = None \<Longrightarrow> k \<notin> set (Neighbors (sys_manager s)) \<and> k \<notin> sys_adding s"
  unfolding sys_inv_def by blast

lemma placed_new:
  "placed True False (NewNeighbor addr port ident asn addpath holdtime rr)"
  "placed True False (ProcessIncomingRequest addr port ident asn addpath holdtime rr now)"
  "placed False True (ProcessIncomingRequest addr port ident asn addpath holdtime rr now)"
  by (simp_all add: placed_def new_neighbor_values)

lemma placed_added: "placed False True n \<Longrightarrow> placed True False n"
  by (auto simp: placed_def split: if_splits)

lemma placed_run:
  assumes "nb_step h uh (n\<lparr>n_Removed := False\<rparr>) n'" and "placed listed adding n"
  shows "placed (listed \<and> \<not> n_Removed n') adding n'"
  using run_values [OF assms(1)] assms(2) by (cases "n_Managed n") (auto simp: placed_def)

lemma sys_inv_step:
  assumes "sys_step handler split s s'" and "sys_inv s"
  shows "sys_inv s'"
  using assms(1)
proof (cases rule: sys_step.cases)
  case (sys_new k n addr port ident asn addpath holdtime rr)
  then show ?thesis
    using assms(2) sys_fresh [OF assms(2)] by (auto simp: sys_inv_def new_neighbor_def placed_new)
next
  case (sys_new_server resolved m ok)
  then show ?thesis using assms(2) NewServer_keeps [OF sys_new_server(2)] by (simp add: sys_inv_def)
next
  case (sys_accept k addr port now)
  then show ?thesis
    using assms(2) sys_fresh [OF assms(2)]
    by (auto simp: sys_inv_def accept_add_def accept_start_def start_neighbor_def Let_def placed_new)
next
  case (sys_accept_start k addr port now)
  then show ?thesis
    using assms(2) sys_fresh [OF assms(2)]
    by (auto simp: sys_inv_def accept_start_def start_neighbor_def Let_def placed_new)
next
  case (sys_accept_add k)
  moreover have "k \<notin> set (Neighbors (sys_manager s))" using sys_accept_add(2) assms(2) by (auto simp: sys_inv_def)
  moreover have "placed (ka = k \<or> ka \<in> set (Neighbors (sys_manager s))) (ka \<in> sys_adding s \<and> ka \<noteq> k) n"
    if "sys_nb s ka = Some n" for ka n
  proof -
    have "placed (ka \<in> set (Neighbors (sys_manager s))) (ka \<in> sys_adding s) n"
      using assms(2) that by (simp add: sys_inv_def)
    then show ?thesis
      using calculation sys_accept_add(2) by (cases "ka = k") (simp_all add: placed_added)
  qed
  ultimately show ?thesis
    using assms(2) by (auto simp: sys_inv_def accept_add_def)
next
  case (sys_run k n n')
  then have "placed (k \<in> set (Neighbors (sys_manager s)) \<and> \<not> n_Removed n') (k \<in> sys_adding s) n'"
    using placed_run [OF sys_run(4)] assms(2) by (auto simp: sys_inv_def)
  with sys_run(1,2) assms(2) show ?thesis
    by (auto simp: sys_inv_def after_iteration_def)
qed (use assms(2) in \<open>simp_all add: sys_inv_def ManagerStart_value start_neighbor_def\<close>)

interpretation speaker: step_invariant "sys_step handler split" sys_inv for handler split
  by unfold_locales (rule sys_inv_step)


text \<open>When no step comes between the two parts of \<open>ProcessIncomingRequest\<close>.\<close>

lemma handlers_kept:
  assumes "nb_handlers m k = \<lparr>HandlerEvent = m_HandlerEvent m, HandlerUpdate = m_HandlerUpdate m\<rparr>"
    and "k \<in> set (Neighbors m)"
  shows "nb_handlers (SetEventHandler eh m) k = \<lparr>HandlerEvent = eh, HandlerUpdate = m_HandlerUpdate m\<rparr>"
    "nb_handlers (UseDefaultUpdateHandler uh m) k = \<lparr>HandlerEvent = m_HandlerEvent m, HandlerUpdate = Some uh\<rparr>"
  using assms by (simp_all add: SetEventHandler_handlers UseDefaultUpdateHandler_handlers)

lemma sys_listed_step:
  assumes "sys_step handler False s s'" and "sys_listed s"
  shows "sys_listed s'"
proof -
  from assms(2) have inv: "sys_inv s" and all: "all_listed s" by simp_all
  note fresh = sys_fresh [OF inv]
  from assms(1) have "all_listed s'"
  proof (cases rule: sys_step.cases)
    case (sys_new k n addr port ident asn addpath holdtime rr)
    with all fresh show ?thesis
      by (auto simp: all_listed_def new_neighbor_def new_neighbor_values AddNeighbor_def)
  next
    case (sys_new_server resolved m ok)
    with all NewServer_keeps [OF sys_new_server(2)] show ?thesis by (auto simp: all_listed_def)
  next
    case (sys_event_handler eh)
    with all show ?thesis by (auto simp: all_listed_def handlers_kept)
  next
    case (sys_update_handler uh)
    with all show ?thesis by (auto simp: all_listed_def handlers_kept)
  next
    case (sys_accept k addr port now)
    with all fresh show ?thesis
      by (auto simp: all_listed_def accept_add_def accept_start_def start_neighbor_def Let_def
          new_neighbor_values AddNeighbor_def)
  next
    case (sys_run k n n')
    from inv sys_run(2) have p: "placed (k \<in> set (Neighbors (sys_manager s))) (k \<in> sys_adding s) n"
      by (simp add: sys_inv_def)
    then have "n_Managed n' = n_Managed n"
      "n_Managed n \<Longrightarrow> Connected n' = Connected n \<and> \<not> n_Removed n' \<or> \<not> Connected n' \<and> n_Removed n'"
      using run_values [OF sys_run(4)] by (auto simp: placed_def split: if_splits)
    with all sys_run(1,2) show ?thesis
      by (auto simp: all_listed_def after_iteration_def)
  qed (use all in \<open>auto simp: all_listed_def ManagerStart_value start_neighbor_def\<close>)
  with sys_inv_step [OF assms(1) inv] show ?thesis by simp
qed

interpretation atomic_speaker: step_invariant "sys_step handler False" sys_listed for handler
  by unfold_locales (rule sys_listed_step)


section \<open>An accepted neighbor that stays\<close>

text \<open>A neighbor that disconnected before it was added: nothing is left to do for it.\<close>

definition leaked :: "nat \<Rightarrow> System \<Rightarrow> bool" where
  "leaked k s \<longleftrightarrow> k \<in> set (Neighbors (sys_manager s)) \<and>
     (\<exists>n. sys_nb s k = Some n \<and> \<not> Connected n \<and> st n = STATE_IDLE \<and> Passive n \<and>
       n_update n = [] \<and> OutQueue n = [])"

lemma idle_step:
  assumes "nb_step h uh n n'" and "\<not> Connected n" and "st n = STATE_IDLE" and "Passive n"
    and "n_update n = []" and "OutQueue n = []"
  shows "n' = n"
  using assms(1)
proof (cases rule: nb_step.cases)
  case (life_tick env)
  with assms(3,4) show ?thesis by (simp add: EvolveState_def evolve_fsm_def check_hold_def)
qed (use assms in simp_all)

lemma leaked_step:
  assumes "sys_step handler split s s'" and "leaked k s"
  shows "leaked k s'"
  using assms(1)
proof (cases rule: sys_step.cases)
  case (sys_new_server resolved m ok)
  then show ?thesis using assms(2) NewServer_keeps [OF sys_new_server(2)] by (simp add: leaked_def)
next
  case (sys_run j n n')
  show ?thesis
  proof (cases "j = k")
    case True
    with assms(2) sys_run(2) have "n' = n\<lparr>n_Removed := False\<rparr>"
      by (intro idle_step [OF sys_run(4)]) (auto simp: leaked_def)
    with True assms(2) sys_run(1,2) show ?thesis by (auto simp: leaked_def after_iteration_def)
  next
    case False
    with assms(2) sys_run(1) show ?thesis by (auto simp: leaked_def after_iteration_def)
  qed
qed (use assms(2) in \<open>auto simp: leaked_def new_neighbor_def ManagerStart_value start_neighbor_def
  accept_add_def accept_start_def Let_def AddNeighbor_def\<close>)

interpretation leak: step_invariant "sys_step handler split" "leaked k" for handler split k
  by unfold_locales (rule leaked_step)

text \<open>A peer that closes its connection at once.\<close>

lemma closed_at_once:
  assumes "Connected n"
  shows "nb_step h uh n (Disconnect env h n)"
proof (rule nb_step.receive [OF assms])
  show "receive_iter env h uh ([], [(0, True)]) n = Some (Disconnect env h n, ([], []))"
    by (simp add: receive_iter_def readFromSocket_def)
qed

section \<open>Properties\<close>


text \<open>
  C36: A neighbor can stay in the manager's list for ever although its connection is closed:
  \<open>ProcessIncomingRequest\<close> starts the neighbor before it adds it, so when the peer closes at once the
  removal comes before the addition; from then on no goroutine of it does anything and no step
  of the speaker removes it.
\<close>

theorem Accepted_neighbor_leaks:
  assumes "sys_listening s \<noteq> []" and "sys_nb s k = None"
  shows "\<exists>s1. sys_reach handler True s s1 \<and>
    (\<forall>s2. sys_reach handler True s1 s2 \<longrightarrow> k \<in> set (Neighbors (sys_manager s2)) \<and>
      (\<exists>n. sys_nb s2 k = Some n \<and> \<not> Connected n \<and> CurState (n_State n) = STATE_IDLE))"
proof -
  let ?a = "accept_start k [] 0 0 s"
  let ?m = "sys_manager s"
  let ?n = "ProcessIncomingRequest [] 0 (m_Identifier ?m) (m_ASN ?m) (m_AddPath ?m) (m_HoldTime ?m) (m_RouteRefresh ?m) 0"
  let ?h = "map_option handler (HandlerEvent (nb_handlers (sys_manager ?a) k))"
  let ?d = "Disconnect (sample_env 0) ?h (?n\<lparr>n_Removed := False\<rparr>)"
  let ?b = "after_iteration k ?d ?a"
  have a: "sys_nb ?a k = Some ?n" "k \<in> sys_running ?a" "k \<in> sys_adding ?a"
    by (simp_all add: accept_start_def Let_def start_neighbor_def)
  have "sys_step handler True s ?a" using assms by (intro sys_accept_start) simp_all
  moreover have "sys_step handler True ?a ?b"
    by (rule sys_run [OF a(1,2)]) (rule closed_at_once, simp add: new_neighbor_values)
  moreover have "sys_step handler True ?b (accept_add k ?b)"
    using a(3) by (intro sys_accept_add) (simp add: after_iteration_def)
  ultimately have r: "sys_reach handler True s (accept_add k ?b)" by auto
  have "leaked k (accept_add k ?b)"
    by (simp add: leaked_def accept_add_def after_iteration_def ProcessIncomingRequest_def
      NewNeighborFromConn_def NewNeighbor_def Let_def UpdateState_def)
  then have "leaked k s2" if "sys_reach handler True (accept_add k ?b) s2" for s2
    using leak.inv_reach [OF that] by simp
  with r show ?thesis unfolding leaked_def by blast
qed


text \<open>An event handler that agrees to everything, and a speaker that listens on one address.\<close>

definition sample_handler :: "nat \<Rightarrow> EventHandler" where
  "sample_handler = (\<lambda>_. \<lparr>he_NewNeighbor = \<lambda>_ _. True, he_ProcessReceived = \<lambda>_ _. (True, False)\<rparr>)"

definition sample_speaker :: System where
  "sample_speaker = ManagerStart ((sys_init 65001 [10, 0, 0, 1] False False)
     \<lparr>sys_manager := fst (NewServer (Some ([0, 0, 0, 0], 179)) (NewManager 65001 [10, 0, 0, 1] False False))\<rparr>)"

lemma sample_speaker_reach: "sys_reach handler split (sys_init 65001 [10, 0, 0, 1] False False) sample_speaker"
proof -
  let ?i = "sys_init 65001 [10, 0, 0, 1] False False"
  have "sys_step handler split ?i (?i\<lparr>sys_manager := fst (NewServer (Some ([0, 0, 0, 0], 179)) (sys_manager ?i))\<rparr>)"
    by (rule sys_new_server [where ok = True and resolved = "Some ([0, 0, 0, 0], 179)"]) (simp add: NewServer_def)
  moreover have "sys_step handler split (?i\<lparr>sys_manager := fst (NewServer (Some ([0, 0, 0, 0], 179)) (sys_manager ?i))\<rparr>)
      sample_speaker"
    unfolding sample_speaker_def by (simp add: sys_init_def sys_start)
  ultimately show ?thesis by auto
qed

lemma sample_speaker_listens: "sys_listening sample_speaker \<noteq> []" "sys_nb sample_speaker k = None"
  by (simp_all add: sample_speaker_def ManagerStart_value NewServer_def NewManager_def sys_init_def)


theorem Accepted_neighbor_leaks_witness:
  "\<exists>s1. sys_reach sample_handler True sample_speaker s1 \<and> 7 \<in> set (Neighbors (sys_manager s1))"
  using Accepted_neighbor_leaks [of sample_speaker 7 sample_handler] sample_speaker_listens
  by (meson rtranclp.rtrancl_refl)

end
