(* ===== verification/Mrt_Reader.thy ===== *)
theory Mrt_Reader
  imports Bgp_Packet
begin

text \<open>
  Reading and writing of MRT fields: \<open>byteReader\<close> of \<^verbatim>\<open>mrt/reader.go\<close>, \<^verbatim>\<open>io.ReadFull\<close> and the
  common header of \<^verbatim>\<open>mrt/mrt.go\<close>. A reader that has run past its buffer keeps an error and
  answers zeros from then on. Lemmas: a reader in front of a written field returns the field and
  stands behind it (\<open>ahead pre rest\<close> is the reader that has consumed \<open>pre\<close> and not failed);
  the reader refines a stream that is consumed from the front; \<open>reader_codec\<close> is the contract of
  an item that is read back, from which counted lists of items are read back.
\<close>

section \<open>The reader\<close>

record byteReader =
  r_b :: bytes
  r_pos :: nat
  r_err :: bool

definition newByteReader :: "bytes \<Rightarrow> byteReader" where
  "newByteReader b = \<lparr>r_b = b, r_pos = 0, r_err = False\<rparr>"

definition Reader_Len :: "byteReader \<Rightarrow> nat" where
  "Reader_Len r = length (r_b r) - r_pos r"

definition Reader_Ok :: "byteReader \<Rightarrow> bool" where
  "Reader_Ok r = (\<not> r_err r)"

definition Remaining :: "byteReader \<Rightarrow> bytes go" where
  "Remaining r = subslice (r_b r) (r_pos r) (length (r_b r))"

definition ReadUint8 :: "byteReader \<Rightarrow> (byte \<times> byteReader) go" where
  "ReadUint8 r =
     (if r_err r then Some (0, r)
      else if r_pos r + 1 > length (r_b r) then Some (0, r\<lparr>r_err := True\<rparr>)
      else do {
        v \<leftarrow> idx (r_b r) (r_pos r);
        Some (v, r\<lparr>r_pos := r_pos r + 1\<rparr>)
      })"

text \<open>\<^verbatim>\<open>binary.BigEndian.Uint16(b)\<close> and \<^verbatim>\<open>Uint32\<close> read the first bytes of \<open>b\<close>.\<close>

definition ReadUint16 :: "byteReader \<Rightarrow> (u16 \<times> byteReader) go" where
  "ReadUint16 r =
     (if r_err r then Some (0, r)
      else if r_pos r + 2 > length (r_b r) then Some (0, r\<lparr>r_err := True\<rparr>)
      else do {
        v \<leftarrow> get16 (r_b r) (r_pos r);
        Some (v, r\<lparr>r_pos := r_pos r + 2\<rparr>)
      })"

definition ReadUint32 :: "byteReader \<Rightarrow> (u32 \<times> byteReader) go" where
  "ReadUint32 r =
     (if r_err r then Some (0, r)
      else if r_pos r + 4 > length (r_b r) then Some (0, r\<lparr>r_err := True\<rparr>)
      else do {
        v \<leftarrow> get32 (r_b r) (r_pos r);
        Some (v, r\<lparr>r_pos := r_pos r + 4\<rparr>)
      })"

definition ReadBytes :: "nat \<Rightarrow> byteReader \<Rightarrow> (bytes \<times> byteReader) go" where
  "ReadBytes n r =
     (let v = replicate n 0 in
      if r_err r then Some (v, r)
      else if r_pos r + n > length (r_b r) then Some (v, r\<lparr>r_err := True\<rparr>)
      else do {
        x \<leftarrow> subslice (r_b r) (r_pos r) (r_pos r + n);
        Some (go_copy v x, r\<lparr>r_pos := r_pos r + n\<rparr>)
      })"

text \<open>\<^verbatim>\<open>io.ReadFull(buf, b)\<close> with \<open>n\<close> the length of \<open>b\<close>: all \<open>n\<close> bytes or an error.\<close>

datatype io_error = EOF | ErrUnexpectedEOF

definition ReadFull :: "nat \<Rightarrow> bytes \<Rightarrow> (io_error + bytes) \<times> bytes" where
  "ReadFull n s =
     (if n \<le> length s then (Inr (take n s), drop n s)
      else (Inl (if s = [] then EOF else ErrUnexpectedEOF), []))"

section \<open>The common header\<close>

definition WriteCommonHeader :: "int \<Rightarrow> u16 \<Rightarrow> u16 \<Rightarrow> u32 \<Rightarrow> bytes" where
  "WriteCommonHeader timestamp mrttype subtype len =
     be32 (word_of_int timestamp) @ be16 mrttype @ be16 subtype @ be32 len"

section \<open>Reading what was written\<close>

definition ahead :: "bytes \<Rightarrow> bytes \<Rightarrow> byteReader" where
  "ahead pre rest = \<lparr>r_b = pre @ rest, r_pos = length pre, r_err = False\<rparr>"

definition failed_at :: "bytes \<Rightarrow> bytes \<Rightarrow> byteReader" where
  "failed_at pre rest = \<lparr>r_b = pre @ rest, r_pos = length pre, r_err = True\<rparr>"

lemma newByteReader_ahead: "newByteReader b = ahead [] b"
  by (simp add: newByteReader_def ahead_def)

named_theorems read_back \<open>reading a field that was written\<close>

lemma ReadUint8_at [read_back]: "ReadUint8 (ahead pre (w # rest)) = Some (w, ahead (pre @ [w]) rest)"
  by (simp add: ReadUint8_def ahead_def)

lemma get16_behind: "get16 (pre @ be16 w @ rest) (length pre) = Some w"
  using get16_append [of pre "be16 w @ rest" 0] by (simp add: get16_def be16_def)

lemma get32_behind: "get32 (pre @ be32 w @ rest) (length pre) = Some w"
  using get32_append [of pre "be32 w @ rest" 0] by (simp add: get32_def be32_def)

lemma ReadUint16_at [read_back]: "ReadUint16 (ahead pre (be16 w @ rest)) = Some (w, ahead (pre @ be16 w) rest)"
  by (simp add: ReadUint16_def ahead_def get16_behind del: get16_Some)

lemma ReadUint32_at [read_back]: "ReadUint32 (ahead pre (be32 w @ rest)) = Some (w, ahead (pre @ be32 w) rest)"
  by (simp add: ReadUint32_def ahead_def get32_behind del: get32_Some)

lemma ReadBytes_at [read_back]:
  "length bs = n \<Longrightarrow> ReadBytes n (ahead pre (bs @ rest)) = Some (bs, ahead (pre @ bs) rest)"
  by (auto simp: ReadBytes_def ahead_def subslice_mid go_copy_def)

lemmas read_back_end [read_back] =
  ReadUint16_at [where rest = "[]", simplified] ReadUint32_at [where rest = "[]", simplified]
  ReadBytes_at [where rest = "[]", simplified]

text \<open>Behind the end and after an error every field is zero.\<close>

lemma read_at_end:
  "ReadUint8 (ahead pre []) = Some (0, failed_at pre [])"
  "length rest < 2 \<Longrightarrow> ReadUint16 (ahead pre rest) = Some (0, failed_at pre rest)"
  "length rest < 4 \<Longrightarrow> ReadUint32 (ahead pre rest) = Some (0, failed_at pre rest)"
  "length rest < n \<Longrightarrow> ReadBytes n (ahead pre rest) = Some (replicate n 0, failed_at pre rest)"
  by (simp_all add: ReadUint8_def ReadUint16_def ReadUint32_def ReadBytes_def ahead_def failed_at_def)

lemma read_failed [simp]:
  "ReadUint8 (failed_at pre rest) = Some (0, failed_at pre rest)"
  "ReadUint16 (failed_at pre rest) = Some (0, failed_at pre rest)"
  "ReadUint32 (failed_at pre rest) = Some (0, failed_at pre rest)"
  "ReadBytes n (failed_at pre rest) = Some (replicate n 0, failed_at pre rest)"
  by (simp_all add: ReadUint8_def ReadUint16_def ReadUint32_def ReadBytes_def failed_at_def)

text \<open>No read panics, and the position stays inside the buffer.\<close>

definition reader_inv :: "byteReader \<Rightarrow> bool" where
  "reader_inv r \<longleftrightarrow> r_pos r \<le> length (r_b r)"

lemma reader_inv_ahead [simp]: "reader_inv (ahead pre rest)"
  by (simp add: reader_inv_def ahead_def)

lemma reader_inv_new [simp]: "reader_inv (newByteReader b)"
  by (simp add: reader_inv_def newByteReader_def)

section \<open>Results that are never a panic\<close>

definition returns :: "'a go \<Rightarrow> ('a \<Rightarrow> bool) \<Rightarrow> bool" where
  "returns m Q \<longleftrightarrow> (\<exists>x. m = Some x \<and> Q x)"

lemma returns_Some [simp]: "returns (Some x) Q \<longleftrightarrow> Q x"
  by (simp add: returns_def)

lemma returns_bind [simp]: "returns (Option.bind m f) Q \<longleftrightarrow> returns m (\<lambda>x. returns (f x) Q)"
  by (cases m) (simp_all add: returns_def)

lemma returns_mono: "returns m P \<Longrightarrow> (\<And>x. P x \<Longrightarrow> Q x) \<Longrightarrow> returns m Q"
  by (auto simp: returns_def)

named_theorems returnsI \<open>a call returns, whatever the reader\<close>

lemma ReadUint8_returns [returnsI]:
  "reader_inv r \<Longrightarrow> (\<And>v r'. reader_inv r' \<Longrightarrow> Q (v, r')) \<Longrightarrow> returns (ReadUint8 r) Q"
  by (simp add: ReadUint8_def reader_inv_def)

lemma ReadUint16_returns [returnsI]:
  "reader_inv r \<Longrightarrow> (\<And>v r'. reader_inv r' \<Longrightarrow> Q (v, r')) \<Longrightarrow> returns (ReadUint16 r) Q"
  by (simp add: ReadUint16_def reader_inv_def)

lemma ReadUint32_returns [returnsI]:
  "reader_inv r \<Longrightarrow> (\<And>v r'. reader_inv r' \<Longrightarrow> Q (v, r')) \<Longrightarrow> returns (ReadUint32 r) Q"
  by (simp add: ReadUint32_def reader_inv_def)

lemma ReadBytes_returns [returnsI]:
  "reader_inv r \<Longrightarrow> (\<And>v r'. length v = n \<Longrightarrow> reader_inv r' \<Longrightarrow> Q (v, r')) \<Longrightarrow> returns (ReadBytes n r) Q"
  by (simp add: ReadBytes_def reader_inv_def subslice_def Let_def)

section \<open>Counted lists\<close>

text \<open>\<^verbatim>\<open>for i := 0; i < n; i++ { xs[i] = f(r) }\<close>\<close>

primrec read_n :: "(byteReader \<Rightarrow> ('a \<times> byteReader) go) \<Rightarrow> nat \<Rightarrow> byteReader \<Rightarrow> ('a list \<times> byteReader) go" where
  "read_n f 0 r = Some ([], r)"
| "read_n f (Suc n) r = do { (x, r) \<leftarrow> f r; (xs, r) \<leftarrow> read_n f n r; Some (x # xs, r) }"

lemma read_n_returns:
  assumes "\<And>r. reader_inv r \<Longrightarrow> returns (f r) (\<lambda>(x, r'). P x \<and> reader_inv r')"
  shows "reader_inv r \<Longrightarrow> returns (read_n f n r) (\<lambda>(xs, r'). length xs = n \<and> list_all P xs \<and> reader_inv r')"
proof (induction n arbitrary: r)
  case (Suc n)
  from assms [OF Suc.prems] obtain x r' where "f r = Some (x, r')" "P x" "reader_inv r'"
    by (auto simp: returns_def)
  with Suc.IH [of r'] show ?case by (auto simp: returns_def)
qed simp

text \<open>
  The contract of an item: written and then read it comes back decoded, and the reader stands
  behind it. A counted list of such items then comes back item by item.
\<close>

locale reader_codec =
  fixes emit :: "'a \<Rightarrow> bytes go"
    and wf :: "'a \<Rightarrow> bool"
    and read :: "byteReader \<Rightarrow> ('b \<times> byteReader) go"
    and decoded :: "'a \<Rightarrow> 'b"
  assumes read_emit: "wf x \<Longrightarrow> emit x = Some bs \<Longrightarrow>
    read (ahead pre (bs @ rest)) = Some (decoded x, ahead (pre @ bs) rest)"
begin

lemma read_n_emit:
  "list_all wf xs \<Longrightarrow> write_all emit xs = Some bs \<Longrightarrow>
    read_n read (length xs) (ahead pre (bs @ rest)) = Some (map decoded xs, ahead (pre @ bs) rest)"
proof (induction xs arbitrary: pre bs)
  case Nil
  then show ?case by simp
next
  case (Cons x xs)
  from Cons.prems(2) obtain b bs' where b: "emit x = Some b" "write_all emit xs = Some bs'" "bs = b @ bs'"
    by (auto split: Option.bind_splits)
  with Cons read_emit [of x b pre "bs' @ rest"] Cons.IH [of bs' "pre @ b"]
  show ?case by simp
qed

lemma read_n_emit_all:
  "list_all wf xs \<Longrightarrow> write_all emit xs = Some bs \<Longrightarrow>
    read_n read (length xs) (ahead pre bs) = Some (map decoded xs, ahead (pre @ bs) [])"
  using read_n_emit [of xs bs pre "[]"] by simp

end

section \<open>The reader as a stream\<close>

text \<open>
  What the reader promises: it is a stream of unread bytes with a sticky error, from which a read
  takes its bytes or, when they are not all there, takes none, fails and answers zeros.
\<close>

type_synonym stream = "bytes \<times> bool"

definition stream_take :: "nat \<Rightarrow> stream \<Rightarrow> bytes \<times> stream" where
  "stream_take n = (\<lambda>(s, failed).
     if failed \<or> length s < n then (replicate n 0, (s, True)) else (take n s, (drop n s, False)))"

definition reader_stream :: "byteReader \<Rightarrow> stream" where
  "reader_stream r = (drop (r_pos r) (r_b r), r_err r)"

datatype read_op = Op8 | Op16 | Op32 | OpBytes nat

primrec op_size :: "read_op \<Rightarrow> nat" where
  "op_size Op8 = 1" | "op_size Op16 = 2" | "op_size Op32 = 4" | "op_size (OpBytes n) = n"

text \<open>The result of a read, given as the bytes it was made of.\<close>

primrec reader_op :: "read_op \<Rightarrow> byteReader \<Rightarrow> (bytes \<times> byteReader) go" where
  "reader_op Op8 r = do { (v, r) \<leftarrow> ReadUint8 r; Some ([v], r) }"
| "reader_op Op16 r = do { (v, r) \<leftarrow> ReadUint16 r; Some (be16 v, r) }"
| "reader_op Op32 r = do { (v, r) \<leftarrow> ReadUint32 r; Some (be32 v, r) }"
| "reader_op (OpBytes n) r = ReadBytes n r"

primrec reader_run :: "read_op list \<Rightarrow> byteReader \<Rightarrow> (bytes list \<times> byteReader) go" where
  "reader_run [] r = Some ([], r)"
| "reader_run (p # ps) r = do { (v, r) \<leftarrow> reader_op p r; (vs, r) \<leftarrow> reader_run ps r; Some (v # vs, r) }"

primrec stream_run :: "read_op list \<Rightarrow> stream \<Rightarrow> bytes list \<times> stream" where
  "stream_run [] s = ([], s)"
| "stream_run (p # ps) s =
     (case stream_take (op_size p) s of (v, s) \<Rightarrow> case stream_run ps s of (vs, s) \<Rightarrow> (v # vs, s))"

lemma be_zero [simp]: "be16 0 = [0, 0]" "be32 0 = [0, 0, 0, 0]"
  by (simp_all add: be16_def be32_def)

lemma take_2: "2 \<le> length xs \<Longrightarrow> take 2 xs = [xs ! 0, xs ! 1]"
  by (cases xs; cases "tl xs") auto

lemma take_4: "4 \<le> length xs \<Longrightarrow> take 4 xs = [xs ! 0, xs ! 1, xs ! 2, xs ! 3]"
  by (rule nth_equalityI) (auto simp: less_Suc_eq numeral_eq_Suc)

lemma reader_op_stream:
  assumes "reader_inv r"
  shows "returns (reader_op p r) (\<lambda>(v, r'). reader_inv r' \<and>
    stream_take (op_size p) (reader_stream r) = (v, reader_stream r'))"
proof -
  have 2: "take 2 (drop (r_pos r) (r_b r)) = be16 (u16_of (r_b r ! r_pos r) (r_b r ! (r_pos r + 1)))"
    if "r_pos r + 2 \<le> length (r_b r)"
    using that take_2 [of "drop (r_pos r) (r_b r)"] by (simp add: be16_u16_of)
  have 4: "take 4 (drop (r_pos r) (r_b r)) = be32 (u32_of (r_b r ! r_pos r) (r_b r ! (r_pos r + 1))
      (r_b r ! (r_pos r + 2)) (r_b r ! (r_pos r + 3)))"
    if "r_pos r + 4 \<le> length (r_b r)"
    using that take_4 [of "drop (r_pos r) (r_b r)"] by (simp add: be32_u32_of)
  have 1: "take 1 (drop (r_pos r) (r_b r)) = [r_b r ! r_pos r]" if "r_pos r < length (r_b r)"
    using that by (simp add: take_Suc_conv_app_nth)
  show ?thesis
    using assms 1 2 4
    by (cases p) (auto simp: stream_take_def reader_stream_def reader_inv_def ReadUint8_def ReadUint16_def
      ReadUint32_def ReadBytes_def Let_def subslice_def go_copy_def replicate_numeral add.commute)
qed

lemma reader_run_stream:
  "reader_inv r \<Longrightarrow> returns (reader_run ps r) (\<lambda>(vs, r'). reader_inv r' \<and>
    stream_run ps (reader_stream r) = (vs, reader_stream r'))"
proof (induction ps arbitrary: r)
  case (Cons p ps)
  from reader_op_stream [OF Cons.prems, of p] obtain v r1 where r1: "reader_op p r = Some (v, r1)"
    "reader_inv r1" "stream_take (op_size p) (reader_stream r) = (v, reader_stream r1)"
    by (auto simp: returns_def)
  with Cons.IH [of r1] show ?case by (auto simp: returns_def)
qed simp

section \<open>Properties\<close>

text \<open>
  C7: The reader refines a stream with a sticky error: any sequence of reads on a new reader
  returns, without panic, the bytes that the same sequence takes from the stream, zeros from
  the first read that does not fit on, and it leaves unread what the stream leaves.
\<close>

theorem Reader_refines_stream:
  "\<exists>vs r. reader_run ps (newByteReader b) = Some (vs, r) \<and>
    stream_run ps (b, False) = (vs, reader_stream r) \<and> Remaining r = Some (fst (reader_stream r))"
  using reader_run_stream [of "newByteReader b" ps]
  by (auto simp: returns_def reader_stream_def newByteReader_def Remaining_def subslice_def reader_inv_def)

end
