(* ===== verification/Mrt_Record.thy ===== *)
theory Mrt_Record
  imports Mrt_Reader
begin

text \<open>
  The MRT records of \<^verbatim>\<open>mrt/mrt.go\<close> and their writers: peer index tables, RIB entries and RIBs
  (TABLE_DUMP_V2), BGP4MP messages and state changes, and the conversion of a RIB to UPDATE
  messages. A \<^verbatim>\<open>time.Time\<close> is its Unix time, a string its bytes. The prefix of a RIB is an
  interface, nil (\<open>None\<close>) when it was not set. Lemmas: what is written has the announced length.
\<close>

section \<open>Constants\<close>

abbreviation (input) "TYPE_TABLE_DUMP \<equiv> 12 :: u16"
abbreviation (input) "TYPE_TABLE_DUMPV2 \<equiv> 13 :: u16"
abbreviation (input) "TYPE_BGP4MP \<equiv> 16 :: u16"
abbreviation (input) "SUBT_TABLE_DUMP_AFI_IPV4 \<equiv> 1 :: u16"
abbreviation (input) "SUBT_TABLE_DUMP_AFI_IPV6 \<equiv> 2 :: u16"
abbreviation (input) "SUBT_PEER_INDEX_TABLE \<equiv> 1 :: u16"
abbreviation (input) "SUBT_RIB_IPV4_UNICAST \<equiv> 2 :: u16"
abbreviation (input) "SUBT_RIB_IPV4_MULTICAST \<equiv> 3 :: u16"
abbreviation (input) "SUBT_RIB_IPV6_UNICAST \<equiv> 4 :: u16"
abbreviation (input) "SUBT_RIB_IPV6_MULTICAST \<equiv> 5 :: u16"
abbreviation (input) "SUBT_RIB_GENERIC \<equiv> 6 :: u16"
abbreviation (input) "SUBT_RIB_IPV4_UNICAST_ADDPATH \<equiv> 8 :: u16"
abbreviation (input) "SUBT_RIB_IPV6_UNICAST_ADDPATH \<equiv> 10 :: u16"
abbreviation (input) "SUBT_BGP4MP_MESSAGE_AS4 \<equiv> 4 :: u16"
abbreviation (input) "SUBT_BGP4MP_STATE_CHANGE_AS4 \<equiv> 5 :: u16"

section \<open>Peer index table\<close>

record Peer =
  peer_Id :: bytes
  peer_IP :: bytes
  peer_ASN :: u32

text \<open>The type byte: \<^verbatim>\<open>longasn<<2 | firstbit\<close>.\<close>

definition Peer_Write :: "Peer \<Rightarrow> bytes" where
  "Peer_Write p =
     (let (newip, firstbit) =
        (case To4 (peer_IP p) of Some tmpip \<Rightarrow> (tmpip, 0 :: int) | None \<Rightarrow> (peer_IP p, 1));
          longasn = (if peer_ASN p \<le> 0xffff then 0 else 1 :: int);
          firstbyte = word_of_int (push_bit 2 longasn OR firstbit) :: byte
      in [firstbyte] @ nil_empty (To4 (peer_Id p)) @ newip @
        (if longasn = 1 then be32 (peer_ASN p) else be16 (ucast (peer_ASN p))))"

definition Peer_Len :: "Peer \<Rightarrow> nat" where
  "Peer_Len p =
     1 + 4 + (if To4 (peer_IP p) = None then 16 else 4) + (if peer_ASN p \<le> 0xffff then 2 else 4)"

record PeerIndexTable =
  pi_Timestamp :: int
  CollectorId :: bytes
  ViewName :: bytes
  Peers :: "Peer list"

definition NewMrtTableDumpV2_PeerIndex :: "bytes \<Rightarrow> bytes \<Rightarrow> int \<Rightarrow> PeerIndexTable" where
  "NewMrtTableDumpV2_PeerIndex collectorid viewname ts =
     \<lparr>pi_Timestamp = ts, CollectorId = collectorid, ViewName = viewname, Peers = []\<rparr>"

definition AddPeer :: "bytes \<Rightarrow> u32 \<Rightarrow> bytes \<Rightarrow> PeerIndexTable \<Rightarrow> PeerIndexTable \<times> u16" where
  "AddPeer ident asn ip mrt =
     (let peer = \<lparr>peer_Id = nil_empty (To4 ident), peer_IP = ip, peer_ASN = asn\<rparr>;
          mrt = mrt\<lparr>Peers := Peers mrt @ [peer]\<rparr>
      in (mrt, of_nat (length (Peers mrt) - 1)))"

definition PeerIndex_Len :: "PeerIndexTable \<Rightarrow> nat" where
  "PeerIndex_Len mrt = 4 + 2 + length (ViewName mrt) + 2 + (\<Sum>p\<leftarrow>Peers mrt. Peer_Len p)"

definition PeerIndex_Write :: "PeerIndexTable \<Rightarrow> bytes" where
  "PeerIndex_Write mrt =
     WriteCommonHeader (pi_Timestamp mrt) TYPE_TABLE_DUMPV2 SUBT_PEER_INDEX_TABLE (of_nat (PeerIndex_Len mrt)) @
     nil_empty (To4 (CollectorId mrt)) @ be16 (of_nat (length (ViewName mrt))) @ ViewName mrt @
     be16 (of_nat (length (Peers mrt))) @ concat (map Peer_Write (Peers mrt))"

section \<open>RIB entries\<close>

record RibEntry =
  re_PeerIndex :: u16
  OrigTime :: int
  re_Attributes :: "BGPAttributeIf list"

text \<open>
  An attribute as an entry counts and writes it: a pointer to MP_REACH in the abbreviated form, a
  pointer to MP_UNREACH not at all, everything else, also these two as values, in full.
\<close>

fun entry_attr_Len :: "BGPAttributeIf \<Rightarrow> nat" where
  "entry_attr_Len (Ptr (BGPAttribute_MP_REACH m)) = unat (MP_REACH_LenMrt m)"
| "entry_attr_Len (Ptr (BGPAttribute_MP_UNREACH m)) = 0"
| "entry_attr_Len a = Attr_Len (deref a)"

fun entry_attr_Write :: "BGPAttributeIf \<Rightarrow> bytes go" where
  "entry_attr_Write (Ptr (BGPAttribute_MP_REACH m)) = Some (MP_REACH_WriteMrt m)"
| "entry_attr_Write (Ptr (BGPAttribute_MP_UNREACH m)) = Some []"
| "entry_attr_Write a = Attr_Write (deref a)"

definition RibEntry_Write :: "RibEntry \<Rightarrow> bytes go" where
  "RibEntry_Write entry =
     (let size = (\<Sum>a\<leftarrow>re_Attributes entry. of_nat (entry_attr_Len a)) :: u16 in do {
        attrs \<leftarrow> write_all entry_attr_Write (re_Attributes entry);
        Some (be16 (re_PeerIndex entry) @ be32 (word_of_int (OrigTime entry)) @ be16 size @ attrs)
      })"

definition RibEntry_Len :: "RibEntry \<Rightarrow> u32" where
  "RibEntry_Len entry = 2 + 4 + 2 + (\<Sum>a\<leftarrow>re_Attributes entry. of_nat (entry_attr_Len a))"

section \<open>RIBs\<close>

record Rib =
  rib_Timestamp :: int
  SequenceNumber :: u32
  rib_Afi :: u16
  rib_Safi :: byte
  rib_NLRI :: "NLRI option"
  RibEntries :: "RibEntry list"
  WriteAsAfiSafi :: bool

definition NewMrtTableDumpV2_RibGeneric ::
  "u32 \<Rightarrow> u16 \<Rightarrow> byte \<Rightarrow> NLRI option \<Rightarrow> int \<Rightarrow> Rib" where
  "NewMrtTableDumpV2_RibGeneric seqnum afi safi nlri ts =
     \<lparr>rib_Timestamp = ts, SequenceNumber = seqnum, rib_Afi = afi, rib_Safi = safi, rib_NLRI = nlri,
      RibEntries = [], WriteAsAfiSafi = False\<rparr>"

definition NewMrtTableDumpV2_RibAfiSafi ::
  "u32 \<Rightarrow> u16 \<Rightarrow> byte \<Rightarrow> NLRI option \<Rightarrow> int \<Rightarrow> Rib" where
  "NewMrtTableDumpV2_RibAfiSafi seqnum afi safi nlri ts =
     (let mrt = NewMrtTableDumpV2_RibGeneric seqnum afi safi nlri ts in mrt\<lparr>WriteAsAfiSafi := True\<rparr>)"

definition AddEntry :: "u16 \<Rightarrow> int \<Rightarrow> BGPAttributeIf list \<Rightarrow> Rib \<Rightarrow> Rib" where
  "AddEntry peerindex origtime attributes mrt =
     mrt\<lparr>RibEntries := RibEntries mrt @
       [\<lparr>re_PeerIndex = peerindex, OrigTime = origtime, re_Attributes = attributes\<rparr>]\<rparr>"

definition GetSubtype :: "Rib \<Rightarrow> bool \<times> u16" where
  "GetSubtype mrt =
     (if WriteAsAfiSafi mrt then
        if rib_Afi mrt = AFI_IPV4 \<and> rib_Safi mrt = SAFI_UNICAST then (False, SUBT_RIB_IPV4_UNICAST)
        else if rib_Afi mrt = AFI_IPV4 \<and> rib_Safi mrt = SAFI_MULTICAST then (False, SUBT_RIB_IPV4_MULTICAST)
        else if rib_Afi mrt = AFI_IPV6 \<and> rib_Safi mrt = SAFI_UNICAST then (False, SUBT_RIB_IPV6_UNICAST)
        else if rib_Afi mrt = AFI_IPV6 \<and> rib_Safi mrt = SAFI_MULTICAST then (False, SUBT_RIB_IPV6_MULTICAST)
        else (True, SUBT_RIB_GENERIC)
      else (True, SUBT_RIB_GENERIC))"

definition Rib_Len :: "Rib \<Rightarrow> nat go" where
  "Rib_Len mrt = do {
     nlri \<leftarrow> rib_NLRI mrt;
     b \<leftarrow> NLRI_Write False nlri;
     Some (4 + length b + 2 + (if fst (GetSubtype mrt) then 2 else 0) +
       (\<Sum>e\<leftarrow>RibEntries mrt. unat (RibEntry_Len e)))
   }"

definition Rib_Write :: "Rib \<Rightarrow> bytes go" where
  "Rib_Write mrt =
     (case GetSubtype mrt of (force_generic, subt) \<Rightarrow> do {
        len \<leftarrow> Rib_Len mrt;
        nlri \<leftarrow> rib_NLRI mrt;
        b \<leftarrow> NLRI_Write False nlri;
        es \<leftarrow> write_all RibEntry_Write (RibEntries mrt);
        Some (WriteCommonHeader (rib_Timestamp mrt) TYPE_TABLE_DUMPV2 subt (of_nat len) @
          (if force_generic then be16 (rib_Afi mrt) @ [rib_Safi mrt] else []) @
          be32 (SequenceNumber mrt) @ b @ be16 (of_nat (length (RibEntries mrt))) @ es)
      })"

section \<open>From RIBs to UPDATE messages\<close>

definition EntryToUpdate :: "RibEntry \<Rightarrow> BGPMessageUpdate" where
  "EntryToUpdate entry =
     \<lparr>WithdrawnRoutes = [], PathAttributes = re_Attributes entry, upd_NLRI = [], EnableAddPath = False\<rparr>"

text \<open>
  The loop over the attributes: whether there is an MP_REACH that is a value, and the copies
  (\<^verbatim>\<open>pai\<close>) to which the prefix is appended when it is not yet there. The copies are local to the
  loop: nothing stores them back.
\<close>

primrec scan_reach :: "NLRI \<Rightarrow> BGPAttributeIf list \<Rightarrow> bool \<times> MP_REACH list" where
  "scan_reach nlri [] = (False, [])"
| "scan_reach nlri (a # pa) =
     (case scan_reach nlri pa of (hasreach, copies) \<Rightarrow>
        (case a of
           Val (BGPAttribute_MP_REACH pai) \<Rightarrow>
             (let hasipinreach = list_ex (NLRI_Equals nlri) (mr_NLRI pai) in
              (True, (if \<not> hasipinreach then pai\<lparr>mr_NLRI := mr_NLRI pai @ [nlri]\<rparr> else pai) # copies))
         | _ \<Rightarrow> (hasreach, copies)))"

definition ConvertToUpdateIndex :: "nat \<Rightarrow> Rib \<Rightarrow> BGPMessageUpdate option go" where
  "ConvertToUpdateIndex index mrt =
     (if index \<ge> length (RibEntries mrt) then Some None
      else do {
        entry \<leftarrow> idx (RibEntries mrt) index;
        nlri \<leftarrow> rib_NLRI mrt;
        let update = EntryToUpdate entry in
        if GetAfi nlri = AFI_IPV6 then
          if \<not> fst (scan_reach nlri (PathAttributes update))
          then Some (Some (update\<lparr>PathAttributes := PathAttributes update @
            [Ptr (BGPAttribute_MP_REACH \<lparr>mr_Afi = 0, mr_Safi = 0, mr_NextHop = [], mr_NLRI = [nlri],
              mr_EnableAddPath = False\<rparr>)]\<rparr>))
          else Some (Some update)
        else Some (Some (update\<lparr>upd_NLRI := [nlri]\<rparr>))
      })"

definition ConvertToUpdate :: "Rib \<Rightarrow> BGPMessageUpdate list go" where
  "ConvertToUpdate mrt = do {
     us \<leftarrow> mapM_go (\<lambda>i. ConvertToUpdateIndex i mrt) [0..<length (RibEntries mrt)];
     Some (map the (filter (\<lambda>u. u \<noteq> None) us))
   }"

section \<open>BGP4MP records\<close>

record BGP4MP_Msg =
  bm_Timestamp :: int
  bm_PeerAS :: u32
  bm_LocalAS :: u32
  bm_IfaceIndex :: u16
  bm_PeerIP :: bytes
  bm_LocalIP :: bytes
  bm_Message :: "Message option"

record StateChange =
  sc_Timestamp :: int
  sc_PeerAS :: u32
  sc_LocalAS :: u32
  sc_IfaceIndex :: u16
  sc_PeerIP :: bytes
  sc_LocalIP :: bytes
  OldState :: u16
  NewState :: u16

text \<open>The constructors take the clock reading \<^verbatim>\<open>time.Now().UTC()\<close> as their last argument.\<close>

definition NewMrtBGP4MP_StateChange_AS4 ::
  "u32 \<Rightarrow> u32 \<Rightarrow> u16 \<Rightarrow> bytes \<Rightarrow> bytes \<Rightarrow> u16 \<Rightarrow> u16 \<Rightarrow> int \<Rightarrow> StateChange" where
  "NewMrtBGP4MP_StateChange_AS4 peeras localas iface peerip localip oldstate newstate now =
     \<lparr>sc_Timestamp = now, sc_PeerAS = peeras, sc_LocalAS = localas, sc_IfaceIndex = iface,
      sc_PeerIP = peerip, sc_LocalIP = localip, OldState = oldstate, NewState = newstate\<rparr>"

definition NewMrtBGP4MP_Msg_AS4 ::
  "u32 \<Rightarrow> u32 \<Rightarrow> u16 \<Rightarrow> bytes \<Rightarrow> bytes \<Rightarrow> Message option \<Rightarrow> int \<Rightarrow> BGP4MP_Msg" where
  "NewMrtBGP4MP_Msg_AS4 peeras localas iface peerip localip message now =
     \<lparr>bm_Timestamp = now, bm_PeerAS = peeras, bm_LocalAS = localas, bm_IfaceIndex = iface,
      bm_PeerIP = peerip, bm_LocalIP = localip, bm_Message = message\<rparr>"

definition StateChange_IsIPv4 :: "StateChange \<Rightarrow> bool" where
  "StateChange_IsIPv4 mrt \<longleftrightarrow> To4 (sc_PeerIP mrt) \<noteq> None"

definition StateChange_Len :: "StateChange \<Rightarrow> nat" where
  "StateChange_Len mrt =
     4 + 4 + 2 + 2 + 2 * (if StateChange_IsIPv4 mrt then 4 else 16) + 2 + 2"

text \<open>The address family and the two addresses, as both BGP4MP writers emit them.\<close>

definition write_addresses :: "bool \<Rightarrow> bytes \<Rightarrow> bytes \<Rightarrow> bytes" where
  "write_addresses ipv4 peerip localip =
     (if ipv4 then be16 AFI_IPV4 @ nil_empty (To4 peerip) @ nil_empty (To4 localip)
      else be16 AFI_IPV6 @ peerip @ localip)"

definition StateChange_Write :: "StateChange \<Rightarrow> bytes" where
  "StateChange_Write mrt =
     WriteCommonHeader (sc_Timestamp mrt) TYPE_BGP4MP SUBT_BGP4MP_STATE_CHANGE_AS4
       (of_nat (StateChange_Len mrt)) @
     be32 (sc_PeerAS mrt) @ be32 (sc_LocalAS mrt) @ be16 (sc_IfaceIndex mrt) @
     write_addresses (StateChange_IsIPv4 mrt) (sc_PeerIP mrt) (sc_LocalIP mrt) @
     be16 (OldState mrt) @ be16 (NewState mrt)"

definition Msg_IsIPv4 :: "BGP4MP_Msg \<Rightarrow> bool" where
  "Msg_IsIPv4 mrt \<longleftrightarrow> To4 (bm_PeerIP mrt) \<noteq> None"

text \<open>A nil interface has no method to call.\<close>

definition Msg_Len :: "BGP4MP_Msg \<Rightarrow> nat go" where
  "Msg_Len mrt = do {
     m \<leftarrow> bm_Message mrt;
     l \<leftarrow> Message_Len m;
     Some (4 + 4 + 2 + 2 + 2 * (if Msg_IsIPv4 mrt then 4 else 16) + l)
   }"

definition Msg_Write :: "BGP4MP_Msg \<Rightarrow> bytes go" where
  "Msg_Write mrt = do {
     len \<leftarrow> Msg_Len mrt;
     m \<leftarrow> bm_Message mrt;
     b \<leftarrow> Message_Write m;
     Some (WriteCommonHeader (bm_Timestamp mrt) TYPE_BGP4MP SUBT_BGP4MP_MESSAGE_AS4 (of_nat len) @
       be32 (bm_PeerAS mrt) @ be32 (bm_LocalAS mrt) @ be16 (bm_IfaceIndex mrt) @
       write_addresses (Msg_IsIPv4 mrt) (bm_PeerIP mrt) (bm_LocalIP mrt) @ b)
   }"

section \<open>Lengths\<close>

text \<open>The peers, entries, RIBs and records the format can carry.\<close>

definition peer_ok :: "Peer \<Rightarrow> bool" where
  "peer_ok p \<longleftrightarrow> To4 (peer_Id p) \<noteq> None \<and> (length (peer_IP p) = 4 \<or> length (peer_IP p) = 16)"

lemma nil_empty_To4_length: "To4 ip \<noteq> None \<Longrightarrow> length (nil_empty (To4 ip)) = 4"
  by (auto simp: nil_empty_def To4_result_length)

lemma Peer_Write_length: "peer_ok p \<Longrightarrow> length (Peer_Write p) = Peer_Len p"
  by (auto simp: Peer_Write_def Peer_Len_def peer_ok_def Let_def nil_empty_To4_length To4_result_length
    split: option.splits)

lemma PeerIndex_Write_length:
  assumes "To4 (CollectorId m) \<noteq> None" and "list_all peer_ok (Peers m)"
  shows "length (PeerIndex_Write m) = 12 + PeerIndex_Len m"
proof -
  have "length (concat (map Peer_Write (Peers m))) = (\<Sum>p\<leftarrow>Peers m. Peer_Len p)"
    using assms(2) by (simp add: length_concat list_all_iff o_def Peer_Write_length cong: map_cong)
  then show ?thesis
    using assms(1) by (simp add: PeerIndex_Write_def PeerIndex_Len_def WriteCommonHeader_def nil_empty_To4_length)
qed

lemma length_WriteCommonHeader [simp]: "length (WriteCommonHeader ts t s n) = 12"
  by (simp add: WriteCommonHeader_def)

lemma fst_scan_reach:
  "fst (scan_reach nlri pa) \<longleftrightarrow> (\<exists>m. Val (BGPAttribute_MP_REACH m) \<in> set pa)"
  by (induction pa) (auto split: iface.splits BGPAttr.splits prod.splits)

section \<open>The routes of the UPDATE messages\<close>

text \<open>The family and prefix of every route a list of attributes announces.\<close>

definition reach_routes :: "BGPAttributeIf list \<Rightarrow> (u16 \<times> NLRI) set" where
  "reach_routes pa = (\<Union>a \<in> set pa. case deref a of
     BGPAttribute_MP_REACH m \<Rightarrow> (\<lambda>n. (mr_Afi m, n)) ` set (mr_NLRI m) | _ \<Rightarrow> {})"

lemma reach_routes_append: "reach_routes (xs @ ys) = reach_routes xs \<union> reach_routes ys"
  by (auto simp: reach_routes_def)

lemma reach_routes_single: "reach_routes [Ptr (BGPAttribute_MP_REACH m)] = (\<lambda>n. (mr_Afi m, n)) ` set (mr_NLRI m)"
  by (auto simp: reach_routes_def)

lemma ConvertToUpdateIndex_value:
  assumes "rib_NLRI mrt = Some n" and "i < length (RibEntries mrt)"
  shows "\<exists>u. ConvertToUpdateIndex i mrt = Some (Some u) \<and>
    (if GetAfi n = AFI_IPV6 then
       upd_NLRI u = [] \<and>
       reach_routes (PathAttributes u) = reach_routes (re_Attributes (RibEntries mrt ! i)) \<union>
         (if fst (scan_reach n (re_Attributes (RibEntries mrt ! i))) then {} else {(0, n)})
     else upd_NLRI u = [n] \<and> PathAttributes u = re_Attributes (RibEntries mrt ! i))"
  using assms by (simp add: ConvertToUpdateIndex_def EntryToUpdate_def Let_def reach_routes_append reach_routes_single)

lemma ConvertToUpdate_value:
  assumes "rib_NLRI mrt = Some n"
  shows "\<exists>us. ConvertToUpdate mrt = Some us \<and> length us = length (RibEntries mrt) \<and>
    (\<forall>i < length us. ConvertToUpdateIndex i mrt = Some (Some (us ! i)))"
proof -
  let ?f = "\<lambda>i. the (ConvertToUpdateIndex i mrt)"
  have f: "ConvertToUpdateIndex i mrt = Some (?f i) \<and> ?f i \<noteq> None" if "i < length (RibEntries mrt)" for i
    using ConvertToUpdateIndex_value [OF assms that] by auto
  then have m: "mapM_go (\<lambda>i. ConvertToUpdateIndex i mrt) [0..<length (RibEntries mrt)] =
      Some (map ?f [0..<length (RibEntries mrt)])"
    by (intro mapM_go_total) simp
  have "filter (\<lambda>u. u \<noteq> None) (map ?f [0..<length (RibEntries mrt)]) = map ?f [0..<length (RibEntries mrt)]"
    using f by (intro filter_True) auto
  with m have "ConvertToUpdate mrt = Some (map the (map ?f [0..<length (RibEntries mrt)]))"
    by (simp add: ConvertToUpdate_def)
  with f show ?thesis by (auto intro!: exI)
qed

section \<open>Properties\<close>

text \<open>
  C32: A RIB is turned into one UPDATE message per entry, in order, with the entry's attributes. An
  IPv4 prefix becomes the message's only prefix. An IPv6 prefix is announced by no message: an
  entry that has an MP_REACH value announces what that attribute already said, any other entry
  announces the prefix under address family 0.
\<close>

theorem ConvertToUpdate_routes:
  assumes "rib_NLRI mrt = Some n"
  shows "\<exists>us. ConvertToUpdate mrt = Some us \<and> length us = length (RibEntries mrt) \<and>
    (\<forall>i < length us. let as = re_Attributes (RibEntries mrt ! i) in
      if GetAfi n = AFI_IPV6 then
        upd_NLRI (us ! i) = [] \<and>
        reach_routes (PathAttributes (us ! i)) =
          reach_routes as \<union> (if \<exists>m. Val (BGPAttribute_MP_REACH m) \<in> set as then {} else {(0, n)})
      else upd_NLRI (us ! i) = [n] \<and> PathAttributes (us ! i) = as)"
proof -
  from ConvertToUpdate_value [OF assms] obtain us where us: "ConvertToUpdate mrt = Some us"
    "length us = length (RibEntries mrt)" "\<And>i. i < length us \<Longrightarrow> ConvertToUpdateIndex i mrt = Some (Some (us ! i))"
    by blast
  then show ?thesis
    using ConvertToUpdateIndex_value [OF assms] by (intro exI [of _ us]) (simp add: fst_scan_reach Let_def)
qed

theorem ConvertToUpdate_routes_witness:
  "\<exists>u. ConvertToUpdate (AddEntry 0 0 [Val (BGPAttribute_ORIGIN 0)] (NewMrtTableDumpV2_RibAfiSafi 1 AFI_IPV6 SAFI_UNICAST
      (Some \<lparr>Prefix = \<lparr>IP = replicate 16 0, Mask = replicate 16 0\<rparr>, PathId = 0\<rparr>) 0)) = Some [u] \<and>
    reach_routes (PathAttributes u) = {(0, \<lparr>Prefix = \<lparr>IP = replicate 16 0, Mask = replicate 16 0\<rparr>, PathId = 0\<rparr>)}"
proof -
  let ?n = "\<lparr>Prefix = \<lparr>IP = replicate 16 0, Mask = replicate 16 0\<rparr>, PathId = 0\<rparr> :: NLRI"
  let ?m = "AddEntry 0 0 [Val (BGPAttribute_ORIGIN 0)] (NewMrtTableDumpV2_RibAfiSafi 1 AFI_IPV6 SAFI_UNICAST (Some ?n) 0)"
  have "GetAfi ?n = AFI_IPV6"
    by (simp add: GetAfi_def To4_def To16_def v4InV6Prefix_def replicate_numeral)
  moreover have "rib_NLRI ?m = Some ?n" "RibEntries ?m = [\<lparr>re_PeerIndex = 0, OrigTime = 0, re_Attributes = [Val (BGPAttribute_ORIGIN 0)]\<rparr>]"
    by (simp_all add: AddEntry_def NewMrtTableDumpV2_RibAfiSafi_def NewMrtTableDumpV2_RibGeneric_def)
  moreover have "reach_routes [Val (BGPAttribute_ORIGIN 0)] = {}"
    by (simp add: reach_routes_def)
  ultimately obtain us where "ConvertToUpdate ?m = Some us" "length us = 1"
    "reach_routes (PathAttributes (us ! 0)) = {(0, ?n)}"
    using ConvertToUpdate_routes [of ?m ?n] by (auto simp: Let_def)
  then show ?thesis by (intro exI [of _ "us ! 0"]) (cases us, auto)
qed

end
