(* ===== verification/Mrt_Decode.thy ===== *)
theory Mrt_Decode
  imports Mrt_Record
begin

text \<open>
  The MRT decoders of \<^verbatim>\<open>mrt/mrt.go\<close>. A decoder returns a record (nil is \<open>None\<close>) and an error, and
  may return both. The reader is passed from read to read. Lemmas: no decoder panics, what it
  returns is well formed, and a call always consumes input.
\<close>

section \<open>Records and errors\<close>

record Rib1 =
  td_Timestamp :: int
  OriginatedTime :: int
  ViewNumber :: u16
  td_SequenceNumber :: u16
  td_Prefix :: IPNet
  td_NLRI :: "NLRI option"
  td_Status :: byte
  td_PeerIP :: bytes
  td_PeerAS :: u16
  td_Attributes :: "BGPAttributeIf list"
  td_WriteAsAfiSafi :: bool

datatype Mrt =
    MrtPeerIndex PeerIndexTable
  | MrtRib Rib
  | MrtMsg BGP4MP_Msg
  | MrtStateChange StateChange
  | MrtRib1 Rib1

text \<open>\<^verbatim>\<open>Len\<close> and \<^verbatim>\<open>Write\<close> of the interface; for a TABLE_DUMP record both end the program.\<close>

primrec Mrt_Len :: "Mrt \<Rightarrow> nat go" where
  "Mrt_Len (MrtPeerIndex m) = Some (PeerIndex_Len m)"
| "Mrt_Len (MrtRib m) = Rib_Len m"
| "Mrt_Len (MrtMsg m) = Msg_Len m"
| "Mrt_Len (MrtStateChange m) = Some (StateChange_Len m)"
| "Mrt_Len (MrtRib1 m) = None"

primrec Mrt_Write :: "Mrt \<Rightarrow> bytes go" where
  "Mrt_Write (MrtPeerIndex m) = Some (PeerIndex_Write m)"
| "Mrt_Write (MrtRib m) = Rib_Write m"
| "Mrt_Write (MrtMsg m) = Msg_Write m"
| "Mrt_Write (MrtStateChange m) = Some (StateChange_Write m)"
| "Mrt_Write (MrtRib1 m) = None"

datatype mrt_error =
    ErrMrtLength u32
  | ErrMrtRead io_error
  | ErrMrtNegative
  | ErrMrtPayload
  | ErrMrtBgp bgp_error
  | ErrMrtSubtype u16
  | ErrMrtAfi u16
  | ErrMrtSafi byte
  | ErrMrtNLRI bytes u16 byte "bgp_error option"
  | ErrMrtRibSpec
  | ErrMrtType u16

definition MaxMrtLength :: u32 where
  "MaxMrtLength = push_bit 20 1"

section \<open>BGP4MP\<close>

definition decodeBGP4MP ::
  "byteReader \<Rightarrow> int \<Rightarrow> u16 \<Rightarrow> u32 \<Rightarrow> (Mrt option \<times> mrt_error option) go" where
  "decodeBGP4MP r timestamp subtype len =
     (if len > MaxMrtLength then Some (None, Some (ErrMrtLength len))
      else if subtype = SUBT_BGP4MP_MESSAGE_AS4 then do {
        (peeras, r) \<leftarrow> ReadUint32 r;
        (localas, r) \<leftarrow> ReadUint32 r;
        (ifaceindex, r) \<leftarrow> ReadUint16 r;
        (afi, r) \<leftarrow> ReadUint16 r;
        let sizeip = (if afi = AFI_IPV6 then 16 else 4) in do {
          (peerip, r) \<leftarrow> ReadBytes sizeip r;
          (localip, r) \<leftarrow> ReadBytes sizeip r;
          let headerLen = 4 + 4 + 2 + 2 + 2 * of_nat sizeip :: u32 in
          if len < headerLen then Some (None, Some ErrMrtNegative)
          else let msgsize = len - headerLen in do {
            (msg, r) \<leftarrow> ReadBytes (unat msgsize) r;
            (bgptype, bgplen, err1) \<leftarrow> ParsePacketHeader msg;
            if err1 \<noteq> None then Some (None, map_option ErrMrtBgp err1)
            else if unat bgplen + 19 > length msg then Some (None, Some ErrMrtPayload)
            else do {
              body \<leftarrow> subslice msg 19 (unat (19 + bgplen));
              (pktd, err2) \<leftarrow> ParsePacket bgptype body;
              Some (Some (MrtMsg \<lparr>bm_Timestamp = timestamp, bm_PeerAS = peeras, bm_LocalAS = localas,
                bm_IfaceIndex = ifaceindex, bm_PeerIP = peerip, bm_LocalIP = localip,
                bm_Message = pktd\<rparr>), map_option ErrMrtBgp err2)
            }
          }
        }
      }
      else if subtype = SUBT_BGP4MP_STATE_CHANGE_AS4 then do {
        (peeras, r) \<leftarrow> ReadUint32 r;
        (localas, r) \<leftarrow> ReadUint32 r;
        (ifaceindex, r) \<leftarrow> ReadUint16 r;
        (afi, r) \<leftarrow> ReadUint16 r;
        let sizeip = (if afi = AFI_IPV6 then 16 else 4) in do {
          (peerip, r) \<leftarrow> ReadBytes sizeip r;
          (localip, r) \<leftarrow> ReadBytes sizeip r;
          (oldstate, r) \<leftarrow> ReadUint16 r;
          (newstate, r) \<leftarrow> ReadUint16 r;
          Some (Some (MrtStateChange \<lparr>sc_Timestamp = timestamp, sc_PeerAS = peeras,
            sc_LocalAS = localas, sc_IfaceIndex = ifaceindex, sc_PeerIP = peerip,
            sc_LocalIP = localip, OldState = oldstate, NewState = newstate\<rparr>), None)
        }
      }
      else Some (None, Some (ErrMrtSubtype subtype)))"

section \<open>RIBs\<close>

text \<open>\<open>size\<close> of the code is \<open>prefix_bytes\<close> of the length byte: 32 at most, no byte overflows.\<close>

definition decodeNLRI ::
  "byteReader \<Rightarrow> u16 \<Rightarrow> byte \<Rightarrow> ((NLRI option \<times> mrt_error option) \<times> byteReader) go" where
  "decodeNLRI r afi safi =
     (if afi \<noteq> AFI_IPV4 \<and> afi \<noteq> AFI_IPV6 then Some ((None, Some (ErrMrtAfi afi)), r)
      else if safi \<noteq> SAFI_UNICAST \<and> safi \<noteq> SAFI_MULTICAST then Some ((None, Some (ErrMrtSafi safi)), r)
      else do {
        (l, r) \<leftarrow> ReadUint8 r;
        (b, r) \<leftarrow> ReadBytes (prefix_bytes (unat l)) r;
        let newb = [l] @ b in do {
          (nlri, err) \<leftarrow> ParseNLRI newb afi safi False;
          if length nlri = 1 then do {
            n \<leftarrow> idx nlri 0;
            Some ((Some n, map_option ErrMrtBgp err), r)
          }
          else Some ((None, Some (ErrMrtNLRI newb afi safi err)), r)
        }
      })"

definition decodeAttributes ::
  "byteReader \<Rightarrow> u16 \<Rightarrow> ((BGPAttributeIf list \<times> bgp_error option) \<times> byteReader) go" where
  "decodeAttributes r attrlen = do {
     (b, r) \<leftarrow> ReadBytes (unat attrlen) r;
     res \<leftarrow> ParsePathAttribute b [] False;
     Some (res, r)
   }"

definition decodeAttributes2B ::
  "byteReader \<Rightarrow> u16 \<Rightarrow> ((BGPAttributeIf list \<times> bgp_error option) \<times> byteReader) go" where
  "decodeAttributes2B r attrlen = do {
     (b, r) \<leftarrow> ReadBytes (unat attrlen) r;
     res \<leftarrow> ParsePathAttribute b [] True;
     Some (res, r)
   }"

definition decodeRibEntries :: "byteReader \<Rightarrow> ((RibEntry \<times> bgp_error option) \<times> byteReader) go" where
  "decodeRibEntries r = do {
     (peerindex, r) \<leftarrow> ReadUint16 r;
     (origints, r) \<leftarrow> ReadUint32 r;
     (attrlen, r) \<leftarrow> ReadUint16 r;
     ((attrs, err), r) \<leftarrow> decodeAttributes r attrlen;
     Some ((\<lparr>re_PeerIndex = peerindex, OrigTime = uint origints, re_Attributes = attrs\<rparr>, err), r)
   }"

definition decodeRibEntriesAddPath ::
  "byteReader \<Rightarrow> ((RibEntry \<times> bgp_error option) \<times> byteReader) go" where
  "decodeRibEntriesAddPath r = do {
     (peerindex, r) \<leftarrow> ReadUint16 r;
     (origints, r) \<leftarrow> ReadUint32 r;
     (_, r) \<leftarrow> ReadUint32 r;
     (attrlen, r) \<leftarrow> ReadUint16 r;
     ((attrs, err), r) \<leftarrow> decodeAttributes r attrlen;
     Some ((\<lparr>re_PeerIndex = peerindex, OrigTime = uint origints, re_Attributes = attrs\<rparr>, err), r)
   }"

text \<open>\<^verbatim>\<open>errentry\<close> after the loop: every iteration overwrites it.\<close>

definition last_error :: "(RibEntry \<times> bgp_error option) list \<Rightarrow> mrt_error option" where
  "last_error es = (if es = [] then None else map_option ErrMrtBgp (snd (last es)))"

definition rib_afi_safi :: "u16 \<Rightarrow> (u16 \<times> byte) option" where
  "rib_afi_safi subtype =
     (if subtype = SUBT_RIB_IPV4_UNICAST \<or> subtype = SUBT_RIB_IPV4_UNICAST_ADDPATH
      then Some (AFI_IPV4, SAFI_UNICAST)
      else if subtype = SUBT_RIB_IPV6_UNICAST \<or> subtype = SUBT_RIB_IPV6_UNICAST_ADDPATH
      then Some (AFI_IPV6, SAFI_UNICAST)
      else if subtype = SUBT_RIB_IPV4_MULTICAST then Some (AFI_IPV4, SAFI_MULTICAST)
      else if subtype = SUBT_RIB_IPV6_MULTICAST then Some (AFI_IPV6, SAFI_MULTICAST)
      else None)"

definition decodeBGP4TD2RIBSpec ::
  "byteReader \<Rightarrow> u16 \<Rightarrow> int \<Rightarrow> bool \<Rightarrow> (Mrt option \<times> mrt_error option) go" where
  "decodeBGP4TD2RIBSpec r subtype timestamp addpath =
     (case rib_afi_safi subtype of
        None \<Rightarrow> Some (None, Some ErrMrtRibSpec)
      | Some (afi, safi) \<Rightarrow> do {
          (seqnum, r) \<leftarrow> ReadUint32 r;
          (preflen, r) \<leftarrow> ReadUint8 r;
          (prefix, r) \<leftarrow> ReadBytes (prefix_bytes (unat preflen)) r;
          let newb = [preflen] @ prefix in do {
            (nlri, err) \<leftarrow> ParseNLRI newb afi safi False;
            let mrt = \<lparr>rib_Timestamp = timestamp, SequenceNumber = seqnum, rib_Afi = afi, rib_Safi = safi,
              rib_NLRI = None, RibEntries = [], WriteAsAfiSafi = True\<rparr> in
            if length nlri = 1 then do {
              n \<leftarrow> idx nlri 0;
              let mrt = mrt\<lparr>rib_NLRI := Some n\<rparr> in
              if err \<noteq> None then Some (Some (MrtRib mrt), map_option ErrMrtBgp err)
              else do {
                (entrycount, r) \<leftarrow> ReadUint16 r;
                (es, r) \<leftarrow> read_n (if addpath then decodeRibEntriesAddPath else decodeRibEntries)
                  (unat entrycount) r;
                Some (Some (MrtRib (mrt\<lparr>RibEntries := map fst es\<rparr>)), last_error es)
              }
            }
            else Some (Some (MrtRib mrt), Some (ErrMrtNLRI newb afi safi err))
          }
        })"

section \<open>TABLE_DUMP_V2\<close>

text \<open>One iteration of the loop over the peers.\<close>

definition decode_peer :: "byteReader \<Rightarrow> (Peer \<times> byteReader) go" where
  "decode_peer r = do {
     (peertype, r) \<leftarrow> ReadUint8 r;
     (bgpid, r) \<leftarrow> ReadBytes 4 r;
     let sizeasn = (if peertype AND 0x2 \<noteq> 0 then 4 else 2);
         sizeip = (if peertype AND 0x1 \<noteq> 0 then 16 else 4) in do {
       (peerip, r) \<leftarrow> ReadBytes sizeip r;
       (tmpasn, r) \<leftarrow> ReadBytes sizeasn r;
       asn \<leftarrow> (if sizeasn = 2 then map_option ucast (get16 tmpasn 0) else get32 tmpasn 0);
       Some (\<lparr>peer_Id = bgpid, peer_IP = peerip, peer_ASN = asn\<rparr>, r)
     }
   }"

definition decodeBGP4TD2 ::
  "byteReader \<Rightarrow> int \<Rightarrow> u16 \<Rightarrow> u32 \<Rightarrow> (Mrt option \<times> mrt_error option) go" where
  "decodeBGP4TD2 r timestamp subtype len =
     (if len > MaxMrtLength then Some (None, Some (ErrMrtLength len))
      else if subtype = SUBT_PEER_INDEX_TABLE then do {
        (collid, r) \<leftarrow> ReadBytes 4 r;
        (viewnamelen, r) \<leftarrow> ReadUint16 r;
        (viewname, r) \<leftarrow> ReadBytes (unat viewnamelen) r;
        (peercount, r) \<leftarrow> ReadUint16 r;
        (peers, r) \<leftarrow> read_n decode_peer (unat peercount) r;
        Some (Some (MrtPeerIndex \<lparr>pi_Timestamp = timestamp, CollectorId = collid,
          ViewName = viewname, Peers = peers\<rparr>), None)
      }
      else if subtype = SUBT_RIB_GENERIC then do {
        (seqnum, r) \<leftarrow> ReadUint32 r;
        (afi, r) \<leftarrow> ReadUint16 r;
        (safi, r) \<leftarrow> ReadUint8 r;
        ((nlri, err), r) \<leftarrow> decodeNLRI r afi safi;
        let mrt = \<lparr>rib_Timestamp = timestamp, SequenceNumber = seqnum, rib_Afi = afi, rib_Safi = safi,
          rib_NLRI = nlri, RibEntries = [], WriteAsAfiSafi = False\<rparr> in
        if err \<noteq> None then Some (Some (MrtRib mrt), err)
        else do {
          (entrycount, r) \<leftarrow> ReadUint16 r;
          (es, r) \<leftarrow> read_n decodeRibEntries (unat entrycount) r;
          Some (Some (MrtRib (mrt\<lparr>RibEntries := map fst es\<rparr>)), last_error es)
        }
      }
      else if subtype \<in> {SUBT_RIB_IPV4_UNICAST, SUBT_RIB_IPV6_UNICAST, SUBT_RIB_IPV4_MULTICAST,
          SUBT_RIB_IPV6_MULTICAST}
      then decodeBGP4TD2RIBSpec r subtype timestamp False
      else if subtype \<in> {SUBT_RIB_IPV4_UNICAST_ADDPATH, SUBT_RIB_IPV6_UNICAST_ADDPATH}
      then decodeBGP4TD2RIBSpec r subtype timestamp True
      else Some (None, Some (ErrMrtSubtype subtype)))"

section \<open>TABLE_DUMP\<close>

text \<open>The reads that depend on the subtype; for any other subtype the slice stays nil.\<close>

definition read_address :: "u16 \<Rightarrow> byteReader \<Rightarrow> (bytes \<times> byteReader) go" where
  "read_address subtype r =
     (if subtype = SUBT_TABLE_DUMP_AFI_IPV4 then ReadBytes 4 r
      else if subtype = SUBT_TABLE_DUMP_AFI_IPV6 then ReadBytes 16 r
      else Some ([], r))"

definition td1_mask :: "u16 \<Rightarrow> byte \<Rightarrow> bytes go" where
  "td1_mask subtype prefixLen =
     (if subtype = SUBT_TABLE_DUMP_AFI_IPV4 then
        (let prefixLen = (if prefixLen = 32 \<or> prefixLen > 32 then 31 else prefixLen)
         in idx MaskV4 (unat prefixLen))
      else if subtype = SUBT_TABLE_DUMP_AFI_IPV6 then
        (let prefixLen = (if prefixLen = 128 \<or> prefixLen > 128 then 127 else prefixLen)
         in idx MaskV6 (unat prefixLen))
      else Some [])"

definition decodeBGP4TD1 ::
  "byteReader \<Rightarrow> int \<Rightarrow> u16 \<Rightarrow> u32 \<Rightarrow> (Mrt option \<times> mrt_error option) go" where
  "decodeBGP4TD1 r timestamp subtype len = do {
     (view, r) \<leftarrow> ReadUint16 r;
     (seqnum, r) \<leftarrow> ReadUint16 r;
     (rawPrefix, r) \<leftarrow> read_address subtype r;
     (prefixLen, r) \<leftarrow> ReadUint8 r;
     mask \<leftarrow> td1_mask subtype prefixLen;
     (status, r) \<leftarrow> ReadUint8 r;
     (originUnixTime, r) \<leftarrow> ReadUint32 r;
     (peerip, r) \<leftarrow> read_address subtype r;
     (peeras, r) \<leftarrow> ReadUint16 r;
     (attrlen, r) \<leftarrow> ReadUint16 r;
     ((attrs, err), r) \<leftarrow> decodeAttributes2B r attrlen;
     let out = \<lparr>td_Timestamp = timestamp, OriginatedTime = uint originUnixTime, ViewNumber = view,
       td_SequenceNumber = seqnum, td_Prefix = \<lparr>IP = rawPrefix, Mask = mask\<rparr>, td_NLRI = None,
       td_Status = 0, td_PeerIP = peerip, td_PeerAS = peeras, td_Attributes = [],
       td_WriteAsAfiSafi = False\<rparr> in
     if err \<noteq> None then Some (Some (MrtRib1 out), map_option ErrMrtBgp err)
     else Some (Some (MrtRib1 (out\<lparr>td_Attributes := attrs\<rparr>)), None)
   }"

section \<open>Entry points\<close>

text \<open>The input is the stream of unread bytes; what is left of it is part of the result.\<close>

definition DecodeBGP4MP ::
  "bytes \<Rightarrow> int \<Rightarrow> u16 \<Rightarrow> u32 \<Rightarrow> ((Mrt option \<times> mrt_error option) \<times> bytes) go" where
  "DecodeBGP4MP buf timestamp subtype len =
     (if len > MaxMrtLength then Some ((None, Some (ErrMrtLength len)), buf)
      else case ReadFull (unat len) buf of
        (Inl err, buf) \<Rightarrow> Some ((None, Some (ErrMrtRead err)), buf)
      | (Inr content, buf) \<Rightarrow> do {
          res \<leftarrow> decodeBGP4MP (newByteReader content) timestamp subtype len;
          Some (res, buf)
        })"

definition DecodeBGP4TD2 ::
  "bytes \<Rightarrow> int \<Rightarrow> u16 \<Rightarrow> u32 \<Rightarrow> ((Mrt option \<times> mrt_error option) \<times> bytes) go" where
  "DecodeBGP4TD2 buf timestamp subtype len =
     (if len > MaxMrtLength then Some ((None, Some (ErrMrtLength len)), buf)
      else case ReadFull (unat len) buf of
        (Inl err, buf) \<Rightarrow> Some ((None, Some (ErrMrtRead err)), buf)
      | (Inr content, buf) \<Rightarrow> do {
          res \<leftarrow> decodeBGP4TD2 (newByteReader content) timestamp subtype len;
          Some (res, buf)
        })"

text \<open>The choice of the decoder by the type of the record.\<close>

definition decode_type ::
  "byteReader \<Rightarrow> int \<Rightarrow> u16 \<Rightarrow> u16 \<Rightarrow> u32 \<Rightarrow> (Mrt option \<times> mrt_error option) go" where
  "decode_type r timestamp mrttype mrtsubtype mrtlength =
     (if mrttype = TYPE_BGP4MP then
        if mrtsubtype = SUBT_BGP4MP_MESSAGE_AS4 \<or> mrtsubtype = SUBT_BGP4MP_STATE_CHANGE_AS4
        then decodeBGP4MP r timestamp mrtsubtype mrtlength
        else Some (None, None)
      else if mrttype = TYPE_TABLE_DUMPV2 then decodeBGP4TD2 r timestamp mrtsubtype mrtlength
      else if mrttype = TYPE_TABLE_DUMP then decodeBGP4TD1 r timestamp mrtsubtype mrtlength
      else Some (None, Some (ErrMrtType mrttype)))"

text \<open>The error of a short header or body is \<^verbatim>\<open>Decoding of type 0 not implemented\<close>.\<close>

definition DecodeSingle :: "bytes \<Rightarrow> ((Mrt option \<times> mrt_error option) \<times> bytes) go" where
  "DecodeSingle buf =
     (case ReadFull 12 buf of
        (Inl _, buf) \<Rightarrow> Some ((None, Some (ErrMrtType 0)), buf)
      | (Inr header, buf) \<Rightarrow> do {
          timestamp \<leftarrow> get32 header 0;
          mrttype \<leftarrow> get16 header 4;
          mrtsubtype \<leftarrow> get16 header 6;
          mrtlength \<leftarrow> get32 header 8;
          if mrtlength > MaxMrtLength then Some ((None, Some (ErrMrtType 0)), buf)
          else case ReadFull (unat mrtlength) buf of
            (Inl _, buf) \<Rightarrow> Some ((None, Some (ErrMrtType 0)), buf)
          | (Inr content, buf) \<Rightarrow> do {
              res \<leftarrow> decode_type (newByteReader content) (uint timestamp) mrttype mrtsubtype mrtlength;
              Some (res, buf)
            }
        })"

section \<open>No decoder panics\<close>

lemma ParseNLRI_returnsI [returnsI]:
  "(\<And>ns err. list_all (nlri_ok afi path) ns \<Longrightarrow> Q (ns, err)) \<Longrightarrow> returns (ParseNLRI b afi safi path) Q"
  using ParseNLRI_returns [of b afi safi path] by (auto simp: returns_def)

lemma ParsePathAttribute_returnsI [returnsI]:
  "(\<And>as err. attrs_parsed apl e as \<Longrightarrow> Q (as, err)) \<Longrightarrow> returns (ParsePathAttribute b apl e) Q"
  using ParsePathAttribute_returns [of b apl e] by (auto simp: returns_def)

lemma ParsePacket_returnsI [returnsI]: "(\<And>m err. Q (m, err)) \<Longrightarrow> returns (ParsePacket t b) Q"
  using ParsePacket_returns [of t b] by (auto simp: returns_def)

lemma ParsePacketHeader_returnsI [returnsI]:
  "(\<And>t n err. (err = None \<longrightarrow> unat n \<le> 4077) \<Longrightarrow> Q (t, n, err)) \<Longrightarrow> returns (ParsePacketHeader b) Q"
  using ParsePacketHeader_no_panic [of b] ParsePacketHeader_accepts [of b]
  by (cases "ParsePacketHeader b") (auto simp: returns_def)

definition addresses_parsed :: "bytes \<Rightarrow> bytes \<Rightarrow> bool" where
  "addresses_parsed peerip localip \<longleftrightarrow>
     length peerip = length localip \<and> (length peerip = 4 \<or> length peerip = 16)"

definition peer_parsed :: "Peer \<Rightarrow> bool" where
  "peer_parsed p \<longleftrightarrow> length (peer_Id p) = 4 \<and> (length (peer_IP p) = 4 \<or> length (peer_IP p) = 16)"

definition entry_parsed :: "RibEntry \<Rightarrow> bool" where
  "entry_parsed e \<longleftrightarrow> attrs_parsed [] False (re_Attributes e)"

primrec mrt_parsed :: "Mrt \<Rightarrow> bool" where
  "mrt_parsed (MrtPeerIndex m) \<longleftrightarrow> length (CollectorId m) = 4 \<and> list_all peer_parsed (Peers m)"
| "mrt_parsed (MrtRib m) \<longleftrightarrow>
     (\<forall>n. rib_NLRI m = Some n \<longrightarrow> nlri_ok (rib_Afi m) False n) \<and> list_all entry_parsed (RibEntries m)"
| "mrt_parsed (MrtMsg m) \<longleftrightarrow> addresses_parsed (bm_PeerIP m) (bm_LocalIP m)"
| "mrt_parsed (MrtStateChange m) \<longleftrightarrow> addresses_parsed (sc_PeerIP m) (sc_LocalIP m)"
| "mrt_parsed (MrtRib1 m) \<longleftrightarrow> attrs_parsed [] True (td_Attributes m)"

abbreviation "result_parsed \<equiv> \<lambda>(m, err). \<forall>x. m = Some x \<longrightarrow> mrt_parsed x"

lemma attrs_parsed_Nil [simp]: "attrs_parsed apl e []"
  by (simp add: attrs_parsed_def)

lemma decodeAttributes_returns [returnsI]:
  "reader_inv r \<Longrightarrow> (\<And>as err r'. attrs_parsed [] False as \<Longrightarrow> reader_inv r' \<Longrightarrow> Q ((as, err), r')) \<Longrightarrow>
    returns (decodeAttributes r n) Q"
  unfolding decodeAttributes_def by (auto intro!: returnsI)

lemma decodeAttributes2B_returns [returnsI]:
  "reader_inv r \<Longrightarrow> (\<And>as err r'. attrs_parsed [] True as \<Longrightarrow> reader_inv r' \<Longrightarrow> Q ((as, err), r')) \<Longrightarrow>
    returns (decodeAttributes2B r n) Q"
  unfolding decodeAttributes2B_def by (auto intro!: returnsI)

lemma decodeRibEntries_returns:
  "reader_inv r \<Longrightarrow> returns (decodeRibEntries r) (\<lambda>(x, r'). entry_parsed (fst x) \<and> reader_inv r')"
  unfolding decodeRibEntries_def by (auto intro!: returnsI simp: entry_parsed_def)

lemma decodeRibEntriesAddPath_returns:
  "reader_inv r \<Longrightarrow> returns (decodeRibEntriesAddPath r) (\<lambda>(x, r'). entry_parsed (fst x) \<and> reader_inv r')"
  unfolding decodeRibEntriesAddPath_def by (auto intro!: returnsI simp: entry_parsed_def)

lemma decode_peer_returns:
  "reader_inv r \<Longrightarrow> returns (decode_peer r) (\<lambda>(p, r'). peer_parsed p \<and> reader_inv r')"
  unfolding decode_peer_def by (auto intro!: returnsI simp: peer_parsed_def Let_def)

lemma read_entries_returns [returnsI]:
  assumes "reader_inv r"
    and "\<And>es r'. list_all entry_parsed (map fst es) \<Longrightarrow> length es = n \<Longrightarrow> reader_inv r' \<Longrightarrow> Q (es, r')"
  shows "returns (read_n decodeRibEntries n r) Q" and "returns (read_n decodeRibEntriesAddPath n r) Q"
  by (rule returns_mono [OF read_n_returns [OF decodeRibEntries_returns assms(1)]],
      use assms(2) in \<open>auto simp: list_all_iff\<close>)
    (rule returns_mono [OF read_n_returns [OF decodeRibEntriesAddPath_returns assms(1)]],
      use assms(2) in \<open>auto simp: list_all_iff\<close>)

lemma read_peers_returns [returnsI]:
  assumes "reader_inv r" and "\<And>ps r'. list_all peer_parsed ps \<Longrightarrow> reader_inv r' \<Longrightarrow> Q (ps, r')"
  shows "returns (read_n decode_peer n r) Q"
  by (rule returns_mono [OF read_n_returns [OF decode_peer_returns assms(1)]], use assms(2) in auto)

lemma decodeNLRI_returns [returnsI]:
  "reader_inv r \<Longrightarrow>
    (\<And>n err r'. (\<forall>x. n = Some x \<longrightarrow> nlri_ok afi False x) \<Longrightarrow> reader_inv r' \<Longrightarrow> Q ((n, err), r')) \<Longrightarrow>
    returns (decodeNLRI r afi safi) Q"
  unfolding decodeNLRI_def by (auto intro!: returnsI simp: Let_def length_Suc_conv)

lemma returns_subslice:
  "returns (subslice b lo hi) Q \<longleftrightarrow> lo \<le> hi \<and> hi \<le> length b \<and> Q (take (hi - lo) (drop lo b))"
  by (auto simp: subslice_def returns_def)

lemma header_end: "unat (n :: u16) \<le> 4077 \<Longrightarrow> unat (19 + n) = 19 + unat n"
  by (subst unat_add_lem [THEN iffD1]) simp_all

lemma decodeBGP4MP_returns: "reader_inv r \<Longrightarrow> returns (decodeBGP4MP r ts subt n) result_parsed"
  unfolding decodeBGP4MP_def
  by (auto intro!: returnsI simp: Let_def addresses_parsed_def returns_subslice header_end)

lemma decodeBGP4TD2RIBSpec_returns [returnsI]:
  "reader_inv r \<Longrightarrow> returns (decodeBGP4TD2RIBSpec r subt ts addpath) result_parsed"
  unfolding decodeBGP4TD2RIBSpec_def
  by (auto intro!: returnsI simp: Let_def length_Suc_conv split: option.split)

lemma decodeBGP4TD2_returns: "reader_inv r \<Longrightarrow> returns (decodeBGP4TD2 r ts subt n) result_parsed"
  unfolding decodeBGP4TD2_def by (auto intro!: returnsI simp: Let_def)

lemma idx_MaskV4: "i < 33 \<Longrightarrow> idx MaskV4 i = Some (cidr_mask 4 i)"
  using idx_afi_masks [of i AFI_IPV4] by (simp add: afi_masks_def afi_asize_def)

lemma idx_MaskV6: "i < 129 \<Longrightarrow> idx MaskV6 i = Some (cidr_mask 16 i)"
  using idx_afi_masks [of i AFI_IPV6] by (simp add: afi_masks_def afi_asize_def)

lemma td1_mask_value:
  "td1_mask subt n = Some (if subt = SUBT_TABLE_DUMP_AFI_IPV4 then cidr_mask 4 (min (unat n) 31)
    else if subt = SUBT_TABLE_DUMP_AFI_IPV6 then cidr_mask 16 (min (unat n) 127) else [])"
  by (auto simp: td1_mask_def Let_def idx_MaskV4 idx_MaskV6 word_less_nat_alt min_def
    word_unat_eq_iff split: if_splits)

lemma td1_mask_returns [returnsI]: "(\<And>m. Q m) \<Longrightarrow> returns (td1_mask subt n) Q"
  by (simp add: td1_mask_value)

lemma read_address_returns [returnsI]:
  "reader_inv r \<Longrightarrow> (\<And>v r'. reader_inv r' \<Longrightarrow> Q (v, r')) \<Longrightarrow> returns (read_address subt r) Q"
  unfolding read_address_def by (auto intro!: returnsI)

lemma decodeBGP4TD1_returns: "reader_inv r \<Longrightarrow> returns (decodeBGP4TD1 r ts subt n) result_parsed"
  unfolding decodeBGP4TD1_def by (auto intro!: returnsI simp: Let_def)

lemma decode_type_returns: "reader_inv r \<Longrightarrow> returns (decode_type r ts ty st n) result_parsed"
  unfolding decode_type_def
  by (simp add: decodeBGP4MP_returns decodeBGP4TD2_returns decodeBGP4TD1_returns)

text \<open>The bytes a call consumes: all of a truncated record, else at least the header.\<close>

lemma DecodeSingle_returns:
  "returns (DecodeSingle buf) (\<lambda>(res, rest). result_parsed res \<and>
    (\<exists>n. rest = drop n buf \<and> (buf \<noteq> [] \<longrightarrow> 0 < n) \<and> (fst res \<noteq> None \<longrightarrow> 12 \<le> n \<and> n \<le> length buf)))"
proof (cases "12 \<le> length buf")
  case False
  then show ?thesis
    by (auto simp: DecodeSingle_def ReadFull_def intro!: exI [of _ "length buf"])
next
  case True
  let ?len = "u32_of (buf ! 8) (buf ! 9) (buf ! 10) (buf ! 11)"
  show ?thesis
  proof (cases "MaxMrtLength < ?len \<or> length buf < 12 + unat ?len")
    case bad: True
    with True show ?thesis
      by (auto simp: DecodeSingle_def ReadFull_def add.commute intro: exI [of _ 12] exI [of _ "length buf"])
  next
    case False
    with True decode_type_returns [of "newByteReader (take (unat ?len) (drop 12 buf))"
        "uint (u32_of (buf ! 0) (buf ! 1) (buf ! 2) (buf ! 3))" "u16_of (buf ! 4) (buf ! 5)"
        "u16_of (buf ! 6) (buf ! 7)" ?len]
    show ?thesis
      by (auto simp: DecodeSingle_def ReadFull_def returns_def add.commute numeral_2_eq_2 [symmetric]
        intro!: exI [of _ "12 + unat ?len"])
  qed
qed

section \<open>Properties\<close>



end
