(* ===== verification/Mrt_Wire.thy ===== *)
theory Mrt_Wire
  imports Mrt_Decode
begin

text \<open>
  Writing and reading MRT records (\<^verbatim>\<open>mrt/mrt.go\<close>): what the writers of \<open>Mrt_Record\<close> emit is
  decoded by \<open>Mrt_Decode\<close>, kind of record by kind of record, in a normal form; and the
  records for which writer and reader disagree. Peers and RIB entries are instances of the
  contract \<open>reader_codec\<close>.
\<close>

section \<open>What is written is decoded\<close>

definition time32 :: "int \<Rightarrow> int" where
  "time32 ts = ts mod 2 ^ 32"

lemma uint_time32 [simp]: "uint (word_of_int ts :: u32) = time32 ts"
  by (simp add: uint_word_of_int time32_def)

lemma MaxMrtLength_value [simp]: "MaxMrtLength = 1048576"
  by (simp add: MaxMrtLength_def)

lemma not_above_MaxMrtLength: "n \<le> 1048576 \<Longrightarrow> \<not> MaxMrtLength < of_nat n"
  by (simp add: word_less_nat_alt unat_of_nat)

lemma unat_of_nat32: "n \<le> 1048576 \<Longrightarrow> unat (of_nat n :: u32) = n"
  by (simp add: unat_of_nat)

lemma header_fields:
  "get32 (WriteCommonHeader ts ty st n) 0 = Some (word_of_int ts)"
  "get16 (WriteCommonHeader ts ty st n) 4 = Some ty"
  "get16 (WriteCommonHeader ts ty st n) 6 = Some st"
  "get32 (WriteCommonHeader ts ty st n) 8 = Some n"
  by (simp_all add: WriteCommonHeader_def get16_def get32_def be16_def be32_def)

lemma DecodeSingle_record:
  assumes "length content \<le> 1048576" and "len = of_nat (length content)"
  shows "DecodeSingle (WriteCommonHeader ts ty st len @ content @ rest) =
    do { res \<leftarrow> decode_type (ahead [] content) (time32 ts) ty st len; Some (res, rest) }"
  using assms not_above_MaxMrtLength [OF assms(1)]
  by (simp add: DecodeSingle_def ReadFull_def header_fields unat_of_nat32 newByteReader_ahead
    del: MaxMrtLength_value)

subsection \<open>Peers\<close>

definition addr_norm :: "bytes \<Rightarrow> bytes" where
  "addr_norm ip = (case To4 ip of Some x \<Rightarrow> x | None \<Rightarrow> ip)"

definition peer_norm :: "Peer \<Rightarrow> Peer" where
  "peer_norm p = p\<lparr>peer_Id := nil_empty (To4 (peer_Id p)), peer_IP := addr_norm (peer_IP p)\<rparr>"

definition short_peer :: "Peer \<Rightarrow> bool" where
  "short_peer p \<longleftrightarrow> peer_ok p \<and> peer_ASN p \<le> 0xffff"

lemma ucast_short: "(w :: u32) \<le> 0xffff \<Longrightarrow> ucast (ucast w :: u16) = w"
  by (rule word_uint_eqI) (simp add: unsigned_ucast_eq word_le_def unsigned_take_bit_eq take_bit_int_eq_self)

lemma addr_norm_length:
  "length ip = 4 \<or> length ip = 16 \<Longrightarrow> length (addr_norm ip) = (if To4 ip = None then 16 else 4)"
  by (auto simp: addr_norm_def To4_result_length split: option.split)

lemma Peer_Write_short:
  "short_peer p \<Longrightarrow> Peer_Write p = [if To4 (peer_IP p) = None then 1 else 0] @ nil_empty (To4 (peer_Id p)) @
    addr_norm (peer_IP p) @ be16 (ucast (peer_ASN p))"
  by (auto simp: Peer_Write_def short_peer_def addr_norm_def split: option.split)

lemma decode_peer_Write:
  assumes "short_peer p"
  shows "decode_peer (ahead pre (Peer_Write p @ rest)) = Some (peer_norm p, ahead (pre @ Peer_Write p) rest)"
proof -
  have "get16 (be16 w) 0 = Some w" for w
    by (simp add: get16_def be16_def)
  then show ?thesis
    using assms unfolding Peer_Write_short [OF assms] decode_peer_def
    by (auto simp: short_peer_def peer_ok_def read_back nil_empty_To4_length addr_norm_length Let_def
      peer_norm_def ucast_short simp del: get16_Some)
qed

interpretation peers: reader_codec "\<lambda>p. Some (Peer_Write p)" short_peer decode_peer peer_norm
  by unfold_locales (auto simp: decode_peer_Write)

subsection \<open>RIB entries\<close>

text \<open>Attributes the decoder can read back: no pointer to MP_REACH, whose abbreviated form the
  decoder does not know; a pointer to MP_UNREACH is not written.\<close>

fun entry_attr_ok :: "BGPAttributeIf \<Rightarrow> bool" where
  "entry_attr_ok (Ptr (BGPAttribute_MP_REACH m)) = False"
| "entry_attr_ok (Ptr (BGPAttribute_MP_UNREACH m)) = True"
| "entry_attr_ok a = attr_ok [] False (deref a)"

fun entry_attr_kept :: "BGPAttributeIf \<Rightarrow> bool" where
  "entry_attr_kept (Ptr (BGPAttribute_MP_UNREACH m)) = False"
| "entry_attr_kept a = True"

definition entry_ok :: "RibEntry \<Rightarrow> bool" where
  "entry_ok e \<longleftrightarrow> list_all entry_attr_ok (re_Attributes e) \<and>
     (\<Sum>a\<leftarrow>re_Attributes e. entry_attr_Len a) < 65536"

definition entry_norm :: "RibEntry \<Rightarrow> RibEntry" where
  "entry_norm e = e\<lparr>OrigTime := time32 (OrigTime e),
     re_Attributes := map (\<lambda>a. Val (attr_norm False (deref a))) (filter entry_attr_kept (re_Attributes e))\<rparr>"

lemma entry_attr_cases:
  "entry_attr_ok a \<Longrightarrow> (if entry_attr_kept a
     then attr_ok [] False (deref a) \<and> entry_attr_Write a = Attr_Write (deref a) \<and> entry_attr_Len a = Attr_Len (deref a)
     else entry_attr_Write a = Some [] \<and> entry_attr_Len a = 0)"
  by (cases a rule: entry_attr_ok.cases) simp_all

lemma entry_attrs_Write:
  assumes "list_all entry_attr_ok as"
  shows "\<exists>bs. write_all entry_attr_Write as = Some bs \<and> length bs = (\<Sum>a\<leftarrow>as. entry_attr_Len a) \<and>
    write_all (\<lambda>a. Attr_Write (deref a)) (filter entry_attr_kept as) = Some bs"
  using assms
proof (induction as)
  case (Cons a as)
  then obtain bs where bs: "write_all entry_attr_Write as = Some bs"
    "length bs = (\<Sum>a\<leftarrow>as. entry_attr_Len a)"
    "write_all (\<lambda>a. Attr_Write (deref a)) (filter entry_attr_kept as) = Some bs" by auto
  from Cons.prems have a: "entry_attr_ok a" by simp
  show ?case
  proof (cases "entry_attr_kept a")
    case True
    with entry_attr_cases [OF a] obtain b where "Attr_Write (deref a) = Some b" "length b = Attr_Len (deref a)"
      using Attr_Write_ok attr_ok_sized Attr_Write_length by metis
    with True bs entry_attr_cases [OF a] show ?thesis by auto
  next
    case False
    with bs entry_attr_cases [OF a] show ?thesis by auto
  qed
qed simp

lemma sum_of_nat_word: "(\<Sum>a\<leftarrow>xs. of_nat (f a)) = (of_nat (\<Sum>a\<leftarrow>xs. f a) :: 'a :: len word)"
  by (induction xs) simp_all

lemma RibEntry_Write_ok:
  assumes "entry_ok e"
  shows "\<exists>attrs. RibEntry_Write e = Some (be16 (re_PeerIndex e) @ be32 (word_of_int (OrigTime e)) @
      be16 (of_nat (length attrs)) @ attrs) \<and>
    length attrs < 65536 \<and> unat (RibEntry_Len e) = 8 + length attrs \<and>
    ParsePathAttribute attrs [] False = Some (re_Attributes (entry_norm e), None)"
proof -
  from assms obtain bs where bs: "write_all entry_attr_Write (re_Attributes e) = Some bs"
    "length bs = (\<Sum>a\<leftarrow>re_Attributes e. entry_attr_Len a)" "length bs < 65536"
    "write_all (\<lambda>a. Attr_Write (deref a)) (filter entry_attr_kept (re_Attributes e)) = Some bs"
    using entry_attrs_Write by (auto simp: entry_ok_def)
  moreover have "list_all (\<lambda>a. attr_ok [] False (deref a)) (filter entry_attr_kept (re_Attributes e))"
    using assms entry_attr_cases by (force simp: entry_ok_def list_all_iff)
  then have "ParsePathAttribute bs [] False = Some (re_Attributes (entry_norm e), None)"
    using ParsePathAttribute_Write [OF _ bs(4)] by (simp add: entry_norm_def)
  moreover have "RibEntry_Len e = of_nat (8 + length bs)"
    using bs(2) by (simp add: RibEntry_Len_def sum_of_nat_word)
  then have "unat (RibEntry_Len e) = 8 + length bs"
    using bs(3) by (simp only: unat_of_nat) simp
  ultimately show ?thesis
    by (auto simp: RibEntry_Write_def sum_of_nat_word unat_of_nat Let_def)
qed

lemma decodeRibEntries_Write:
  assumes "entry_ok e" and "RibEntry_Write e = Some bs"
  shows "decodeRibEntries (ahead pre (bs @ rest)) = Some ((entry_norm e, None), ahead (pre @ bs) rest)"
proof -
  from RibEntry_Write_ok [OF assms(1)] assms(2) obtain attrs where a:
    "bs = be16 (re_PeerIndex e) @ be32 (word_of_int (OrigTime e)) @ be16 (of_nat (length attrs)) @ attrs"
    "length attrs < 65536" "ParsePathAttribute attrs [] False = Some (re_Attributes (entry_norm e), None)"
    by auto
  then show ?thesis
    by (simp add: decodeRibEntries_def decodeAttributes_def read_back) (simp add: entry_norm_def)
qed

interpretation entries: reader_codec RibEntry_Write entry_ok decodeRibEntries "\<lambda>e. (entry_norm e, None)"
  by unfold_locales (simp add: decodeRibEntries_Write)

subsection \<open>RIBs\<close>

definition rib_ok :: "Rib \<Rightarrow> bool" where
  "rib_ok m \<longleftrightarrow> \<not> fst (GetSubtype m) \<and>
     (case rib_NLRI m of None \<Rightarrow> False | Some n \<Rightarrow> nlri_ok (rib_Afi m) False n) \<and>
     list_all entry_ok (RibEntries m) \<and> length (RibEntries m) < 65536 \<and>
     (\<forall>n. Rib_Len m = Some n \<longrightarrow> n \<le> 1048576)"

definition rib_norm :: "Rib \<Rightarrow> Rib" where
  "rib_norm m = m\<lparr>rib_Timestamp := time32 (rib_Timestamp m), RibEntries := map entry_norm (RibEntries m)\<rparr>"

lemma NLRI_Write_bytes:
  assumes "nlri_ok afi False n"
  shows "\<exists>l ip. NLRI_Write False n = Some (l # ip) \<and> length ip = prefix_bytes (unat l)"
proof -
  let ?ones = "fst (IPMask_Size (Mask (Prefix n)))"
  from assms have ones: "?ones \<le> 8 * afi_asize afi" and len: "length (IP (Prefix n)) = afi_asize afi"
    by (simp_all add: nlri_ok_def Let_def)
  then have "?ones < 256" using afi_asize_le [of afi] by simp
  then show ?thesis
    using len prefix_bytes_le [OF ones] by (simp add: NLRI_Write_def GetSplitLen_def subslice_def)
qed

lemma GetSubtype_spec:
  assumes "GetSubtype m = (False, st)"
  shows "rib_afi_safi st = Some (rib_Afi m, rib_Safi m) \<and> WriteAsAfiSafi m \<and>
    st \<in> {SUBT_RIB_IPV4_UNICAST, SUBT_RIB_IPV4_MULTICAST, SUBT_RIB_IPV6_UNICAST, SUBT_RIB_IPV6_MULTICAST} \<and>
    (rib_Afi m = AFI_IPV4 \<or> rib_Afi m = AFI_IPV6)"
  using assms by (auto simp: GetSubtype_def rib_afi_safi_def split: if_splits)

lemma write_entries_ok:
  assumes "list_all entry_ok es"
  shows "\<exists>bs. write_all RibEntry_Write es = Some bs \<and> length bs = (\<Sum>e\<leftarrow>es. unat (RibEntry_Len e))"
  using assms
proof (induction es)
  case (Cons e es)
  then obtain bs where "write_all RibEntry_Write es = Some bs" "length bs = (\<Sum>e\<leftarrow>es. unat (RibEntry_Len e))"
    by auto
  moreover from Cons.prems RibEntry_Write_ok [of e] obtain b where "RibEntry_Write e = Some b"
    "unat (RibEntry_Len e) = length b" by auto
  ultimately show ?case by simp
qed simp

lemma decode_rib_spec:
  assumes "rib_afi_safi st = Some (afi, safi)" and "afi = AFI_IPV4 \<or> afi = AFI_IPV6"
    and "nlri_ok afi False n" and "NLRI_Write False n = Some b"
    and "list_all entry_ok es" and "write_all RibEntry_Write es = Some ebs" and "length es < 65536"
  shows "decodeBGP4TD2RIBSpec (ahead [] (be32 seq @ b @ be16 (of_nat (length es)) @ ebs)) st ts False =
    Some (Some (MrtRib \<lparr>rib_Timestamp = ts, SequenceNumber = seq, rib_Afi = afi, rib_Safi = safi,
      rib_NLRI = Some n, RibEntries = map entry_norm es, WriteAsAfiSafi = True\<rparr>), None)"
proof -
  from NLRI_Write_bytes [OF assms(3)] assms(4) obtain l ip where b: "b = l # ip" "length ip = prefix_bytes (unat l)"
    by auto
  have p: "ParseNLRI (l # ip) afi safi False = Some ([n], None)"
    using ParseNLRI_Write [OF assms(2), of False "[n]" b safi] assms(3,4) b by simp
  have "last_error (map (\<lambda>e. (entry_norm e, None)) es) = None"
    by (simp add: last_error_def last_map)
  with b p assms(1,7) entries.read_n_emit_all [OF assms(5,6)] show ?thesis
    by (simp add: decodeBGP4TD2RIBSpec_def read_back o_def)
qed

lemma Rib_wire:
  assumes "rib_ok m"
  shows "\<exists>bs. Rib_Write m = Some bs \<and> Rib_Len m = Some (length bs - 12) \<and>
    DecodeSingle (bs @ rest) = Some ((Some (MrtRib (rib_norm m)), None), rest)"
proof -
  from assms obtain st n where st: "GetSubtype m = (False, st)" and n: "rib_NLRI m = Some n"
    "nlri_ok (rib_Afi m) False n" and es: "list_all entry_ok (RibEntries m)" "length (RibEntries m) < 65536"
    by (cases "GetSubtype m") (auto simp: rib_ok_def split: option.splits)
  note spec = GetSubtype_spec [OF st]
  from NLRI_Write_ok [OF n(2)] obtain b where b: "NLRI_Write False n = Some b" by blast
  from write_entries_ok [OF es(1)] obtain ebs where ebs: "write_all RibEntry_Write (RibEntries m) = Some ebs"
    "length ebs = (\<Sum>e\<leftarrow>RibEntries m. unat (RibEntry_Len e))" by blast
  let ?content = "be32 (SequenceNumber m) @ b @ be16 (of_nat (length (RibEntries m))) @ ebs"
  have len: "Rib_Len m = Some (length ?content)"
    using st n b ebs(2) by (simp add: Rib_Len_def)
  with assms have small: "length ?content \<le> 1048576" by (simp add: rib_ok_def)
  have w: "Rib_Write m = Some (WriteCommonHeader (rib_Timestamp m) TYPE_TABLE_DUMPV2 st
      (of_nat (length ?content)) @ ?content)"
    using st n b ebs len by (simp add: Rib_Write_def)
  have "decode_type (ahead [] ?content) (time32 (rib_Timestamp m)) TYPE_TABLE_DUMPV2 st
      (of_nat (length ?content)) = Some (Some (MrtRib (rib_norm m)), None)"
    using spec not_above_MaxMrtLength [OF small] decode_rib_spec [OF _ _ n(2) b es(1) ebs(1) es(2), of st]
    by (auto simp: decode_type_def decodeBGP4TD2_def rib_norm_def n simp del: MaxMrtLength_value)
  then show ?thesis
    using w len DecodeSingle_record [OF small refl, of "rib_Timestamp m" TYPE_TABLE_DUMPV2 st rest] by simp
qed


subsection \<open>Peer index tables\<close>

definition pi_ok :: "PeerIndexTable \<Rightarrow> bool" where
  "pi_ok m \<longleftrightarrow> To4 (CollectorId m) \<noteq> None \<and> length (ViewName m) < 65536 \<and>
     list_all peer_ok (Peers m) \<and> length (Peers m) < 65536 \<and> PeerIndex_Len m \<le> 1048576"

definition pi_norm :: "PeerIndexTable \<Rightarrow> PeerIndexTable" where
  "pi_norm m = m\<lparr>pi_Timestamp := time32 (pi_Timestamp m), CollectorId := nil_empty (To4 (CollectorId m)),
     Peers := map peer_norm (Peers m)\<rparr>"

text \<open>The table up to its peers.\<close>

lemma DecodeSingle_PeerIndex:
  assumes "pi_ok m"
  shows "\<exists>pre. DecodeSingle (PeerIndex_Write m @ rest) = do {
    (peers, r) \<leftarrow> read_n decode_peer (length (Peers m)) (ahead pre (concat (map Peer_Write (Peers m))));
    Some ((Some (MrtPeerIndex \<lparr>pi_Timestamp = time32 (pi_Timestamp m),
      CollectorId = nil_empty (To4 (CollectorId m)), ViewName = ViewName m, Peers = peers\<rparr>), None), rest) }"
proof -
  define content where "content = nil_empty (To4 (CollectorId m)) @ be16 (of_nat (length (ViewName m))) @
    ViewName m @ be16 (of_nat (length (Peers m))) @ concat (map Peer_Write (Peers m))"
  have len: "length content = PeerIndex_Len m"
    using PeerIndex_Write_length [of m] assms
    by (simp add: pi_ok_def PeerIndex_Write_def content_def)
  with assms have small: "PeerIndex_Len m \<le> 1048576" by (simp add: pi_ok_def)
  have "PeerIndex_Write m @ rest = WriteCommonHeader (pi_Timestamp m) TYPE_TABLE_DUMPV2
      SUBT_PEER_INDEX_TABLE (of_nat (PeerIndex_Len m)) @ content @ rest"
    by (simp add: PeerIndex_Write_def content_def)
  then have D: "DecodeSingle (PeerIndex_Write m @ rest) = do {
      res \<leftarrow> decode_type (ahead [] content) (time32 (pi_Timestamp m)) TYPE_TABLE_DUMPV2
        SUBT_PEER_INDEX_TABLE (of_nat (PeerIndex_Len m)); Some (res, rest) }"
    using DecodeSingle_record [of content "of_nat (PeerIndex_Len m)"] len small by simp
  show ?thesis
    using assms not_above_MaxMrtLength [OF small] unfolding D
    by (intro exI [of _ "nil_empty (To4 (CollectorId m)) @ be16 (of_nat (length (ViewName m))) @
        ViewName m @ be16 (of_nat (length (Peers m)))"])
      (simp add: content_def decode_type_def decodeBGP4TD2_def read_back pi_ok_def nil_empty_To4_length
        case_prod_unfold del: MaxMrtLength_value)
qed

lemma PeerIndex_wire:
  assumes "pi_ok m" and "list_all short_peer (Peers m)"
  shows "DecodeSingle (PeerIndex_Write m @ rest) = Some ((Some (MrtPeerIndex (pi_norm m)), None), rest)"
  using DecodeSingle_PeerIndex [OF assms(1), of rest] peers.read_n_emit_all [OF assms(2) write_all_Some]
  by (auto simp: pi_norm_def)

text \<open>A peer with a four-byte AS number: two bytes of the number are read.\<close>

lemma long_asn_bytes: "be32 w = be16 (ucast (drop_bit 16 w)) @ be16 (ucast w)"
  by (auto simp: be32_def be16_def intro!: bit_word_eqI simp: bit_simps)

lemma decode_peer_long:
  assumes "peer_ok p" and "0xffff < peer_ASN p"
  shows "\<exists>r. decode_peer (ahead pre (Peer_Write p @ rest)) =
    Some (peer_norm p\<lparr>peer_ASN := drop_bit 16 (peer_ASN p)\<rparr>, r) \<and> reader_inv r"
proof -
  have w: "Peer_Write p = [if To4 (peer_IP p) = None then 5 else 4] @ nil_empty (To4 (peer_Id p)) @
      addr_norm (peer_IP p) @ be16 (ucast (drop_bit 16 (peer_ASN p))) @ be16 (ucast (peer_ASN p))"
    using assms by (auto simp: Peer_Write_def addr_norm_def long_asn_bytes split: option.split)
  have "ucast (ucast (drop_bit 16 (peer_ASN p)) :: u16) = drop_bit 16 (peer_ASN p)"
    by (rule bit_word_eqI) (auto simp: bit_simps dest: bit_imp_le_length)
  moreover have "get16 (be16 w) 0 = Some w" for w
    by (simp add: get16_def be16_def)
  ultimately show ?thesis
    using assms unfolding w decode_peer_def
    by (auto simp: peer_ok_def read_back nil_empty_To4_length addr_norm_length Let_def peer_norm_def
      simp del: get16_Some)
qed

subsection \<open>BGP4MP\<close>

definition addresses_ok :: "bytes \<Rightarrow> bytes \<Rightarrow> bool" where
  "addresses_ok peerip localip \<longleftrightarrow>
     To4 peerip \<noteq> None \<and> To4 localip \<noteq> None \<or> To4 peerip = None \<and> length peerip = 16 \<and> length localip = 16"

text \<open>The local address is sent in the family of the peer's.\<close>

definition local_norm :: "bytes \<Rightarrow> bytes \<Rightarrow> bytes" where
  "local_norm peerip localip = (if To4 peerip = None then localip else nil_empty (To4 localip))"

definition sc_norm :: "StateChange \<Rightarrow> StateChange" where
  "sc_norm m = m\<lparr>sc_Timestamp := time32 (sc_Timestamp m), sc_PeerIP := addr_norm (sc_PeerIP m),
     sc_LocalIP := local_norm (sc_PeerIP m) (sc_LocalIP m)\<rparr>"

definition msg_norm :: "BGP4MP_Msg \<Rightarrow> BGP4MP_Msg" where
  "msg_norm m = m\<lparr>bm_Timestamp := time32 (bm_Timestamp m), bm_PeerIP := addr_norm (bm_PeerIP m),
     bm_LocalIP := local_norm (bm_PeerIP m) (bm_LocalIP m), bm_Message := map_option message_norm (bm_Message m)\<rparr>"

lemma write_addresses_parts:
  assumes "addresses_ok p l"
  shows "write_addresses (To4 p \<noteq> None) p l =
      be16 (if To4 p = None then AFI_IPV6 else AFI_IPV4) @ addr_norm p @ local_norm p l"
    and "length (addr_norm p) = (if To4 p = None then 16 else 4)"
    and "length (local_norm p l) = (if To4 p = None then 16 else 4)"
  using assms by (auto simp: write_addresses_def addresses_ok_def addr_norm_def local_norm_def nil_empty_def
    To4_result_length)

lemma StateChange_wire:
  assumes "addresses_ok (sc_PeerIP m) (sc_LocalIP m)"
  shows "length (StateChange_Write m) = 12 + StateChange_Len m \<and>
    DecodeSingle (StateChange_Write m @ rest) = Some ((Some (MrtStateChange (sc_norm m)), None), rest)"
proof -
  note w = write_addresses_parts [OF assms]
  define content where "content = be32 (sc_PeerAS m) @ be32 (sc_LocalAS m) @ be16 (sc_IfaceIndex m) @
    be16 (if To4 (sc_PeerIP m) = None then AFI_IPV6 else AFI_IPV4) @ addr_norm (sc_PeerIP m) @
    local_norm (sc_PeerIP m) (sc_LocalIP m) @ be16 (OldState m) @ be16 (NewState m)"
  let ?len = "StateChange_Len m"
  have len: "length content = ?len" and small: "?len \<le> 1048576"
    using w(2,3) by (simp_all add: content_def StateChange_Len_def StateChange_IsIPv4_def)
  have bs: "StateChange_Write m = WriteCommonHeader (sc_Timestamp m) TYPE_BGP4MP
      SUBT_BGP4MP_STATE_CHANGE_AS4 (of_nat ?len) @ content"
    using w(1) by (simp add: StateChange_Write_def StateChange_IsIPv4_def content_def)
  have "decode_type (ahead [] content) (time32 (sc_Timestamp m)) TYPE_BGP4MP SUBT_BGP4MP_STATE_CHANGE_AS4
      (of_nat ?len) = Some (Some (MrtStateChange (sc_norm m)), None)"
    using not_above_MaxMrtLength [OF small] w(2,3)
    by (simp add: decode_type_def decodeBGP4MP_def read_back sc_norm_def Let_def content_def
      del: MaxMrtLength_value)
  then show ?thesis
    using DecodeSingle_record [of content "of_nat ?len"] len small unfolding bs by simp
qed

lemma word_minus_split:
  "unat (x :: u32) = k + n \<Longrightarrow> unat (w :: u32) = k \<Longrightarrow> \<not> x < w \<and> unat (x - w) = n"
  by (simp add: word_less_nat_alt word_le_nat_alt unat_sub)

text \<open>The body of a written message record, for a BGP message of bytes \<open>b\<close>.\<close>

definition msg_content :: "BGP4MP_Msg \<Rightarrow> bytes \<Rightarrow> bytes" where
  "msg_content m b =
     be32 (bm_PeerAS m) @ be32 (bm_LocalAS m) @ be16 (bm_IfaceIndex m) @
     be16 (if To4 (bm_PeerIP m) = None then AFI_IPV6 else AFI_IPV4) @ addr_norm (bm_PeerIP m) @
     local_norm (bm_PeerIP m) (bm_LocalIP m) @ b"

lemma length_msg_content:
  assumes "addresses_ok (bm_PeerIP m) (bm_LocalIP m)"
  shows "length (msg_content m b) = (if To4 (bm_PeerIP m) = None then 44 else 20) + length b"
  using write_addresses_parts [OF assms] by (simp add: msg_content_def)

lemma Msg_Write_content:
  assumes "addresses_ok (bm_PeerIP m) (bm_LocalIP m)" and "bm_Message m = Some msg"
    and "Message_Write msg = Some b" and "Message_Len msg = Some (length b)"
  shows "Msg_Len m = Some (length (msg_content m b))"
    and "Msg_Write m = Some (WriteCommonHeader (bm_Timestamp m) TYPE_BGP4MP SUBT_BGP4MP_MESSAGE_AS4
      (of_nat (length (msg_content m b))) @ msg_content m b)"
proof -
  show len: "Msg_Len m = Some (length (msg_content m b))"
    using assms by (simp add: length_msg_content Msg_Len_def Msg_IsIPv4_def)
  show "Msg_Write m = Some (WriteCommonHeader (bm_Timestamp m) TYPE_BGP4MP SUBT_BGP4MP_MESSAGE_AS4
      (of_nat (length (msg_content m b))) @ msg_content m b)"
    using assms len write_addresses_parts [OF assms(1)]
    by (simp add: Msg_Write_def Msg_IsIPv4_def) (simp add: msg_content_def)
qed

lemma decode_msg_content:
  assumes "addresses_ok (bm_PeerIP m) (bm_LocalIP m)" and "bm_Message m = Some msg"
    and "19 \<le> length b" "length b \<le> 4096"
    and "ParsePacketHeader b = Some (t, of_nat (length b - 19), None)"
    and "ParsePacket t (drop 19 b) = Some (Some (message_norm msg), None)"
  shows "decodeBGP4MP (ahead [] (msg_content m b)) (time32 (bm_Timestamp m)) SUBT_BGP4MP_MESSAGE_AS4
    (of_nat (length (msg_content m b))) = Some (Some (MrtMsg (msg_norm m)), None)"
proof -
  let ?v6 = "To4 (bm_PeerIP m) = None"
  note w = write_addresses_parts [OF assms(1)]
  define len where "len = length (msg_content m b)"
  have len: "len = (if ?v6 then 44 else 20) + length b" and small: "len \<le> 1048576"
    using length_msg_content [OF assms(1)] assms(4) by (simp_all add: len_def)
  have u: "unat (of_nat (length b - 19) :: u16) = length b - 19"
    by (rule unat_of_nat16) (use assms(4) in simp)
  have body: "subslice b 19 (unat (19 + of_nat (length b - 19) :: u16)) = Some (drop 19 b)"
    using assms(3,4) header_end [of "of_nat (length b - 19)"] u by (simp add: subslice_def)
  have ulen: "unat (of_nat len :: u32) = len" by (rule unat_of_nat32 [OF small])
  have size: "?v6 \<Longrightarrow> \<not> (of_nat len :: u32) < 44 \<and> unat ((of_nat len :: u32) - 44) = length b"
    by (rule word_minus_split [where k = 44]) (simp_all only: ulen, simp_all add: len)
  have size4: "\<not> ?v6 \<Longrightarrow> \<not> (of_nat len :: u32) < 20 \<and> unat ((of_nat len :: u32) - 20) = length b"
    by (rule word_minus_split [where k = 20]) (simp_all only: ulen, simp_all add: len)
  show ?thesis
    unfolding len_def [symmetric]
    using not_above_MaxMrtLength [OF small] w(2,3) size size4 assms(3-6) u body assms(2)
    by (cases ?v6) (auto simp: decodeBGP4MP_def read_back msg_norm_def Let_def msg_content_def
      simp del: MaxMrtLength_value)
qed

lemma Msg_wire:
  assumes "addresses_ok (bm_PeerIP m) (bm_LocalIP m)" and "bm_Message m = Some msg" and "message_ok msg"
  shows "\<exists>bs. Msg_Write m = Some bs \<and> Msg_Len m = Some (length bs - 12) \<and>
    DecodeSingle (bs @ rest) = Some ((Some (MrtMsg (msg_norm m)), None), rest)"
proof -
  from Message_wire [OF assms(3)] obtain b t where b: "Message_Write msg = Some b"
    "Message_Len msg = Some (length b)" "ParsePacketHeader b = Some (t, of_nat (length b - 19), None)"
    "ParsePacket t (drop 19 b) = Some (Some (message_norm msg), None)" by blast
  have bl: "19 \<le> length b" "length b \<le> 4096"
    using Message_Len_bounds [OF assms(3) b(2)] by simp_all
  then have small: "length (msg_content m b) \<le> 1048576"
    using length_msg_content [OF assms(1), of b] by simp
  show ?thesis
    using Msg_Write_content [OF assms(1,2) b(1,2)] decode_msg_content [OF assms(1,2) bl b(3,4)]
      DecodeSingle_record [OF small refl, of "bm_Timestamp m" TYPE_BGP4MP SUBT_BGP4MP_MESSAGE_AS4 rest]
    by (simp add: decode_type_def)
qed

section \<open>All records\<close>

primrec mrt_ok :: "Mrt \<Rightarrow> bool" where
  "mrt_ok (MrtPeerIndex m) = (pi_ok m \<and> list_all short_peer (Peers m))"
| "mrt_ok (MrtRib m) = rib_ok m"
| "mrt_ok (MrtMsg m) = (addresses_ok (bm_PeerIP m) (bm_LocalIP m) \<and>
     (case bm_Message m of None \<Rightarrow> False | Some msg \<Rightarrow> message_ok msg))"
| "mrt_ok (MrtStateChange m) = addresses_ok (sc_PeerIP m) (sc_LocalIP m)"
| "mrt_ok (MrtRib1 m) = False"

primrec mrt_norm :: "Mrt \<Rightarrow> Mrt" where
  "mrt_norm (MrtPeerIndex m) = MrtPeerIndex (pi_norm m)"
| "mrt_norm (MrtRib m) = MrtRib (rib_norm m)"
| "mrt_norm (MrtMsg m) = MrtMsg (msg_norm m)"
| "mrt_norm (MrtStateChange m) = MrtStateChange (sc_norm m)"
| "mrt_norm (MrtRib1 m) = MrtRib1 m"

lemma Mrt_wire:
  assumes "mrt_ok m"
  shows "\<exists>bs. Mrt_Write m = Some bs \<and> Mrt_Len m = Some (length bs - 12) \<and>
    DecodeSingle (bs @ rest) = Some ((Some (mrt_norm m), None), rest)"
  using assms
proof (cases m)
  case (MrtPeerIndex p)
  with assms PeerIndex_wire [of p rest] PeerIndex_Write_length [of p] show ?thesis
    by (simp add: pi_ok_def)
next
  case (MrtMsg b)
  with assms Msg_wire [of b _ rest] show ?thesis by (auto split: option.splits)
next
  case (MrtStateChange b)
  with assms StateChange_wire [of b rest] show ?thesis by simp
qed (auto simp: Rib_wire)

section \<open>Records that are not read back\<close>

lemma Rib_generic_wire:
  assumes "fst (GetSubtype m)" and "rib_NLRI m = Some n" and "nlri_ok (rib_Afi m) False n"
    and "list_all entry_ok (RibEntries m)"
  shows "\<exists>tail len. Rib_Write m = Some (WriteCommonHeader (rib_Timestamp m) TYPE_TABLE_DUMPV2
      SUBT_RIB_GENERIC (of_nat len) @ be16 (rib_Afi m) @ [rib_Safi m] @ be32 (SequenceNumber m) @ tail) \<and>
    Rib_Len m = Some len \<and> length tail + 6 = len \<and> tail \<noteq> []"
proof -
  from NLRI_Write_bytes [OF assms(3)] obtain l ip where b: "NLRI_Write False n = Some (l # ip)" by blast
  from write_entries_ok [OF assms(4)] obtain ebs where ebs: "write_all RibEntry_Write (RibEntries m) = Some ebs"
    "length ebs = (\<Sum>e\<leftarrow>RibEntries m. unat (RibEntry_Len e))" by blast
  have "GetSubtype m = (True, SUBT_RIB_GENERIC)"
    using assms(1) by (auto simp: GetSubtype_def split: if_splits)
  with b ebs assms(2) show ?thesis
    by (intro exI [of _ "(l # ip) @ be16 (of_nat (length (RibEntries m))) @ ebs"])
      (simp add: Rib_Write_def Rib_Len_def)
qed

lemma small_seq_bytes: "seq < 256 \<Longrightarrow> be32 seq = [0, 0, 0, ucast (seq :: u32)]"
proof -
  assume "seq < 256"
  then have "drop_bit 8 seq = 0"
    by (intro word_uint_eqI) (simp add: word_less_def drop_bit_eq_div uint_div)
  moreover have "drop_bit 24 seq = drop_bit 16 (drop_bit 8 seq)" "drop_bit 16 seq = drop_bit 8 (drop_bit 8 seq)"
    by simp_all
  ultimately show ?thesis by (simp add: be32_def)
qed

lemma ParseNLRI_default_route:
  assumes "afi = AFI_IPV4 \<or> afi = AFI_IPV6"
  shows "ParseNLRI [0] afi safi False = Some ([\<lparr>Prefix = \<lparr>IP = replicate (afi_asize afi) 0,
    Mask = replicate (afi_asize afi) 0\<rparr>, PathId = 0\<rparr>], None)"
proof -
  have "cidr_mask k 0 = replicate k 0" for k
    by (simp add: cidr_mask_def cidr_byte_def map_replicate_const)
  with assms nth_afi_masks [of 0 afi] show ?thesis
    by (simp add: ParseNLRI_def go_loop.simps [of _ "(i, a)" for i a] ParseNLRI_body_def prefix_bytes_def
      subslice_def go_copy_def)
qed

lemma rib_afi_safi_dispatch:
  assumes "rib_afi_safi st = Some (afi, safi)"
  shows "\<exists>addpath. decodeBGP4TD2 r ts st n = (if n > MaxMrtLength then Some (None, Some (ErrMrtLength n))
      else decodeBGP4TD2RIBSpec r st ts addpath)" and "afi = AFI_IPV4 \<or> afi = AFI_IPV6"
  using assms by (auto simp: rib_afi_safi_def decodeBGP4TD2_def split: if_splits)

lemma decode_rib_truncated:
  assumes "rib_afi_safi st = Some (afi, safi)" and "length c \<le> 4" and "afi = AFI_IPV4 \<or> afi = AFI_IPV6"
  shows "\<exists>seq. decodeBGP4TD2RIBSpec (ahead [] c) st ts addpath = Some (Some (MrtRib
    \<lparr>rib_Timestamp = ts, SequenceNumber = seq, rib_Afi = afi, rib_Safi = safi,
     rib_NLRI = Some \<lparr>Prefix = \<lparr>IP = replicate (afi_asize afi) 0, Mask = replicate (afi_asize afi) 0\<rparr>, PathId = 0\<rparr>,
     RibEntries = [], WriteAsAfiSafi = True\<rparr>), None)"
proof (cases "length c = 4")
  case True
  then obtain a b d e where "c = [a, b, d, e]"
    by (auto simp: length_Suc_conv eval_nat_numeral)
  then have "c = be32 (u32_of a b d e)" by (simp add: be32_u32_of)
  with assms ParseNLRI_default_route [OF assms(3), of safi] show ?thesis
    by (simp add: decodeBGP4TD2RIBSpec_def read_back read_at_end prefix_bytes_def last_error_def)
next
  case False
  with assms ParseNLRI_default_route [OF assms(3), of safi] show ?thesis
    by (simp add: decodeBGP4TD2RIBSpec_def read_at_end prefix_bytes_def last_error_def)
qed

text \<open>The fields of a TABLE_DUMP record as RFC 6396 lays them out.\<close>

definition td1_content :: "u16 \<Rightarrow> u16 \<Rightarrow> bytes \<Rightarrow> byte \<Rightarrow> byte \<Rightarrow> u32 \<Rightarrow> bytes \<Rightarrow> u16 \<Rightarrow> bytes \<Rightarrow> bytes" where
  "td1_content view seq ip plen status orig peer asn attrs =
     be16 view @ be16 seq @ ip @ [plen, status] @ be32 orig @ peer @ be16 asn @ be16 (of_nat (length attrs)) @ attrs"

lemma decode_td1_content:
  assumes "st = SUBT_TABLE_DUMP_AFI_IPV4 \<and> length ip = 4 \<and> length peer = 4 \<or>
      st = SUBT_TABLE_DUMP_AFI_IPV6 \<and> length ip = 16 \<and> length peer = 16"
    and "ParsePathAttribute attrs [] True = Some (as, None)" and "length attrs < 65536"
  shows "decodeBGP4TD1 (ahead [] (td1_content view seq ip plen status orig peer asn attrs)) ts st n =
    Some (Some (MrtRib1 \<lparr>td_Timestamp = ts, OriginatedTime = uint orig, ViewNumber = view,
      td_SequenceNumber = seq,
      td_Prefix = \<lparr>IP = ip, Mask = cidr_mask (length ip) (min (unat plen) (8 * length ip - 1))\<rparr>,
      td_NLRI = None, td_Status = 0, td_PeerIP = peer, td_PeerAS = asn, td_Attributes = as,
      td_WriteAsAfiSafi = False\<rparr>), None)"
  using assms by (auto simp: decodeBGP4TD1_def td1_content_def read_address_def td1_mask_value
    decodeAttributes2B_def read_back)

lemma parse_mp_reach_next_hop:
  assumes "parse_mp_reach data apl = Some (Inr (BGPAttribute_MP_REACH m))"
  shows "length (mr_NextHop m) + 5 \<le> length data"
  using assms by (auto simp: parse_mp_reach_def Let_def split: if_splits Option.bind_splits)

lemma short_reach_parse:
  assumes "length nhb = 16"
  shows "\<exists>as err. ParsePathAttribute ([ATTRIBUTE_OPTIONAL, ATTRIBUTE_REACH, 17, 16] @ nhb) apl e = Some (as, err) \<and>
    (\<forall>x. Val (BGPAttribute_MP_REACH x) \<in> set as \<longrightarrow> length (mr_NextHop x) \<le> 12)"
proof -
  let ?b = "[ATTRIBUTE_OPTIONAL, ATTRIBUTE_REACH, 17, 16] @ nhb"
  obtain r where r: "parse_mp_reach (16 # nhb) apl = Some r"
    using parse_mp_reach_returns [of "16 # nhb" apl e] by blast
  have body: "ParsePathAttribute_body ?b apl e (0, []) =
      (case r of Inl (FailKeep err) \<Rightarrow> Some (Done ([], Some err)) | Inl (FailNil err) \<Rightarrow> Some (Done ([], Some err))
       | Inr a \<Rightarrow> Some (Next (20, [Val a])))"
    using r assms by (simp add: ParsePathAttribute_body_def attr_value_def subslice_def idx_def
      split: sum.split attr_fail.split)
  have "ParsePathAttribute_body ?b apl e (20, as) = Some (Done (as, None))" for as
    using assms by (simp add: ParsePathAttribute_body_def)
  with body r parse_mp_reach_next_hop [of "16 # nhb" apl] assms show ?thesis
    by (cases r) (auto simp: ParsePathAttribute_def go_loop_Next go_loop_Done split: attr_fail.splits)
qed

section \<open>Properties\<close>

text \<open>
  C4: An MRT file written record by record is read record by record: every peer index table with
  two-byte AS numbers, every RIB of a fixed address family, every BGP4MP message and state change
  that the format can carry is written with the length its header announces, and \<open>DecodeSingle\<close>
  reads it back in normal form (Unix time modulo \<open>2 ^ 32\<close>, addresses in their short form,
  attributes and messages in theirs) and leaves the rest of the stream for the next record.
\<close>

theorem Mrt_roundtrip:
  assumes "mrt_ok m"
  shows "\<exists>bs. Mrt_Write m = Some bs \<and> Mrt_Len m = Some (length bs - 12) \<and>
    DecodeSingle (bs @ rest) = Some ((Some (mrt_norm m), None), rest)"
  by (rule Mrt_wire [OF assms])

theorem Mrt_roundtrip_witness:
  "\<exists>bs. Mrt_Write (MrtPeerIndex \<lparr>pi_Timestamp = 1000, CollectorId = [10, 0, 0, 1], ViewName = [],
      Peers = [\<lparr>peer_Id = [10, 0, 0, 2], peer_IP = [10, 0, 0, 3], peer_ASN = 65001\<rparr>]\<rparr>) = Some bs \<and>
    DecodeSingle (bs @ [7]) = Some ((Some (MrtPeerIndex \<lparr>pi_Timestamp = 1000, CollectorId = [10, 0, 0, 1],
      ViewName = [], Peers = [\<lparr>peer_Id = [10, 0, 0, 2], peer_IP = [10, 0, 0, 3], peer_ASN = 65001\<rparr>]\<rparr>), None), [7])"
  using Mrt_roundtrip [of "MrtPeerIndex \<lparr>pi_Timestamp = 1000, CollectorId = [10, 0, 0, 1], ViewName = [],
      Peers = [\<lparr>peer_Id = [10, 0, 0, 2], peer_IP = [10, 0, 0, 3], peer_ASN = 65001\<rparr>]\<rparr>" "[7]"]
  by (auto simp: pi_ok_def short_peer_def peer_ok_def PeerIndex_Len_def Peer_Len_def pi_norm_def peer_norm_def
    addr_norm_def nil_empty_def time32_def)

text \<open>
  C33: A peer with a four-byte AS number is not read back: the writer marks the width in bit 2 of
  the type byte, the reader looks at bit 1. The table is accepted without an error, the peer has
  the upper half of its AS number, and the peers behind it are read two bytes too early.
\<close>

theorem PeerIndex_long_asn_misread:
  assumes "pi_ok m" and "Peers m = p # ps" and "0xffff < peer_ASN p"
  shows "\<exists>ps'. DecodeSingle (PeerIndex_Write m @ rest) = Some ((Some (MrtPeerIndex
      (pi_norm m\<lparr>Peers := peer_norm p\<lparr>peer_ASN := drop_bit 16 (peer_ASN p)\<rparr> # ps'\<rparr>)), None), rest) \<and>
    length ps' = length ps"
proof -
  from DecodeSingle_PeerIndex [OF assms(1), of rest] obtain pre where d: "DecodeSingle (PeerIndex_Write m @ rest) = do {
      (peers, r) \<leftarrow> read_n decode_peer (length (Peers m)) (ahead pre (concat (map Peer_Write (Peers m))));
      Some ((Some (MrtPeerIndex \<lparr>pi_Timestamp = time32 (pi_Timestamp m),
        CollectorId = nil_empty (To4 (CollectorId m)), ViewName = ViewName m, Peers = peers\<rparr>), None), rest) }"
    by blast
  from assms have "peer_ok p" by (simp add: pi_ok_def)
  from decode_peer_long [OF this assms(3), of pre "concat (map Peer_Write ps)"] obtain r where
    r: "decode_peer (ahead pre (Peer_Write p @ concat (map Peer_Write ps))) =
      Some (peer_norm p\<lparr>peer_ASN := drop_bit 16 (peer_ASN p)\<rparr>, r)" "reader_inv r" by blast
  from read_n_returns [where f = decode_peer and P = peer_parsed, OF decode_peer_returns r(2), of "length ps"]
  obtain ps' r' where n: "read_n decode_peer (length ps) r = Some (ps', r')" "length ps' = length ps"
    by (auto simp: returns_def)
  have "DecodeSingle (PeerIndex_Write m @ rest) = Some ((Some (MrtPeerIndex
      \<lparr>pi_Timestamp = time32 (pi_Timestamp m), CollectorId = nil_empty (To4 (CollectorId m)),
       ViewName = ViewName m, Peers = peer_norm p\<lparr>peer_ASN := drop_bit 16 (peer_ASN p)\<rparr> # ps'\<rparr>), None), rest)"
    using d r(1) n(1) by (simp add: assms(2))
  with n(2) show ?thesis
    by (cases m) (auto simp: pi_norm_def)
qed

theorem PeerIndex_long_asn_misread_witness:
  "DecodeSingle (PeerIndex_Write \<lparr>pi_Timestamp = 0, CollectorId = [10, 0, 0, 1], ViewName = [],
      Peers = [\<lparr>peer_Id = [10, 0, 0, 2], peer_IP = [10, 0, 0, 3], peer_ASN = 4200000001\<rparr>]\<rparr>) =
    Some ((Some (MrtPeerIndex \<lparr>pi_Timestamp = 0, CollectorId = [10, 0, 0, 1], ViewName = [],
      Peers = [\<lparr>peer_Id = [10, 0, 0, 2], peer_IP = [10, 0, 0, 3], peer_ASN = 64086\<rparr>]\<rparr>), None), [])"
  using PeerIndex_long_asn_misread [of "\<lparr>pi_Timestamp = 0, CollectorId = [10, 0, 0, 1], ViewName = [],
      Peers = [\<lparr>peer_Id = [10, 0, 0, 2], peer_IP = [10, 0, 0, 3], peer_ASN = 4200000001\<rparr>]\<rparr>" _ "[]" "[]"]
  by (auto simp: pi_ok_def peer_ok_def PeerIndex_Len_def Peer_Len_def pi_norm_def peer_norm_def
    addr_norm_def nil_empty_def time32_def)

text \<open>
  C34: A generic RIB (RIB_GENERIC) is not read back: the header announces one byte less than is
  written, so the next record starts on the last byte of this one, and the sequence number is
  written behind the address family but read before it, so with a sequence number below 256 the
  family read is 0 and the record is rejected.
\<close>

theorem RibGeneric_not_readable:
  assumes "fst (GetSubtype m)" and "rib_NLRI m = Some n" and "nlri_ok (rib_Afi m) False n"
    and "list_all entry_ok (RibEntries m)" and "SequenceNumber m < 256"
    and "Rib_Len m = Some len" and "len \<le> 1048576"
  shows "\<exists>bs mrt. Rib_Write m = Some bs \<and> length bs = 12 + len + 1 \<and>
    DecodeSingle (bs @ rest) = Some ((Some mrt, Some (ErrMrtAfi 0)), [last bs] @ rest)"
proof -
  from Rib_generic_wire [OF assms(1-4)] assms(6) obtain tail where bs: "Rib_Write m = Some
      (WriteCommonHeader (rib_Timestamp m) TYPE_TABLE_DUMPV2 SUBT_RIB_GENERIC (of_nat len) @
        be16 (rib_Afi m) @ [rib_Safi m] @ be32 (SequenceNumber m) @ tail)"
    "length tail + 6 = len" "tail \<noteq> []" by auto
  obtain a b where afi: "be16 (rib_Afi m) = [a, b]" by (simp add: be16_def)
  define content where "content = be32 (u32_of a b (rib_Safi m) 0) @ be16 0 @
    ucast (SequenceNumber m) # butlast tail"
  have c: "be16 (rib_Afi m) @ [rib_Safi m] @ be32 (SequenceNumber m) @ tail = content @ [last tail]"
    using bs(3) by (simp add: content_def afi small_seq_bytes [OF assms(5)] be32_u32_of)
  have len: "length content = len"
    using bs(2,3) by (cases tail) (auto simp: content_def)
  have "\<exists>mrt. decode_type (ahead [] content) ts TYPE_TABLE_DUMPV2 SUBT_RIB_GENERIC (of_nat len) =
      Some (Some mrt, Some (ErrMrtAfi 0))" for ts
    using not_above_MaxMrtLength [OF assms(7)]
    by (simp add: decode_type_def decodeBGP4TD2_def decodeNLRI_def content_def read_back
      del: MaxMrtLength_value be_zero)
  then obtain mrt where "decode_type (ahead [] content) (time32 (rib_Timestamp m)) TYPE_TABLE_DUMPV2
      SUBT_RIB_GENERIC (of_nat len) = Some (Some mrt, Some (ErrMrtAfi 0))" by blast
  then show ?thesis
    using DecodeSingle_record [of content "of_nat len" "rib_Timestamp m" TYPE_TABLE_DUMPV2 SUBT_RIB_GENERIC
        "[last tail] @ rest"] len assms(7) bs(3) unfolding bs(1) c by simp
qed

theorem RibGeneric_not_readable_witness:
  "\<exists>bs mrt. Rib_Write (NewMrtTableDumpV2_RibGeneric 1 AFI_IPV4 SAFI_UNICAST
      (Some \<lparr>Prefix = \<lparr>IP = [10, 0, 0, 0], Mask = [0xff, 0, 0, 0]\<rparr>, PathId = 0\<rparr>) 0) = Some bs \<and>
    DecodeSingle bs = Some ((Some mrt, Some (ErrMrtAfi 0)), [last bs])"
  using RibGeneric_not_readable [of "NewMrtTableDumpV2_RibGeneric 1 AFI_IPV4 SAFI_UNICAST
      (Some \<lparr>Prefix = \<lparr>IP = [10, 0, 0, 0], Mask = [0xff, 0, 0, 0]\<rparr>, PathId = 0\<rparr>) 0"
      "\<lparr>Prefix = \<lparr>IP = [10, 0, 0, 0], Mask = [0xff, 0, 0, 0]\<rparr>, PathId = 0\<rparr>" 10 "[]"]
  by (auto simp: NewMrtTableDumpV2_RibGeneric_def GetSubtype_def Rib_Len_def NLRI_Write_def GetSplitLen_def
    IPMask_Size_def prefix_bytes_def subslice_def nlri_ok_def afi_asize_def cidr_mask_def cidr_byte_def upt_rec
    replicate_numeral)

text \<open>
  C35: A truncated RIB is accepted: of a record of a fixed address family whose body ends before the
  prefix length, down to an empty body, the decoder makes the default route of that family with no
  entries, and reports no error.
\<close>

theorem Truncated_rib_accepted:
  assumes "rib_afi_safi st = Some (afi, safi)" and "length c \<le> 4"
  shows "\<exists>seq. DecodeSingle (WriteCommonHeader ts TYPE_TABLE_DUMPV2 st (of_nat (length c)) @ c @ rest) =
    Some ((Some (MrtRib \<lparr>rib_Timestamp = time32 ts, SequenceNumber = seq, rib_Afi = afi, rib_Safi = safi,
      rib_NLRI = Some \<lparr>Prefix = \<lparr>IP = replicate (afi_asize afi) 0, Mask = replicate (afi_asize afi) 0\<rparr>, PathId = 0\<rparr>,
      RibEntries = [], WriteAsAfiSafi = True\<rparr>), None), rest)"
proof -
  have small: "length c \<le> 1048576" using assms(2) by simp
  note dispatch = rib_afi_safi_dispatch [OF assms(1)]
  obtain addpath where "decodeBGP4TD2 (ahead [] c) (time32 ts) st (of_nat (length c)) =
      decodeBGP4TD2RIBSpec (ahead [] c) st (time32 ts) addpath"
    using dispatch(1) [of "ahead [] c" "time32 ts" "of_nat (length c)"] not_above_MaxMrtLength [OF small] by auto
  with decode_rib_truncated [OF assms dispatch(2), of "time32 ts" addpath] show ?thesis
    using DecodeSingle_record [OF small refl, of ts TYPE_TABLE_DUMPV2 st rest] by (auto simp: decode_type_def)
qed

theorem Truncated_rib_accepted_witness:
  "\<exists>m. DecodeSingle ([0, 0, 0, 0, 0, 13, 0, 2, 0, 0, 0, 0]) = Some ((Some (MrtRib m), None), []) \<and>
    rib_NLRI m = Some \<lparr>Prefix = \<lparr>IP = [0, 0, 0, 0], Mask = [0, 0, 0, 0]\<rparr>, PathId = 0\<rparr>"
  using Truncated_rib_accepted [of SUBT_RIB_IPV4_UNICAST AFI_IPV4 SAFI_UNICAST "[]" 0 "[]"]
  by (auto simp: rib_afi_safi_def WriteCommonHeader_def be16_def be32_def afi_asize_def replicate_numeral)

text \<open>
  C31: A TABLE_DUMP record laid out as the format says is decoded field by field, with attributes
  of two-byte AS numbers; but the mask stops one bit short: the longest prefixes, /32 and
  /128, and all longer lengths become /31 and /127. The prefix field of the record and its
  status stay unset.
\<close>

theorem TableDump_decoded:
  assumes "st = SUBT_TABLE_DUMP_AFI_IPV4 \<and> length ip = 4 \<and> length peer = 4 \<or>
      st = SUBT_TABLE_DUMP_AFI_IPV6 \<and> length ip = 16 \<and> length peer = 16"
    and "ParsePathAttribute attrs [] True = Some (as, None)" and "length attrs < 65536"
    and "content = td1_content view seq ip plen status orig peer asn attrs"
  shows "DecodeSingle (WriteCommonHeader ts TYPE_TABLE_DUMP st (of_nat (length content)) @ content @ rest) =
    Some ((Some (MrtRib1 \<lparr>td_Timestamp = time32 ts, OriginatedTime = uint orig, ViewNumber = view,
      td_SequenceNumber = seq,
      td_Prefix = \<lparr>IP = ip, Mask = cidr_mask (length ip) (min (unat plen) (8 * length ip - 1))\<rparr>,
      td_NLRI = None, td_Status = 0, td_PeerIP = peer, td_PeerAS = asn, td_Attributes = as,
      td_WriteAsAfiSafi = False\<rparr>), None), rest)"
proof -
  have "length content \<le> 1048576"
    using assms(1,3) by (auto simp: assms(4) td1_content_def)
  with decode_td1_content [OF assms(1-3)] show ?thesis
    by (simp add: DecodeSingle_record decode_type_def assms(4))
qed

theorem TableDump_decoded_witness:
  "\<exists>m. DecodeSingle ([0, 0, 0, 0, 0, 12, 0, 1, 0, 0, 0, 22,
      0, 0, 0, 1, 10, 1, 2, 3, 32, 1, 0, 0, 0, 0, 10, 0, 0, 1, 0, 1, 0, 0]) =
      Some ((Some (MrtRib1 m), None), []) \<and>
    td_Prefix m = \<lparr>IP = [10, 1, 2, 3], Mask = [255, 255, 255, 254]\<rparr>"
proof -
  have "ParsePathAttribute [] [] True = Some ([], None)"
    using ParsePathAttribute_Write [of "[]" True "[]"] by simp
  moreover have "cidr_mask (Suc (Suc (Suc (Suc 0)))) 31 = [255, 255, 255, 254]"
    by (simp add: cidr_mask_def cidr_byte_def upt_rec mask_eq_exp_minus_1)
  ultimately show ?thesis
    using TableDump_decoded [of 1 "[10, 1, 2, 3]" "[10, 0, 0, 1]" "[]" "[]" _ 0 1 32 1 0 1 0 "[]"]
    by (auto simp: td1_content_def WriteCommonHeader_def be16_def be32_def)
qed

text \<open>
  The abbreviated MP_REACH attribute that RIB entries are written with, a next hop and nothing
  else, is not known to the decoder: reading back one with an IPv6 next hop yields no MP_REACH
  with a next hop of more than 12 bytes, so the next hop is lost in every case.
\<close>

theorem Abbreviated_reach_unreadable:
  assumes "length (IPtoBytes (mr_NextHop m)) = 16"
  shows "\<exists>as err. ParsePathAttribute (MP_REACH_WriteMrt m) apl e = Some (as, err) \<and>
    (\<forall>x. Val (BGPAttribute_MP_REACH x) \<in> set as \<longrightarrow> length (mr_NextHop x) \<le> 12)"
proof -
  have "MP_REACH_WriteMrt m = [ATTRIBUTE_OPTIONAL, ATTRIBUTE_REACH, 17, 16] @ IPtoBytes (mr_NextHop m)"
    using assms by (simp add: MP_REACH_WriteMrt_def)
  with short_reach_parse [OF assms] show ?thesis by simp
qed

theorem Abbreviated_reach_unreadable_witness:
  "\<exists>as err. ParsePathAttribute ([0x80, 14, 17, 16] @ [0x20, 1, 0xd, 0xb8] @ replicate 12 0) [] False = Some (as, err) \<and>
    (\<forall>x. Val (BGPAttribute_MP_REACH x) \<in> set as \<longrightarrow> length (mr_NextHop x) \<le> 12)"
  using Abbreviated_reach_unreadable [of "\<lparr>mr_Afi = 2, mr_Safi = 1, mr_NextHop = [0x20, 1, 0xd, 0xb8] @ replicate 12 0,
      mr_NLRI = [], mr_EnableAddPath = False\<rparr>" "[]" False]
  by (simp add: MP_REACH_WriteMrt_def IPtoBytes_def To4_def To16_def nil_empty_def v4InV6Prefix_def)

end
