(* ===== verification/Extract_Seeds.thy ===== *)
theory Extract_Seeds
  imports Mrt_Wire
begin

text \<open>
  The program \<^verbatim>\<open>mrt/extract_seeds.go\<close>, which walks over an unpacked MRT file and prints the first
  BGP messages in it as seeds for the fuzzer. The file is its bytes; what is printed is the list of
  seeds and the four counters of the summary. Reading uses \<^verbatim>\<open>binary.Read\<close> on a stream, which
  leaves a variable at zero when the stream is too short. Lemmas: the walk ends on every file,
  and on a file of written BGP4MP messages it finds each of them and prints the first ones
  exactly.
\<close>

section \<open>The program\<close>

datatype seed =
    UpdateSeed nat bytes bytes bytes
  | OpenSeed bytes

record Seeds =
  recordCount :: nat
  bgp4MpCount :: nat
  updateCount :: nat
  openCount :: nat
  printed :: "seed list"

text \<open>\<^verbatim>\<open>binary.Read\<close> into a new variable: its value, whether there was an error, the rest.\<close>

definition bin_read16 :: "bytes \<Rightarrow> u16 \<times> bool \<times> bytes" where
  "bin_read16 s =
     (case ReadFull 2 s of (Inr b, s) \<Rightarrow> (u16_of (b ! 0) (b ! 1), False, s) | (Inl _, s) \<Rightarrow> (0, True, s))"

definition bin_read32 :: "bytes \<Rightarrow> u32 \<times> bool \<times> bytes" where
  "bin_read32 s =
     (case ReadFull 4 s of (Inr b, s) \<Rightarrow> (u32_of (b ! 0) (b ! 1) (b ! 2) (b ! 3), False, s)
      | (Inl _, s) \<Rightarrow> (0, True, s))"

text \<open>\<^verbatim>\<open>io.ReadFull\<close> into a new slice of length \<open>n\<close> whose error is ignored.\<close>

definition read_content :: "nat \<Rightarrow> bytes \<Rightarrow> bytes \<times> bytes" where
  "read_content n s = (take n s @ replicate (n - length s) 0, drop n s)"

text \<open>The part of a BGP4MP body behind its addresses.\<close>

definition seed_message :: "bytes \<Rightarrow> bytes" where
  "seed_message content =
     (let (peeras, _, br) = bin_read32 content;
          (localas, _, br) = bin_read32 br;
          (ifaceindex, _, br) = bin_read16 br;
          (afi, _, br) = bin_read16 br;
          sizeip = (if afi = 2 then 16 else 4);
          (peerip, br) = ReadFull sizeip br;
          (localip, br) = ReadFull sizeip br
      in br)"

definition seed_record ::
  "u32 \<Rightarrow> u16 \<Rightarrow> u16 \<Rightarrow> u32 \<Rightarrow> bytes \<Rightarrow> Seeds \<Rightarrow> Seeds go" where
  "seed_record timestamp mrttype mrtsubtype mrtlength content s =
     (if mrttype = 16 \<and> mrtsubtype = 4 then
        let s = s\<lparr>bgp4MpCount := bgp4MpCount s + 1\<rparr>; bgpMsg = seed_message content in
        if length bgpMsg < 19 then Some s
        else do {
          msgType \<leftarrow> idx bgpMsg 18;
          if msgType = 2 then
            let s = s\<lparr>updateCount := updateCount s + 1\<rparr> in
            if updateCount s \<le> 5 then do {
              body \<leftarrow> subslice bgpMsg 19 (length bgpMsg);
              Some (s\<lparr>printed := printed s @
                [UpdateSeed (updateCount s) (be32 timestamp @ be16 mrttype @ be16 mrtsubtype @
                  be32 mrtlength @ content) body bgpMsg]\<rparr>)
            } else Some s
          else if msgType = 1 then
            let s = s\<lparr>openCount := openCount s + 1\<rparr> in
            Some (if openCount s \<le> 2 then s\<lparr>printed := printed s @ [OpenSeed bgpMsg]\<rparr> else s)
          else Some s
        }
      else Some s)"

definition extract_body :: "bytes \<times> Seeds \<Rightarrow> (bytes \<times> Seeds, Seeds) ctl go" where
  "extract_body = (\<lambda>(r, s).
     if length r > 0 then
       let (timestamp, err, r) = bin_read32 r in
       if err then Some (Done s)
       else
         let (mrttype, _, r) = bin_read16 r;
             (mrtsubtype, _, r) = bin_read16 r;
             (mrtlength, _, r) = bin_read32 r in
         if mrtlength = 0 \<or> mrtlength > push_bit 20 1
         then Some (Next (drop (unat mrtlength) r, s))
         else
           let (content, r) = read_content (unat mrtlength) r;
               s = s\<lparr>recordCount := recordCount s + 1\<rparr> in do {
             s \<leftarrow> seed_record timestamp mrttype mrtsubtype mrtlength content s;
             Some (Next (r, s))
           }
     else Some (Done s))"

definition extract_seeds :: "bytes \<Rightarrow> Seeds go" where
  "extract_seeds allData =
     go_loop extract_body (allData,
       \<lparr>recordCount = 0, bgp4MpCount = 0, updateCount = 0, openCount = 0, printed = []\<rparr>)"

section \<open>The walk ends\<close>

definition is_update_seed :: "seed \<Rightarrow> bool" where
  "is_update_seed x = (case x of UpdateSeed _ _ _ _ \<Rightarrow> True | OpenSeed _ \<Rightarrow> False)"

definition seeds_inv :: "Seeds \<Rightarrow> bool" where
  "seeds_inv s \<longleftrightarrow> updateCount s + openCount s \<le> bgp4MpCount s \<and> bgp4MpCount s \<le> recordCount s \<and>
     length (filter is_update_seed (printed s)) = min 5 (updateCount s) \<and>
     length (filter (\<lambda>x. \<not> is_update_seed x) (printed s)) = min 2 (openCount s)"

text \<open>What a record changes: the counters stay consistent, the number of records does not change.\<close>

lemma seed_record_inv:
  assumes "seeds_inv s"
  shows "\<exists>s'. seed_record ts ty st n content (s\<lparr>recordCount := recordCount s + 1\<rparr>) = Some s' \<and>
    seeds_inv s' \<and> recordCount s' = recordCount s + 1"
  using assms by (auto simp: seed_record_def seeds_inv_def Let_def subslice_def is_update_seed_def)

lemma bin_read_rest:
  "snd (snd (bin_read16 s)) = drop 2 s" "snd (snd (bin_read32 s)) = drop 4 s"
  "fst (snd (bin_read32 s)) \<longleftrightarrow> length s < 4"
  by (auto simp: bin_read16_def bin_read32_def ReadFull_def)

lemma bin_read_short: "length s < 4 \<Longrightarrow> fst (bin_read32 s) = 0"
  by (auto simp: bin_read32_def ReadFull_def)

definition walk_inv :: "nat \<Rightarrow> bytes \<times> Seeds \<Rightarrow> bool" where
  "walk_inv flen = (\<lambda>(r, s). seeds_inv s \<and> 12 * recordCount s + length r \<le> flen)"

lemma extract_body_step:
  assumes "walk_inv flen (r, s)"
  shows "(\<exists>r' s'. extract_body (r, s) = Some (Next (r', s')) \<and> walk_inv flen (r', s') \<and> length r' < length r) \<or>
    (\<exists>s'. extract_body (r, s) = Some (Done s') \<and> walk_inv flen ([], s'))"
proof (cases "4 \<le> length r")
  case False
  with assms show ?thesis
    by (auto simp: extract_body_def walk_inv_def split_beta bin_read_rest)
next
  case True
  obtain ts where ts: "bin_read32 r = (ts, False, drop 4 r)"
    using True bin_read_rest [of r] by (cases "bin_read32 r") auto
  obtain ty e1 where ty: "bin_read16 (drop 4 r) = (ty, e1, drop 6 r)"
    using bin_read_rest [of "drop 4 r"] by (cases "bin_read16 (drop 4 r)") auto
  obtain st e2 where st: "bin_read16 (drop 6 r) = (st, e2, drop 8 r)"
    using bin_read_rest [of "drop 6 r"] by (cases "bin_read16 (drop 6 r)") auto
  obtain n e3 where n: "bin_read32 (drop 8 r) = (n, e3, drop 12 r)"
    using bin_read_rest [of "drop 8 r"] by (cases "bin_read32 (drop 8 r)") auto
  show ?thesis
  proof (cases "n = 0 \<or> n > push_bit 20 1")
    case skip: True
    with True assms show ?thesis
      by (auto simp: extract_body_def ts ty st n walk_inv_def)
  next
    case False
    have "12 \<le> length r"
    proof (rule ccontr)
      assume "\<not> 12 \<le> length r"
      then have "length (drop 8 r) < 4" by simp
      from bin_read_short [OF this] n False show "False" by simp
    qed
    moreover from assms have "seeds_inv s" by (simp add: walk_inv_def)
    from seed_record_inv [OF this, of ts ty st n "fst (read_content (unat n) (drop 12 r))"] obtain s' where
      "seed_record ts ty st n (fst (read_content (unat n) (drop 12 r))) (s\<lparr>recordCount := recordCount s + 1\<rparr>) = Some s'"
      "seeds_inv s'" "recordCount s' = recordCount s + 1" by blast
    ultimately show ?thesis
      using True False assms by (auto simp: extract_body_def ts ty st n walk_inv_def read_content_def)
  qed
qed

interpretation walk: go_loop_contract extract_body "walk_inv flen" "\<lambda>s. length (fst s)"
  "\<lambda>s. walk_inv flen ([], s)"
  for flen
  by unfold_locales (use extract_body_step in fastforce)

section \<open>A file of written BGP4MP messages\<close>

lemma bin_read_written:
  "bin_read16 (be16 w @ rest) = (w, False, rest)" "bin_read32 (be32 x @ rest) = (x, False, rest)"
  by (simp_all add: bin_read16_def bin_read32_def ReadFull_def be16_def be32_def)

lemma be_not_Nil [simp]: "be16 w \<noteq> []" "be32 x \<noteq> []"
  by (simp_all add: be16_def be32_def)

lemma seed_message_written:
  assumes "addresses_ok (bm_PeerIP m) (bm_LocalIP m)"
  shows "seed_message (msg_content m b) = b"
  using write_addresses_parts [OF assms]
  by (simp add: seed_message_def msg_content_def bin_read_written ReadFull_def Let_def)

text \<open>The type byte of a written message.\<close>

fun type_byte :: "Message \<Rightarrow> byte" where
  "type_byte (OpenMsg _) = 1"
| "type_byte (UpdateMsg _) = 2"
| "type_byte (NotificationMsg _) = 3"
| "type_byte KeepAliveMsg = 4"
| "type_byte (RouteRefreshMsg _) = 5"

lemma header_type: "idx (WriteBGPHeader t n @ rest) 18 = Some t"
  by (simp add: WriteBGPHeader_def bgpMarker_def replicate_numeral be16_def)

lemma Message_Write_type:
  assumes "message_ok msg" and "Message_Write msg = Some b"
  shows "idx b 18 = Some (type_byte msg)"
  using assms header_type [of MESSAGE_KEEPALIVE 0 "[]"]
  by (cases msg rule: message_ok.cases)
    (auto simp: Open_Write_def Update_Write_def Notification_Write_def KeepAlive_Write_def header_type Let_def
      split: Option.bind_splits)

text \<open>A record of a message: one more record and BGP4MP message, and one more message of its kind.\<close>

definition written_ok :: "BGP4MP_Msg \<Rightarrow> bool" where
  "written_ok m \<longleftrightarrow> addresses_ok (bm_PeerIP m) (bm_LocalIP m) \<and>
     (\<exists>msg. bm_Message m = Some msg \<and> message_ok msg)"

definition of_type :: "byte \<Rightarrow> BGP4MP_Msg \<Rightarrow> bool" where
  "of_type t m \<longleftrightarrow> (\<exists>msg. bm_Message m = Some msg \<and> type_byte msg = t)"

text \<open>The messages among the seeds: record, body and message of an UPDATE, and an OPEN.\<close>

definition update_seeds :: "seed list \<Rightarrow> (bytes \<times> bytes \<times> bytes) list" where
  "update_seeds xs = concat (map (\<lambda>x. case x of UpdateSeed _ r b m \<Rightarrow> [(r, b, m)] | OpenSeed _ \<Rightarrow> []) xs)"

definition open_seeds :: "seed list \<Rightarrow> bytes list" where
  "open_seeds xs = concat (map (\<lambda>x. case x of UpdateSeed _ _ _ _ \<Rightarrow> [] | OpenSeed m \<Rightarrow> [m]) xs)"

text \<open>What is written for a record and for the message in it.\<close>

definition wire :: "BGP4MP_Msg \<Rightarrow> bytes" where
  "wire m = the (Message_Write (the (bm_Message m)))"

definition update_wire :: "BGP4MP_Msg \<Rightarrow> bytes \<times> bytes \<times> bytes" where
  "update_wire m = (the (Msg_Write m), drop 19 (wire m), wire m)"

text \<open>How far the walk has come: \<open>s'\<close> is \<open>s\<close> after the records \<open>ms\<close>.\<close>

definition advanced :: "BGP4MP_Msg list \<Rightarrow> Seeds \<Rightarrow> Seeds \<Rightarrow> bool" where
  "advanced ms s s' \<longleftrightarrow> recordCount s' = recordCount s + length ms \<and>
     bgp4MpCount s' = bgp4MpCount s + length ms \<and>
     updateCount s' = updateCount s + length (filter (of_type 2) ms) \<and>
     openCount s' = openCount s + length (filter (of_type 1) ms) \<and>
     update_seeds (printed s') =
       update_seeds (printed s) @ take (5 - updateCount s) (map update_wire (filter (of_type 2) ms)) \<and>
     open_seeds (printed s') =
       open_seeds (printed s) @ take (2 - openCount s) (map wire (filter (of_type 1) ms))"

lemma advanced_Nil: "advanced [] s s"
  by (simp add: advanced_def)

lemma advanced_append: "advanced ms s s1 \<Longrightarrow> advanced ms' s1 s2 \<Longrightarrow> advanced (ms @ ms') s s2"
  by (simp add: advanced_def)

lemma extract_body_written:
  assumes "written_ok m" and "Msg_Write m = Some bs"
  shows "\<exists>s'. extract_body (bs @ rest, s) = Some (Next (rest, s')) \<and> advanced [m] s s'"
proof -
  from assms(1) obtain msg where addr: "addresses_ok (bm_PeerIP m) (bm_LocalIP m)"
    and msg: "bm_Message m = Some msg" "message_ok msg" by (auto simp: written_ok_def)
  from Message_wire [OF msg(2)] obtain b where b: "Message_Write msg = Some b" "Message_Len msg = Some (length b)"
    by blast
  have bl: "19 \<le> length b" "length b \<le> 4096"
    using Message_Len_bounds [OF msg(2) b(2)] by simp_all
  define len where "len = length (msg_content m b)"
  have len: "0 < len" "len \<le> 1048576"
    using length_msg_content [OF addr, of b] bl by (simp_all add: len_def)
  have u: "unat (of_nat len :: u32) = len" by (rule unat_of_nat32 [OF len(2)])
  then have word: "(of_nat len :: u32) \<noteq> 0" "\<not> (1048576 :: u32) < of_nat len"
    using len by (metis less_irrefl unat_0, simp only: word_less_nat_alt, simp)
  let ?header = "be32 (word_of_int (bm_Timestamp m)) @ be16 16 @ be16 4 @ be32 (of_nat len)"
  have bs: "bs = ?header @ msg_content m b"
    using Msg_Write_content(2) [OF addr msg(1) b] assms(2) by (simp add: WriteCommonHeader_def len_def)
  have c: "read_content len (msg_content m b @ rest) = (msg_content m b, rest)"
    by (simp add: read_content_def len_def)
  have t: "idx b 18 = Some (type_byte msg)" by (rule Message_Write_type [OF msg(2) b(1)])
  have w: "wire m = b" "update_wire m = (bs, drop 19 b, b)"
    by (simp_all add: wire_def update_wire_def msg(1) b(1) assms(2))
  have "\<exists>s'. seed_record (word_of_int (bm_Timestamp m)) 16 4 (of_nat len) (msg_content m b)
      (s\<lparr>recordCount := recordCount s + 1\<rparr>) = Some s' \<and> advanced [m] s s'"
    using t bl msg(1)
    by (auto simp: seed_record_def seed_message_written [OF addr] of_type_def Let_def subslice_def advanced_def
        update_seeds_def open_seeds_def w bs take_Cons')
  then show ?thesis
    unfolding bs using word u c by (auto simp: extract_body_def bin_read_written)
qed

lemma extract_written:
  "list_all written_ok ms \<Longrightarrow> write_all Msg_Write ms = Some bs \<Longrightarrow>
    \<exists>s'. go_loop extract_body (bs, s) = Some s' \<and> advanced ms s s'"
proof (induction ms arbitrary: bs s)
  case Nil
  then show ?case by (simp add: go_loop_Done [of _ _ s] extract_body_def advanced_Nil)
next
  case (Cons m ms)
  then obtain b bs' where b: "Msg_Write m = Some b" "write_all Msg_Write ms = Some bs'" "bs = b @ bs'"
    by (auto split: Option.bind_splits)
  from Cons.prems(1) have "written_ok m" by simp
  from extract_body_written [OF this b(1), of bs' s] obtain s1 where s1:
    "extract_body (bs, s) = Some (Next (bs', s1))" "advanced [m] s s1"
    unfolding b(3) by blast
  from Cons.IH [OF _ b(2), of s1] Cons.prems(1) obtain s' where "go_loop extract_body (bs', s1) = Some s'"
    "advanced ms s1 s'" by auto
  with s1 advanced_append [OF s1(2)] show ?case by (auto simp: go_loop_Next)
qed

section \<open>Properties\<close>

text \<open>
  C8: The extraction ends on every file, without a panic. Its counters are consistent: every
  record counted has a header of 12 bytes, every UPDATE and OPEN counted is a BGP4MP message and
  every BGP4MP message a record; and it prints the first five UPDATE and the first two OPEN
  messages.
\<close>

theorem Extract_terminates:
  "\<exists>s. extract_seeds allData = Some s \<and> 12 * recordCount s \<le> length allData \<and>
    updateCount s + openCount s \<le> bgp4MpCount s \<and> bgp4MpCount s \<le> recordCount s \<and>
    length (filter is_update_seed (printed s)) = min 5 (updateCount s) \<and>
    length (filter (\<lambda>x. \<not> is_update_seed x) (printed s)) = min 2 (openCount s)"
  using walk.loop_returns [of "length allData"
      "(allData, \<lparr>recordCount = 0, bgp4MpCount = 0, updateCount = 0, openCount = 0, printed = []\<rparr>)"]
  by (auto simp: extract_seeds_def walk_inv_def seeds_inv_def)

text \<open>
  C30: On a file of BGP4MP messages written by \<open>MrtBGP4MP_Msg_AS4\<close> the extraction finds every one and
  prints the first ones exactly: it counts all of them as records and as BGP4MP messages, and
  the UPDATE and OPEN messages by their number; printed are the first five UPDATE messages, each
  with its whole record and its body, and the first two OPEN messages, byte for byte and in order.
\<close>

theorem Extract_finds_written:
  assumes "list_all written_ok ms" and "write_all Msg_Write ms = Some bs"
  shows "\<exists>s. extract_seeds bs = Some s \<and> recordCount s = length ms \<and> bgp4MpCount s = length ms \<and>
    updateCount s = length (filter (of_type 2) ms) \<and> openCount s = length (filter (of_type 1) ms) \<and>
    update_seeds (printed s) = take 5 (map update_wire (filter (of_type 2) ms)) \<and>
    open_seeds (printed s) = take 2 (map wire (filter (of_type 1) ms))"
  using extract_written [OF assms, of
      "\<lparr>recordCount = 0, bgp4MpCount = 0, updateCount = 0, openCount = 0, printed = []\<rparr>"]
  by (auto simp: extract_seeds_def advanced_def update_seeds_def open_seeds_def)

theorem Extract_finds_written_witness:
  "\<exists>bs s. write_all Msg_Write (replicate 2 (NewMrtBGP4MP_Msg_AS4 65001 65002 0 [10, 0, 0, 1] [10, 0, 0, 2]
      (Some (UpdateMsg (Some (CraftUpdateMessage 0)))) 0)) = Some bs \<and>
    extract_seeds bs = Some s \<and> updateCount s = 2"
proof -
  let ?m = "NewMrtBGP4MP_Msg_AS4 65001 65002 0 [10, 0, 0, 1] [10, 0, 0, 2]
      (Some (UpdateMsg (Some (CraftUpdateMessage 0)))) 0"
  have ok: "written_ok ?m"
    using CraftUpdateMessage_ok by (simp add: written_ok_def addresses_ok_def NewMrtBGP4MP_Msg_AS4_def)
  then obtain b where "Msg_Write ?m = Some b"
    using Msg_wire [of ?m] by (auto simp: written_ok_def)
  then have w: "write_all Msg_Write (replicate 2 ?m) = Some (b @ b)"
    by (simp add: replicate_numeral)
  moreover have "of_type 2 ?m"
    by (simp add: of_type_def NewMrtBGP4MP_Msg_AS4_def)
  ultimately show ?thesis
    using Extract_finds_written [OF _ w] ok by (auto simp: list_all_iff)
qed

end
