(* ===== verification/Spec2Isabelle.thy ===== *)
theory Spec2Isabelle
  imports Update_Pool Speaker_System Extract_Seeds
begin

text \<open>
  This is a verification library of the BGP library \<^verbatim>\<open>fgbgp\<close>: the encoders and decoders of BGP
  messages (package \<^verbatim>\<open>messages\<close>), the BGP speaker built on them (package \<^verbatim>\<open>server\<close>) and the reader
  and writer of MRT dump files (package \<^verbatim>\<open>mrt\<close>), with theorems over all inputs. Paths below are those
  of the repository.

  \<^bold>\<open>The program.\<close> A \<^verbatim>\<open>Manager\<close> owns neighbors and listening servers. Each \<^verbatim>\<open>Neighbor\<close> runs three
  goroutines on one TCP connection: the receive routine cuts the byte stream into messages and
  parses them; the life routine steps the state machine (\<^verbatim>\<open>EvolveState\<close>) on each parsed message and
  once a second; the sender routine writes queued messages. UPDATE bodies are not parsed by the
  receive routine but handed to the update handler, which passes them to a pool of workers; a worker
  decodes the body with what the neighbor negotiated and calls the user's event handler. Apart from
  the speaker, \<^verbatim>\<open>mrt\<close> writes peer tables, RIBs, messages and state changes as MRT records and
  decodes one record of a stream at a time (\<^verbatim>\<open>DecodeSingle\<close>); it uses the encoders and decoders of
  \<^verbatim>\<open>messages\<close> for prefixes, attributes and BGP messages.

  \<^bold>\<open>Theories and code.\<close>
  \<^item> \<open>Go_Prelude\<close>: the meaning of the Go constructs the code uses. A computation that may panic is an
    option (\<open>'a go\<close>, \<open>None\<close> is the panic); \<open>idx\<close>, \<open>subslice\<close>, \<open>set_idx\<close> and \<open>go_copy\<close> are indexing,
    slicing, assignment and \<^verbatim>\<open>copy\<close>; \<open>'a iface\<close> distinguishes a value from a pointer inside an
    interface; bytes and integers are words of their width. Two interfaces: \<open>go_loop_contract\<close>
    (invariant, variant and postcondition of a \<^verbatim>\<open>for\<close> loop, from which totality and the result
    follow) and \<open>list_decoder\<close> (a step that decodes one item in front of any rest, from which the
    loop decodes a list).
  \<^item> \<open>Go_Net\<close>: \<^verbatim>\<open>net.IP.To4\<close>, \<^verbatim>\<open>To16\<close>, \<^verbatim>\<open>Equal\<close> and \<^verbatim>\<open>net.IPMask.Size\<close> of the standard library.
  \<^item> \<open>Bgp_Base\<close>: \<^verbatim>\<open>messages/messages.go\<close>, header, KEEPALIVE, ROUTE-REFRESH, NOTIFICATION.
  \<^item> \<open>NLRI\<close>: prefixes, from \<^verbatim>\<open>messages/messages.go\<close> (type, writer, mask tables) and
    \<^verbatim>\<open>messages/bgp_update.go\<close> (\<^verbatim>\<open>ParseNLRI\<close>).
  \<^item> \<open>Bgp_Open\<close>: \<^verbatim>\<open>messages/bgp_open.go\<close>, capabilities and the OPEN message.
  \<^item> \<open>Bgp_Attributes\<close> and \<open>Bgp_Update\<close>: \<^verbatim>\<open>messages/bgp_update.go\<close>, path attributes and the UPDATE
    message.
  \<^item> \<open>Bgp_Packet\<close>: \<^verbatim>\<open>ParsePacket\<close>, the message interface, \<^verbatim>\<open>messages/fuzzing.go\<close>.
  \<^item> \<open>Neighbor\<close>: \<^verbatim>\<open>server/server.go\<close>, one neighbor. The struct is the record \<open>Neighbor\<close>; the channels
    \<^verbatim>\<open>OutQueue\<close> and \<^verbatim>\<open>update\<close> are lists; the calls of the user's handler are logged in \<open>n_Events\<close>;
    the clock readings, the result of dialling and the outcome of each socket call are arguments.
    \<open>nb_step\<close> interleaves the iterations of the three routines; an iteration is one step.
  \<^item> \<open>Worker_Pool\<close>: \<^verbatim>\<open>server/workerpool.go\<close>, a step relation whose steps are the rendezvous on the
    pool's channels; the \<^verbatim>\<open>Handler\<close> interface is the locale \<open>pool_handler\<close>.
  \<^item> \<open>Manager\<close>: the rest of \<^verbatim>\<open>server/server.go\<close>, and \<^verbatim>\<open>Process\<close> of \<^verbatim>\<open>server/update.go\<close>.
  \<^item> \<open>Update_Pool\<close>: the update handler of \<^verbatim>\<open>server/update.go\<close> on the worker pool.
  \<^item> \<open>Speaker_System\<close>: the running speaker of \<^verbatim>\<open>server/server.go\<close>: the manager, its servers and all
    neighbors as one transition system, whose steps are the manager's calls, the two parts of
    \<^verbatim>\<open>ProcessIncomingRequest\<close> and the iterations of \<open>nb_step\<close>; \<open>step_invariant\<close> is the interface of an
    invariant.
  \<^item> \<open>Mrt_Reader\<close>: \<^verbatim>\<open>mrt/reader.go\<close> and the common header of \<^verbatim>\<open>mrt/mrt.go\<close>; a specification of the
    reader as a stream with a sticky error; the interface \<open>reader_codec\<close> of an item that is written and
    read back in normal form.
  \<^item> \<open>Mrt_Record\<close> and \<open>Mrt_Decode\<close>: the records, writers and conversions of \<^verbatim>\<open>mrt/mrt.go\<close>, and its
    decoders. \<open>Mrt_Wire\<close> relates the two; it defines no part of the program, only what the format can
    carry (\<open>mrt_ok\<close>) and the normal form (\<open>mrt_norm\<close>).
  \<^item> \<open>Extract_Seeds\<close>: the program \<^verbatim>\<open>mrt/extract_seeds.go\<close>; the unpacked file is its input, the list of
    messages it prints with the counters of its summary is its result.

  \<^bold>\<open>What the lemmas show.\<close> For each decoder: it returns on every input, without panic and without
  running forever, and what it returns is well formed (\<open>..._safe\<close>); what the encoder writes for any
  value the format can carry is decoded to that value in normal form (\<open>..._roundtrip\<close>), and for
  prefixes the decoder accepts nothing else (\<open>ParseNLRI_iff_Write\<close>). For the neighbor: which
  transitions a step can make, an invariant of every interleaving of its routines, when processing
  a packet panics, what a peer learns from an OPEN, how timers act, and that two neighbors
  connected to each other establish a session. For the speaker: the manager's list has the accepted
  neighbors that are connected, and when it does not. For the pool: messages are neither lost nor
  duplicated, and the update handler on it counts and reports accordingly. For MRT: the reader
  refines its stream (\<open>Reader_refines_stream\<close>), decoding is safe on every stream and makes progress
  (\<open>DecodeSingle_safe\<close>), files are read back record by record (\<open>Mrt_roundtrip\<close>), and which records are not
  (\<open>PeerIndex_long_asn_misread\<close>, \<open>RibGeneric_not_readable\<close>, \<open>Truncated_rib_accepted\<close>). Some theorems state
  behaviour that a reader of the code would not expect; their text says so.

  \<^bold>\<open>Loops.\<close> \<^verbatim>\<open>for\<close> loops whose end depends on the data are \<open>go_loop\<close>, a partial function that is
  \<open>None\<close> also when it does not end, so \<open>Some\<close> in a theorem includes termination; no fuel is used.
  \<^verbatim>\<open>range\<close> loops are recursion on the list, counted loops of the MRT decoders \<open>read_n\<close>. \<open>read_socket\<close>
  recurses on the list of the outcomes of future \<^verbatim>\<open>Read\<close> calls; a call that never returns is the end of that list.

  \<^bold>\<open>Not modelled.\<close> \<^verbatim>\<open>String\<close> methods, logging and the layout of printed text; the sockets themselves,
  listening and dialling beyond their outcome; blocking of a send on a full \<^verbatim>\<open>OutQueue\<close> (1000
  messages); data races between the goroutines of one neighbor within an iteration; errors of the
  writer that records are written to; the texts of MRT decoding errors, which \<open>mrt_error\<close> names; the
  example program \<^verbatim>\<open>fgbgp.go\<close>, command line and set-up only.
\<close>

section \<open>From one speaker to the other\<close>

text \<open>One iteration of the receive loop on a written UPDATE.\<close>

lemma receive_update:
  assumes "Update_Write m = Some bs" and "update_ok apl e m"
    and "list_all (\<lambda>r. 0 < fst r \<and> \<not> snd r) reads" and "length bs \<le> length reads"
  shows "\<exists>c. receive_iter env h True (bs @ rest, reads) n =
    Some (log_event (EvUpdate (drop 19 bs)) (n\<lparr>LocalLastKeepAliveRecv := env_clock env 1\<rparr>), (rest, drop c reads))"
proof -
  have wire: "length bs = Update_Len m" "ParsePacketHeader bs = Some (MESSAGE_UPDATE, of_nat (length bs - 19), None)"
    using Update_wire [OF assms(2)] assms(1) by auto
  have len: "length bs = 19 + Update_LenContent m" "4 \<le> Update_LenContent m" "Update_LenContent m \<le> 4077"
    using wire(1) assms(2) unfolding update_ok_def
    by (simp add: Update_Len_def GetBGPHeaderLen_def, simp add: Update_LenContent_def, blast)
  obtain c1 where c1: "c1 \<le> 19"
    "readFromSocket 19 (bs @ rest, reads) = Some (take 19 bs, False, drop 19 bs @ rest, drop c1 reads)"
    using readFromSocket_takes [OF assms(3), of 19 "bs @ rest"] assms(4) len by auto
  have "list_all (\<lambda>r. 0 < fst r \<and> \<not> snd r) (drop c1 reads)"
    using assms(3) by (auto simp: list_all_iff dest: in_set_dropD)
  moreover have "Update_LenContent m \<le> length (drop 19 bs @ rest)"
    "Update_LenContent m \<le> length (drop c1 reads)"
    using len(1) c1(1) assms(4) by simp_all
  ultimately obtain c2 where "readFromSocket (Update_LenContent m) (drop 19 bs @ rest, drop c1 reads) =
      Some (take (Update_LenContent m) (drop 19 bs @ rest), False,
        drop (Update_LenContent m) (drop 19 bs @ rest), drop c2 (drop c1 reads))"
    using readFromSocket_takes by blast
  then have c2: "readFromSocket (Update_LenContent m) (drop 19 bs @ rest, drop c1 reads) =
      Some (drop 19 bs, False, rest, drop (c2 + c1) reads)"
    using len(1) by simp
  have "ParsePacketHeader (take 19 bs) = ParsePacketHeader bs"
    using len(1) by (simp add: ParsePacketHeader_def subslice_def idx_def cong: if_cong)
  moreover have "unat (of_nat (length bs - 19) :: u16) = Update_LenContent m"
    using len by simp
  moreover have "(of_nat (length bs - 19) :: u16) > 0"
    using calculation(2) len(2) by (simp add: word_less_nat_alt)
  ultimately show ?thesis
    using c1(2) c2 wire(2)
    by (intro exI [of _ "c2 + c1"]) (simp add: receive_iter_def receive_dispatch_def)
qed



end
